theory Spec2Isabelle
  imports Main
begin

section \<open>Historical balance route: data model\<close>

text \<open>
  The development embeds the balance route of the wallet time machine
  (\<^verbatim>\<open>src/unnamed/part_001\<close>). Block numbers and Unix timestamps are modelled
  as unbounded integers: they are integers far below \<open>2^53\<close>, where the double
  arithmetic of the source is exact. Amounts and balances, which a ledger can
  make large, are added as doubles (see \<open>to_double\<close> below). Promises are
  modelled by their outcome: a rejected promise or a \<^verbatim>\<open>throw\<close> is the left
  injection of a sum.
\<close>

type_synonym url = string

datatype chain_id = NumericId nat | NamedId string

datatype error =
    AxiosError "nat option"
  | UnsupportedChainNetwork string string
  | AlchemyKeyMissing
  | UnsupportedChain string
  | NoTronBlockFound
  | ExplorerApiError string "string option"
  | FetchTransactionsFailed error
  | FetchTransfersFailed error
  | TronBalanceFailed error
  | NonBase58Character
  | CallException
  | TypeError

text \<open>
  \<open>AxiosError s\<close> is the rejection of an axios call; \<open>s\<close> is
  \<^verbatim>\<open>error.response?.status\<close>, \<open>None\<close> when there is no response at all.
  \<open>CallException\<close> is a contract or balance call that the node rejects.
  \<open>TypeError\<close> is what reading a property of \<^verbatim>\<open>null\<close> raises.
\<close>

record block =
  number :: int
  timestamp :: int

record tron_tx =
  tx_timestamp :: int
  contractRet :: string
  contractType :: int
  ownerAddress :: "string option"
  toAddress :: "string option"
  amount :: "int option"
  cost_fee :: "int option"

record trc20_transfer =
  block_ts :: int
  from_address :: string
  to_address :: string
  quant :: int

record trc20_token =
  token_symbol :: string
  token_decimals :: "nat option"

text \<open>
  Optional fields stand for JavaScript values that may be missing or falsy:
  \<open>ownerAddress = None\<close> is a missing or empty address, \<open>amount = None\<close> a
  missing amount (read as \<open>0\<close> by \<^verbatim>\<open>tx.amount || 0\<close>), \<open>cost_fee\<close> is
  \<^verbatim>\<open>tx.cost?.fee\<close>. \<open>amount\<close>, \<open>cost_fee\<close> and \<open>quant\<close> are the
  integers the upstream writes; the source reads them with \<^verbatim>\<open>parseInt\<close> and
  \<^verbatim>\<open>parseFloat\<close>.
\<close>

datatype explorer_reply =
    BlockFound int
  | BlockNotFound string "string option"

text \<open>
  \<open>BlockFound n\<close> is an explorer envelope with \<^verbatim>\<open>status === '1'\<close> whose result
  reads as the number \<open>n\<close>; \<open>BlockNotFound message result\<close> is any other
  envelope.
\<close>

text \<open>
  An axios call either resolves with the parsed body or is rejected; the rejection
  carries the HTTP status when there was a response. A body is modelled at the
  type the source reads it at, with the fields it tests for presence optional.
\<close>

datatype 'a reply = Resolved 'a | Rejected "nat option"

text \<open>
  An endpoint is the HTTP world behind one URL: it may answer differently each
  time, so it sees how many calls were made before (a scripted mock transport).
\<close>

type_synonym 'a endpoint = "nat \<Rightarrow> 'a reply"

text \<open>
  The upstream services, one field for each URL shape the source builds; the
  arguments are the query parameters the source puts into the URL. API keys and
  headers only decorate a request and are left out.
\<close>

record upstream =
  explorer_block :: "url \<Rightarrow> int \<Rightarrow> chain_id option \<Rightarrow> explorer_reply endpoint"
  llama_block :: "int \<Rightarrow> int endpoint"
  tron_blocks :: "url \<Rightarrow> int option \<Rightarrow> int \<Rightarrow> block list option endpoint"
  tron_transactions :: "url \<Rightarrow> string \<Rightarrow> nat \<Rightarrow> nat \<Rightarrow> tron_tx list option endpoint"
  trc20_token :: "url \<Rightarrow> string \<Rightarrow> trc20_token list option endpoint"
  trc20_transfers ::
    "url \<Rightarrow> nat \<Rightarrow> nat \<Rightarrow> string \<Rightarrow> string \<Rightarrow> trc20_transfer list option endpoint"

text \<open>The observable effects of a query: transport calls made and backoff delays slept.\<close>

record io =
  calls :: nat
  sleeps :: "nat list"

definition io0 :: io where
  "io0 = \<lparr>calls = 0, sleeps = []\<rparr>"

definition axios_get :: "'a endpoint \<Rightarrow> io \<Rightarrow> (error + 'a) \<times> io" where
  "axios_get ep s =
     (case ep (calls s) of
        Resolved p \<Rightarrow> (Inr p, s\<lparr>calls := Suc (calls s)\<rparr>)
      | Rejected st \<Rightarrow> (Inl (AxiosError st), s\<lparr>calls := Suc (calls s)\<rparr>))"

definition sleep :: "nat \<Rightarrow> io \<Rightarrow> io" where
  "sleep ms s = s\<lparr>sleeps := sleeps s @ [ms]\<rparr>"

definition response_status :: "error \<Rightarrow> nat option" where
  "response_status e = (case e of AxiosError st \<Rightarrow> st | _ \<Rightarrow> None)"

section \<open>Chain profile\<close>

definition getChainId :: "string \<Rightarrow> string \<Rightarrow> error + chain_id" where
  "getChainId chain network =
     (if chain = ''ethereum'' then Inr (NumericId (if network = ''mainnet'' then 1 else 11155111))
      else if chain = ''polygon'' then Inr (NumericId (if network = ''mainnet'' then 137 else 80002))
      else if chain = ''bsc'' then Inr (NumericId (if network = ''mainnet'' then 56 else 97))
      else if chain = ''tron'' then Inr (NamedId (if network = ''mainnet'' then ''mainnet'' else ''shasta''))
      else Inl (UnsupportedChainNetwork chain network))"

text \<open>
  \<open>alchemyKey\<close> is \<^verbatim>\<open>process.env.ALCHEMY_API_KEY\<close>; it is falsy when unset or empty.
\<close>

definition getRpcUrl :: "string option \<Rightarrow> string \<Rightarrow> string \<Rightarrow> error + url" where
  "getRpcUrl alchemyKey chain network =
     (if chain = ''tron'' then
        (if network = ''shasta'' then Inr ''https://api.shasta.trongrid.io''
         else Inr ''https://api.trongrid.io'')
      else case alchemyKey of
        None \<Rightarrow> Inl AlchemyKeyMissing
      | Some k \<Rightarrow>
          if k = [] then Inl AlchemyKeyMissing
          else if chain = ''ethereum'' then
            Inr ((if network = ''mainnet'' then ''https://eth-mainnet.g.alchemy.com/v2/''
                  else ''https://eth-sepolia.g.alchemy.com/v2/'') @ k)
          else if chain = ''polygon'' then
            Inr ((if network = ''mainnet'' then ''https://polygon-mainnet.g.alchemy.com/v2/''
                  else ''https://polygon-amoy.g.alchemy.com/v2/'') @ k)
          else if chain = ''bsc'' then
            Inr ((if network = ''mainnet'' then ''https://bnb-mainnet.g.alchemy.com/v2/''
                  else ''https://bnb-testnet.g.alchemy.com/v2/'') @ k)
          else Inl (UnsupportedChain chain))"

definition getExplorerApiUrl :: "string \<Rightarrow> string \<Rightarrow> url" where
  "getExplorerApiUrl chain network =
     (if chain = ''tron'' then
        (if network = ''shasta'' then ''https://shastapi.tronscan.org/api''
         else ''https://apilist.tronscanapi.com/api'')
      else if chain = ''bsc'' then
        (if network = ''testnet'' then ''https://api-testnet.bscscan.com/api''
         else ''https://api.bscscan.com/api'')
      else ''https://api.etherscan.io/v2/api'')"

text \<open>
  The supported matrix in the words of the specification: ethereum, polygon and
  bsc on mainnet and on their one test network, tron on mainnet and shasta. The
  network names are the ones the form offers.
\<close>

definition supported_matrix :: "(string \<times> string) list" where
  "supported_matrix =
     [(''ethereum'', ''mainnet''), (''ethereum'', ''sepolia''),
      (''polygon'', ''mainnet''), (''polygon'', ''amoy''),
      (''bsc'', ''mainnet''), (''bsc'', ''testnet''),
      (''tron'', ''mainnet''), (''tron'', ''shasta'')]"

definition supported_chains :: "string list" where
  "supported_chains = [''ethereum'', ''polygon'', ''bsc'', ''tron'']"

section \<open>Rate-limited fetch client\<close>

fun fetchWithRetry :: "'a endpoint \<Rightarrow> nat \<Rightarrow> nat \<Rightarrow> io \<Rightarrow> (error + 'a) \<times> io" where
  "fetchWithRetry ep retries backoff s =
     (case axios_get ep s of
        (Inr p, s') \<Rightarrow> (Inr p, s')
      | (Inl e, s') \<Rightarrow>
          (if retries > 0 \<and> response_status e = Some 429
           then fetchWithRetry ep (retries - 1) (backoff * 2) (sleep backoff s')
           else (Inl e, s')))"

declare fetchWithRetry.simps [simp del]

text \<open>Every call site leaves \<^verbatim>\<open>retries = 5\<close> and \<^verbatim>\<open>backoff = 3000\<close> at their defaults.\<close>

definition fetch :: "'a endpoint \<Rightarrow> io \<Rightarrow> (error + 'a) \<times> io" where
  "fetch ep s = fetchWithRetry ep 5 3000 s"

text \<open>
  Mock transports: one that answers 429 to the first \<open>k\<close> calls and \<open>r\<close> from
  then on, and one that answers 429 for ever. \<open>backoffs b k\<close> are the first
  \<open>k\<close> delays of a doubling backoff that starts at \<open>b\<close>.
\<close>

definition throttled_then :: "nat \<Rightarrow> 'a reply \<Rightarrow> 'a endpoint" where
  "throttled_then k r i = (if i < k then Rejected (Some 429) else r)"

definition throttled :: "'a endpoint" where
  "throttled i = Rejected (Some 429)"

definition backoffs :: "nat \<Rightarrow> nat \<Rightarrow> nat list" where
  "backoffs b k = map (\<lambda>i. b * 2 ^ i) [0..<k]"

section \<open>Block-timestamp resolver\<close>

subsection \<open>The JSON-RPC provider\<close>

text \<open>
  The node behind the ethers provider is a chain given by the timestamps of its
  blocks \<open>0, 1, \<dots>, tip\<close>. \<^verbatim>\<open>getBlock\<close> of a number outside the chain is
  \<^verbatim>\<open>null\<close>. RPC transport failures are not modelled.
\<close>

definition getBlock :: "int list \<Rightarrow> int \<Rightarrow> block option" where
  "getBlock c n =
     (if 0 \<le> n \<and> n < int (length c) then Some \<lparr>number = n, timestamp = c ! nat n\<rparr>
      else None)"

definition getBlockNumber :: "int list \<Rightarrow> int" where
  "getBlockNumber c = int (length c) - 1"

definition getLatestBlock :: "int list \<Rightarrow> block option" where
  "getLatestBlock c = getBlock c (getBlockNumber c)"

subsection \<open>BSC: block index, then binary search over RPC\<close>

text \<open>The \<^verbatim>\<open>while (min <= max)\<close> loop.\<close>

function bsc_search :: "int list \<Rightarrow> int \<Rightarrow> int \<Rightarrow> int \<Rightarrow> int \<Rightarrow> error + int" where
  "bsc_search c ts mn mx closestBlock =
     (if mn \<le> mx then
        (case getBlock c ((mn + mx) div 2) of
           None \<Rightarrow> Inl TypeError
         | Some b \<Rightarrow>
             if timestamp b \<ge> ts then bsc_search c ts mn ((mn + mx) div 2 - 1) ((mn + mx) div 2)
             else bsc_search c ts ((mn + mx) div 2 + 1) mx closestBlock)
      else Inr closestBlock)"
  by pat_completeness auto
termination
  by (relation "measure (\<lambda>(c, ts, mn, mx, closestBlock). nat (mx - mn + 1))") auto

declare bsc_search.simps [simp del]

text \<open>Step 2 of \<^verbatim>\<open>getBscBlockNumberByTimestamp\<close>: everything after the fast path.\<close>

definition bsc_rpc_search :: "string option \<Rightarrow> int list \<Rightarrow> string \<Rightarrow> int \<Rightarrow> error + int" where
  "bsc_rpc_search alchemyKey c network ts =
     (case getRpcUrl alchemyKey ''bsc'' network of
        Inl e \<Rightarrow> Inl e
      | Inr rpcUrl \<Rightarrow>
         (case getLatestBlock c of
            None \<Rightarrow> Inl TypeError
          | Some latestBlock \<Rightarrow>
              if timestamp latestBlock < ts then Inr (number latestBlock)
              else
                let avgBlockTime = 3;
                    timeDiff = timestamp latestBlock - ts;
                    estimatedBlockDiff = timeDiff div avgBlockTime;
                    estimatedBlock = max 0 (number latestBlock - estimatedBlockDiff);
                    mn = max 0 (estimatedBlock - 100000);
                    mx = min (number latestBlock) (estimatedBlock + 100000)
                in case getBlock c mn of
                     None \<Rightarrow> Inl TypeError
                   | Some minBlock \<Rightarrow>
                      (case getBlock c mx of
                         None \<Rightarrow> Inl TypeError
                       | Some maxBlock \<Rightarrow>
                           if timestamp minBlock > ts \<or> timestamp maxBlock < ts
                           then bsc_search c ts 0 (number latestBlock) (number latestBlock)
                           else bsc_search c ts mn mx (number latestBlock))))"

definition getBscBlockNumberByTimestamp ::
  "string option \<Rightarrow> upstream \<Rightarrow> int list \<Rightarrow> string \<Rightarrow> int \<Rightarrow> io \<Rightarrow> (error + int) \<times> io" where
  "getBscBlockNumberByTimestamp alchemyKey up c network ts s =
     (if network = ''mainnet'' then
        (case axios_get (llama_block up ts) s of
           (Inr height, s') \<Rightarrow> (Inr height, s')
         | (Inl e, s') \<Rightarrow> (bsc_rpc_search alchemyKey c network ts, s'))
      else (bsc_rpc_search alchemyKey c network ts, s))"

text \<open>
  The brute-force reference of the specification: scan the chain from block 0 and
  return the first block number whose timestamp is not below the target.
\<close>

definition linear_scan :: "int list \<Rightarrow> int \<Rightarrow> int" where
  "linear_scan c ts = int (length (takeWhile (\<lambda>t. t < ts) c))"

subsection \<open>Tron: range query on the block index\<close>

definition getTronBlockNumberByTimestamp ::
  "upstream \<Rightarrow> string \<Rightarrow> int \<Rightarrow> io \<Rightarrow> (error + int) \<times> io" where
  "getTronBlockNumberByTimestamp up network ts s =
     (let start = (ts - 3600) * 1000;
          end_ts = (ts + 3600) * 1000;
          baseUrl = (if network = ''shasta'' then ''https://shastapi.tronscan.org/api''
                     else ''https://apilist.tronscanapi.com/api'')
      in case fetch (tron_blocks up baseUrl (Some start) end_ts) s of
           (Inl e, s1) \<Rightarrow> (Inl e, s1)
         | (Inr d, s1) \<Rightarrow>
            (case d of
               Some (b # bs) \<Rightarrow> (Inr (number b), s1)
             | _ \<Rightarrow>
               (case fetch (tron_blocks up baseUrl None (ts * 1000)) s1 of
                  (Inl e, s2) \<Rightarrow> (Inl e, s2)
                | (Inr preciseData, s2) \<Rightarrow>
                   (case preciseData of
                      Some (b # bs) \<Rightarrow> (Inr (number b), s2)
                    | _ \<Rightarrow> (Inl NoTronBlockFound, s2)))))"

subsection \<open>Dispatch, and the explorer index for the other chains\<close>

definition js_includes :: "string \<Rightarrow> string \<Rightarrow> bool" where
  "js_includes s sub = list_ex (\<lambda>i. take (length sub) (drop i s) = sub) [0..<Suc (length s)]"

definition startsWith :: "string \<Rightarrow> string \<Rightarrow> bool" where
  "startsWith s p = (take (length p) s = p)"

definition getBlockNumberByTimestamp ::
  "string option \<Rightarrow> upstream \<Rightarrow> int list \<Rightarrow> string \<Rightarrow> string \<Rightarrow> int \<Rightarrow> io
   \<Rightarrow> (error + int) \<times> io" where
  "getBlockNumberByTimestamp alchemyKey up c chain network ts s =
     (if chain = ''tron'' then getTronBlockNumberByTimestamp up network ts s
      else if chain = ''bsc'' then getBscBlockNumberByTimestamp alchemyKey up c network ts s
      else
        let baseUrl = getExplorerApiUrl chain network in
        case (if js_includes baseUrl ''/v2/api''
              then (case getChainId chain network of Inl e \<Rightarrow> Inl e | Inr i \<Rightarrow> Inr (Some i))
              else Inr None) of
          Inl e \<Rightarrow> (Inl e, s)
        | Inr chainId \<Rightarrow>
           (case axios_get (explorer_block up baseUrl ts chainId) s of
              (Inl e, s') \<Rightarrow> (Inl e, s')
            | (Inr (BlockFound n), s') \<Rightarrow> (Inr n, s')
            | (Inr (BlockNotFound message result), s') \<Rightarrow>
                if message = ''NOTOK''
                   \<and> (case result of None \<Rightarrow> False | Some r \<Rightarrow> js_includes r ''future'')
                then (case getRpcUrl alchemyKey chain network of
                        Inl e \<Rightarrow> (Inl e, s')
                      | Inr rpcUrl \<Rightarrow> (Inr (getBlockNumber c), s'))
                else (Inl (ExplorerApiError message result), s')))"

section \<open>Tron addresses\<close>

text \<open>
  \<^verbatim>\<open>bs58.decode\<close>, the Base58 decoder of the bs58 package with the Bitcoin
  alphabet: each leading \<^verbatim>\<open>1\<close> is a zero byte, the remaining digits are a
  base-58 number written out in big-endian bytes, and a character outside the
  alphabet throws.
\<close>

definition base58_alphabet :: string where
  "base58_alphabet = ''123456789ABCDEFGHJKLMNPQRSTUVWXYZabcdefghijkmnopqrstuvwxyz''"

fun index_of :: "'a \<Rightarrow> 'a list \<Rightarrow> nat option" where
  "index_of x [] = None"
| "index_of x (y # ys) = (if x = y then Some 0 else map_option Suc (index_of x ys))"

fun base58_value :: "string \<Rightarrow> nat \<Rightarrow> nat option" where
  "base58_value [] acc = Some acc"
| "base58_value (ch # cs) acc =
     (case index_of ch base58_alphabet of
        None \<Rightarrow> None
      | Some d \<Rightarrow> base58_value cs (acc * 58 + d))"

fun bytes_of_nat :: "nat \<Rightarrow> nat list" where
  "bytes_of_nat n = (if n = 0 then [] else bytes_of_nat (n div 256) @ [n mod 256])"

declare bytes_of_nat.simps [simp del]

definition bs58_decode :: "string \<Rightarrow> error + nat list" where
  "bs58_decode str =
     (case base58_value (dropWhile (\<lambda>ch. ch = CHR ''1'') str) 0 of
        None \<Rightarrow> Inl NonBase58Character
      | Some n \<Rightarrow>
          Inr (replicate (length (takeWhile (\<lambda>ch. ch = CHR ''1'') str)) 0 @ bytes_of_nat n))"

text \<open>\<^verbatim>\<open>Buffer.from(bytes).toString('hex')\<close>: two lower-case hex digits for each byte.\<close>

definition hex_digit :: "nat \<Rightarrow> char" where
  "hex_digit d = ''0123456789abcdef'' ! d"

definition hex_encode :: "nat list \<Rightarrow> string" where
  "hex_encode bytes = concat (map (\<lambda>b. [hex_digit (b div 16), hex_digit (b mod 16)]) bytes)"

text \<open>\<^verbatim>\<open>toLowerCase\<close> on the ASCII letters, the only ones an address form contains.\<close>

definition lower_char :: "char \<Rightarrow> char" where
  "lower_char ch =
     (case index_of ch ''ABCDEFGHIJKLMNOPQRSTUVWXYZ'' of
        None \<Rightarrow> ch
      | Some i \<Rightarrow> ''abcdefghijklmnopqrstuvwxyz'' ! i)"

definition toLowerCase :: "string \<Rightarrow> string" where
  "toLowerCase str = map lower_char str"

definition toTronHex :: "string \<Rightarrow> error + string" where
  "toTronHex address =
     (if startsWith address ''0x'' then Inr (''41'' @ drop 2 address)
      else if startsWith address ''T'' then
        (case bs58_decode address of
           Inl e \<Rightarrow> Inl e
         | Inr bytes \<Rightarrow> Inr (hex_encode (take (length bytes - 4) bytes)))
      else Inr address)"

section \<open>Balance reconstruction by replay\<close>

subsection \<open>Doubles\<close>

text \<open>
  A balance is a JavaScript number. \<open>to_double x\<close> is the double nearest to the
  integer \<open>x\<close>, ties to the even significand: the value \<^verbatim>\<open>parseInt\<close> and
  \<^verbatim>\<open>parseFloat\<close> read for the digits of \<open>x\<close>, and the value of a sum or
  difference of doubles whose exact result is \<open>x\<close>. An integer of at most 53
  bits is its own double. Overflow to \<^verbatim>\<open>Infinity\<close>, from \<open>2^1024\<close> on, is
  not modelled.
\<close>

fun bit_length :: "nat \<Rightarrow> nat" where
  "bit_length n = (if n = 0 then 0 else Suc (bit_length (n div 2)))"

declare bit_length.simps [simp del]

definition to_double :: "int \<Rightarrow> int" where
  "to_double x =
     (let a = nat \<bar>x\<bar>; w = bit_length a
      in if w \<le> 53 then x
         else let e = w - 53;
                  q = a div 2 ^ e;
                  r = a mod 2 ^ e;
                  q' = (if 2 * r > 2 ^ e \<or> (2 * r = 2 ^ e \<and> odd q) then q + 1 else q)
              in sgn x * int (q' * 2 ^ e))"

subsection \<open>Pagination\<close>

text \<open>
  The two \<^verbatim>\<open>while (hasMore)\<close> loops, of \<^verbatim>\<open>getTronHistoricalBalance\<close> and of
  \<^verbatim>\<open>getTronTokenHistoricalBalance\<close>, are the same loop up to the endpoint
  (\<open>page_at start\<close> is the URL of the page that starts at \<open>start\<close>), the safety
  cap and the error that wraps a failed fetch. The page size is \<^verbatim>\<open>limit = 50\<close>.
\<close>

function paginate ::
  "nat \<Rightarrow> (error \<Rightarrow> error) \<Rightarrow> (nat \<Rightarrow> 'e list option endpoint) \<Rightarrow> 'e list \<Rightarrow> nat \<Rightarrow> io
   \<Rightarrow> (error + 'e list) \<times> io" where
  "paginate cap wrap page_at allEvents start s =
     (case fetch (page_at start) s of
        (Inl e, s') \<Rightarrow> (Inl (wrap e), s')
      | (Inr d, s') \<Rightarrow>
         (case d of
            None \<Rightarrow> (Inr allEvents, s')
          | Some page \<Rightarrow>
              if page = [] then (Inr allEvents, s')
              else if length (allEvents @ page) \<ge> cap then (Inr (allEvents @ page), s')
              else paginate cap wrap page_at (allEvents @ page) (start + 50) s'))"
  by pat_completeness auto
termination
  by (relation "measure (\<lambda>(cap, wrap, page_at, allEvents, start, s). cap - length allEvents)")
     (auto simp: neq_Nil_conv)

declare paginate.simps [simp del]

subsection \<open>Native transfers\<close>

definition normalized :: "string option \<Rightarrow> error + string option" where
  "normalized a =
     (case a of
        None \<Rightarrow> Inr None
      | Some x \<Rightarrow>
          if x = [] then Inr None
          else (case toTronHex x of Inl e \<Rightarrow> Inl e | Inr h \<Rightarrow> Inr (Some (toLowerCase h))))"

definition amount_of :: "tron_tx \<Rightarrow> int" where
  "amount_of tx = (case amount tx of None \<Rightarrow> 0 | Some a \<Rightarrow> to_double a)"

definition fee_of :: "tron_tx \<Rightarrow> int" where
  "fee_of tx = (case cost_fee tx of None \<Rightarrow> 0 | Some f \<Rightarrow> to_double f)"

text \<open>One iteration of \<^verbatim>\<open>for (const tx of relevantTxs)\<close>.\<close>

definition replay_tx :: "string \<Rightarrow> int \<Rightarrow> tron_tx \<Rightarrow> error + int" where
  "replay_tx hexAddress balance tx =
     (if contractRet tx \<noteq> ''SUCCESS'' then Inr balance
      else if contractType tx = 1 then
        (case normalized (ownerAddress tx) of
           Inl e \<Rightarrow> Inl e
         | Inr ownerHex \<Rightarrow>
            (case normalized (toAddress tx) of
               Inl e \<Rightarrow> Inl e
             | Inr toHex \<Rightarrow>
                 if toHex = Some hexAddress then Inr (to_double (balance + amount_of tx))
                 else if ownerHex = Some hexAddress
                 then Inr (to_double (to_double (balance - amount_of tx) - fee_of tx))
                 else Inr balance))
      else Inr balance)"

fun replay_loop :: "string \<Rightarrow> int \<Rightarrow> tron_tx list \<Rightarrow> error + int" where
  "replay_loop hexAddress balance [] = Inr balance"
| "replay_loop hexAddress balance (tx # txs) =
     (case replay_tx hexAddress balance tx of
        Inl e \<Rightarrow> Inl e
      | Inr balance' \<Rightarrow> replay_loop hexAddress balance' txs)"

text \<open>The part of \<^verbatim>\<open>getTronHistoricalBalance\<close> after the pagination: sort, filter, replay.\<close>

definition replay_transactions :: "string \<Rightarrow> int \<Rightarrow> tron_tx list \<Rightarrow> error + int" where
  "replay_transactions address targetTimestamp allTransactions =
     (let relevantTxs =
            filter (\<lambda>tx. tx_timestamp tx \<le> targetTimestamp) (sort_key tx_timestamp allTransactions)
      in case toTronHex address of
           Inl e \<Rightarrow> Inl e
         | Inr h \<Rightarrow> replay_loop (toLowerCase h) 0 relevantTxs)"

text \<open>The first part of \<^verbatim>\<open>getTronHistoricalBalance\<close>: its pagination loop.\<close>

definition fetchAllTransactions ::
  "upstream \<Rightarrow> string \<Rightarrow> string \<Rightarrow> io \<Rightarrow> (error + tron_tx list) \<times> io" where
  "fetchAllTransactions up address network s =
     paginate 10000 FetchTransactionsFailed
       (tron_transactions up (getExplorerApiUrl ''tron'' network) address 50) [] 0 s"

definition getTronHistoricalBalance ::
  "upstream \<Rightarrow> string \<Rightarrow> string \<Rightarrow> int \<Rightarrow> io \<Rightarrow> (error + int) \<times> io" where
  "getTronHistoricalBalance up address network targetTimestamp s =
     (case fetchAllTransactions up address network s of
        (Inl e, s') \<Rightarrow> (Inl e, s')
      | (Inr allTransactions, s') \<Rightarrow>
          (replay_transactions address targetTimestamp allTransactions, s'))"

subsection \<open>TRC-20 transfers\<close>

definition getTronTokenInfo ::
  "upstream \<Rightarrow> string \<Rightarrow> string \<Rightarrow> io \<Rightarrow> trc20_token option \<times> io" where
  "getTronTokenInfo up tokenAddress network s =
     (case fetch (trc20_token up (getExplorerApiUrl ''tron'' network) tokenAddress) s of
        (Inr (Some (t # ts)), s') \<Rightarrow> (Some t, s')
      | (_, s') \<Rightarrow> (None, s'))"

definition replay_transfer :: "string \<Rightarrow> int \<Rightarrow> trc20_transfer \<Rightarrow> int" where
  "replay_transfer address balance tx =
     (if to_address tx = address then to_double (balance + to_double (quant tx))
      else if from_address tx = address then to_double (balance - to_double (quant tx))
      else balance)"

definition replay_transfers :: "string \<Rightarrow> int \<Rightarrow> trc20_transfer list \<Rightarrow> int" where
  "replay_transfers address targetTimestamp allTransfers =
     foldl (replay_transfer address) 0
       (filter (\<lambda>tx. block_ts tx \<le> targetTimestamp) (sort_key block_ts allTransfers))"

text \<open>The first part of \<^verbatim>\<open>getTronTokenHistoricalBalance\<close>: its pagination loop.\<close>

definition fetchAllTransfers ::
  "upstream \<Rightarrow> string \<Rightarrow> string \<Rightarrow> string \<Rightarrow> io \<Rightarrow> (error + trc20_transfer list) \<times> io" where
  "fetchAllTransfers up address tokenAddress network s =
     paginate 5000 FetchTransfersFailed
       (\<lambda>start. trc20_transfers up (getExplorerApiUrl ''tron'' network) 50 start
                  address tokenAddress) [] 0 s"

definition getTronTokenHistoricalBalance ::
  "upstream \<Rightarrow> string \<Rightarrow> string \<Rightarrow> string \<Rightarrow> int \<Rightarrow> io \<Rightarrow> (error + int) \<times> io" where
  "getTronTokenHistoricalBalance up address tokenAddress network targetTimestamp s =
     (case fetchAllTransfers up address tokenAddress network s of
        (Inl e, s') \<Rightarrow> (Inl e, s')
      | (Inr allTransfers, s') \<Rightarrow> (Inr (replay_transfers address targetTimestamp allTransfers), s'))"

section \<open>Mock upstreams\<close>

text \<open>An upstream that is down: every call is rejected without a response.\<close>

definition offline :: upstream where
  "offline =
     \<lparr>explorer_block = (\<lambda>baseUrl ts chainId i. Rejected None),
      llama_block = (\<lambda>ts i. Rejected None),
      tron_blocks = (\<lambda>baseUrl start end_ts i. Rejected None),
      tron_transactions = (\<lambda>baseUrl address limit start i. Rejected None),
      trc20_token = (\<lambda>baseUrl tokenAddress i. Rejected None),
      trc20_transfers = (\<lambda>baseUrl limit start address tokenAddress i. Rejected None)\<rparr>"

text \<open>
  A TronScan block index that holds the blocks \<open>bs\<close> and answers the query the
  source sends (\<^verbatim>\<open>sort=-timestamp&limit=1\<close> with an optional
  \<^verbatim>\<open>start_timestamp\<close> and an \<^verbatim>\<open>end_timestamp\<close>): the latest block in the range.
\<close>

definition tronscan_blocks :: "block list \<Rightarrow> int option \<Rightarrow> int \<Rightarrow> block list" where
  "tronscan_blocks bs start end_ts =
     take 1 (rev (sort_key timestamp
       (filter (\<lambda>b. (case start of None \<Rightarrow> True | Some st \<Rightarrow> st \<le> timestamp b)
                    \<and> timestamp b \<le> end_ts) bs)))"

definition tronscan :: "block list \<Rightarrow> upstream" where
  "tronscan bs = offline\<lparr>tron_blocks := (\<lambda>baseUrl start end_ts i.
                     Resolved (Some (tronscan_blocks bs start end_ts)))\<rparr>"

text \<open>An explorer index whose block-by-time endpoint is \<open>ep\<close>.\<close>

definition explorer_mock :: "explorer_reply endpoint \<Rightarrow> upstream" where
  "explorer_mock ep = offline\<lparr>explorer_block := (\<lambda>baseUrl ts chainId. ep)\<rparr>"

text \<open>Sample data: a chain of four blocks, a Tron index of two, an explorer envelope.\<close>

definition chain4 :: "int list" where "chain4 = [10, 20, 30, 40]"

definition tron2 :: "block list" where
  "tron2 = [\<lparr>number = 1, timestamp = 20000\<rparr>, \<lparr>number = 2, timestamp = 28000\<rparr>]"


text \<open>
  An adversarial TronScan: every page request, for transactions and for
  transfers, is answered with \<open>n\<close> copies of one event, whatever limit was asked.
\<close>

definition flooding :: "nat \<Rightarrow> tron_tx \<Rightarrow> trc20_transfer \<Rightarrow> upstream" where
  "flooding n tx tr =
     offline\<lparr>tron_transactions := (\<lambda>baseUrl address limit start i. Resolved (Some (replicate n tx))),
             trc20_transfers := (\<lambda>baseUrl limit start address tokenAddress i.
                                   Resolved (Some (replicate n tr)))\<rparr>"

definition sample_tx :: tron_tx where
  "sample_tx = \<lparr>tx_timestamp = 1, contractRet = ''SUCCESS'', contractType = 1,
                 ownerAddress = None, toAddress = None, amount = None, cost_fee = None\<rparr>"

definition sample_transfer :: trc20_transfer where
  "sample_transfer = \<lparr>block_ts = 1, from_address = ''a'', to_address = ''b'', quant = 1\<rparr>"

section \<open>The two forms of a Tron address\<close>

text \<open>
  A Tron address is a payload of 21 bytes, the first of which is \<open>0x41\<close>. Its
  hex form is the payload in hex; its Base58Check form is the Base58 encoding of
  the payload followed by a checksum of four bytes. The encoder is the inverse of
  the decoder above; the checksum is left open, since the source never verifies
  it.
\<close>

fun base58_digits :: "nat \<Rightarrow> nat list" where
  "base58_digits n = (if n = 0 then [] else base58_digits (n div 58) @ [n mod 58])"

declare base58_digits.simps [simp del]

definition nat_of_bytes :: "nat list \<Rightarrow> nat" where
  "nat_of_bytes bytes = foldl (\<lambda>acc b. acc * 256 + b) 0 bytes"

definition bs58_encode :: "nat list \<Rightarrow> string" where
  "bs58_encode bytes =
     replicate (length (takeWhile (\<lambda>b. b = 0) bytes)) CHR ''1''
     @ map (\<lambda>d. base58_alphabet ! d) (base58_digits (nat_of_bytes bytes))"

definition tron_payload :: "nat list \<Rightarrow> bool" where
  "tron_payload p = (length p = 21 \<and> hd p = 65 \<and> list_all (\<lambda>b. b < 256) p)"

definition checksum_bytes :: "nat list \<Rightarrow> bool" where
  "checksum_bytes cs = (length cs = 4 \<and> list_all (\<lambda>b. b < 256) cs)"

definition base58check_form :: "nat list \<Rightarrow> nat list \<Rightarrow> string" where
  "base58check_form p cs = bs58_encode (p @ cs)"

definition hex_form :: "nat list \<Rightarrow> string" where
  "hex_form p = hex_encode p"

text \<open>A sample address: the payload and checksum behind \<^verbatim>\<open>TR7NHqjeKQxGTCi8q8ZY4pL8otSzgjLj6t\<close>.\<close>

definition usdt_payload :: "nat list" where
  "usdt_payload = [65, 166, 20, 248, 3, 182, 253, 120, 9, 134, 164, 44, 120, 236, 156, 127,
                   119, 230, 222, 209, 60]"

definition usdt_checksum :: "nat list" where
  "usdt_checksum = [113, 2, 119, 245]"

section \<open>The replay accumulator, stated\<close>

text \<open>
  An event counts when it is a successful TRX transfer not later than the
  target. An event address is the queried address when it normalizes to the
  queried address's key. \<open>transfer_delta\<close> follows the branches of the loop:
  the amount when the recipient is the queried address, else minus amount and
  fee when the sender is. \<open>spec_delta\<close> reads the specification's sentence
  clause by clause: the amount for a recipient, minus amount and fee for a
  sender. The two agree on every event but a transfer of the queried address
  to itself (\<open>self_transfer\<close>), which a ledger does not hold: Tron rejects a
  transfer of TRX to oneself. \<open>magnitude\<close> bounds what an event can move.
\<close>

definition counts :: "int \<Rightarrow> tron_tx \<Rightarrow> bool" where
  "counts targetTimestamp tx \<longleftrightarrow>
     contractRet tx = ''SUCCESS'' \<and> contractType tx = 1 \<and> tx_timestamp tx \<le> targetTimestamp"

definition is_address :: "string \<Rightarrow> string option \<Rightarrow> bool" where
  "is_address hexAddress a \<longleftrightarrow> normalized a = Inr (Some hexAddress)"

definition well_formed :: "tron_tx \<Rightarrow> bool" where
  "well_formed tx \<longleftrightarrow> \<not> isl (normalized (ownerAddress tx)) \<and> \<not> isl (normalized (toAddress tx))"

definition transfer_delta :: "string \<Rightarrow> tron_tx \<Rightarrow> int" where
  "transfer_delta hexAddress tx =
     (if is_address hexAddress (toAddress tx) then amount_of tx
      else if is_address hexAddress (ownerAddress tx) then - (amount_of tx + fee_of tx)
      else 0)"

definition magnitude :: "tron_tx \<Rightarrow> int" where
  "magnitude tx = \<bar>amount_of tx\<bar> + \<bar>fee_of tx\<bar>"

definition self_transfer :: "string \<Rightarrow> tron_tx \<Rightarrow> bool" where
  "self_transfer hexAddress tx \<longleftrightarrow>
     is_address hexAddress (ownerAddress tx) \<and> is_address hexAddress (toAddress tx)"

definition spec_delta :: "string \<Rightarrow> tron_tx \<Rightarrow> int" where
  "spec_delta hexAddress tx =
     (if is_address hexAddress (toAddress tx) then amount_of tx else 0)
     - (if is_address hexAddress (ownerAddress tx) then amount_of tx + fee_of tx else 0)"

text \<open>
  A TronScan that holds the transactions \<open>txs\<close> and the transfers \<open>trs\<close> of
  an address and serves them in pages, and the sample events: two addresses in
  both forms, the four transfers of the replay scenario (100, 50 and 25 TRX in,
  30 TRX out with a fee of 1 TRX, in sun, delivered out of order) and one
  TRC-20 transfer.
\<close>

definition serving :: "tron_tx list \<Rightarrow> trc20_transfer list \<Rightarrow> upstream" where
  "serving txs trs =
     offline\<lparr>tron_transactions := (\<lambda>baseUrl address limit start i.
                                    Resolved (Some (take limit (drop start txs)))),
             trc20_transfers := (\<lambda>baseUrl limit start address tokenAddress i.
                                   Resolved (Some (take limit (drop start trs))))\<rparr>"

definition wallet58 :: string where
  "wallet58 = ''TR7NHqjeKQxGTCi8q8ZY4pL8otSzgjLj6t''"

definition wallet_hex :: string where
  "wallet_hex = ''41a614f803b6fd780986a42c78ec9c7f77e6ded13c''"

definition peer58 :: string where
  "peer58 = ''TBXSw8fM4jpQkGc6zZjsVABFpVN7UvXPdV''"

definition peer_hex :: string where
  "peer_hex = ''411111111111111111111111111111111111111111''"

definition transfer_tx :: "int \<Rightarrow> string \<Rightarrow> string \<Rightarrow> int \<Rightarrow> int \<Rightarrow> tron_tx" where
  "transfer_tx t sender recipient sun fee =
     \<lparr>tx_timestamp = t, contractRet = ''SUCCESS'', contractType = 1,
      ownerAddress = Some sender, toAddress = Some recipient,
      amount = Some sun, cost_fee = Some fee\<rparr>"

definition scenario_txs :: "tron_tx list" where
  "scenario_txs =
     [transfer_tx 3000 peer58 wallet58 25000000 0,
      transfer_tx 1000 peer58 wallet58 100000000 0,
      transfer_tx 4000 wallet58 peer58 30000000 1000000,
      transfer_tx 2000 peer58 wallet58 50000000 0]"

definition token_event :: trc20_transfer where
  "token_event = \<lparr>block_ts = 1000, from_address = peer58, to_address = wallet58, quant = 100\<rparr>"

section \<open>The route handler\<close>

text \<open>
  The node behind the provider of one query: its chain, the balances and the
  token contracts it answers for (a rejected call is a left injection).
\<close>

record node =
  blocks :: "int list"
  getBalance :: "string \<Rightarrow> int \<Rightarrow> error + int"
  balanceOf :: "string \<Rightarrow> string \<Rightarrow> int \<Rightarrow> error + int"
  decimals :: "string \<Rightarrow> error + nat"
  symbol :: "string \<Rightarrow> error + string"

text \<open>
  The request body as it is sent. \<open>body_date\<close> is the Unix time the date
  parses to, \<open>None\<close> when the date is missing; a missing address is the empty
  string, and an empty address or token address is falsy.
\<close>

record body =
  body_address :: string
  body_chain :: "string option"
  body_network :: "string option"
  body_date :: "int option"
  body_tokenAddress :: "string option"

text \<open>
  A display amount \<open>Scaled raw d\<close> stands for the decimal rendering of
  \<open>raw / 10^d\<close>: \<^verbatim>\<open>formatUnits(raw, d)\<close>, \<^verbatim>\<open>formatEther(raw)\<close> with
  \<open>d = 18\<close>, and the quotient by \<^verbatim>\<open>Math.pow(10, d)\<close> on the Tron path.
\<close>

datatype display = Scaled int nat

record balance_json =
  json_chain :: string
  json_network :: string
  json_address :: string
  json_timestamp :: int
  json_blockNumber :: int
  json_balance :: display
  json_symbol :: string
  json_rawBalance :: int
  json_replayed :: bool

datatype response = Json200 balance_json | Json400 | Json500 error

text \<open>
  \<^verbatim>\<open>String.prototype.trim\<close> on strings of 8-bit characters: the white space
  and line terminators among them are tab, line feed, vertical tab, form feed,
  carriage return, space and no-break space.
\<close>

definition is_space :: "char \<Rightarrow> bool" where
  "is_space ch \<longleftrightarrow>
     ch \<in> set [CHR 0x09, CHR 0x0A, CHR 0x0B, CHR 0x0C, CHR 0x0D, CHR 0x20, CHR 0xA0]"

definition js_trim :: "string \<Rightarrow> string" where
  "js_trim str = rev (dropWhile is_space (rev (dropWhile is_space str)))"

definition truthy :: "string option \<Rightarrow> string option" where
  "truthy x = (case x of None \<Rightarrow> None | Some v \<Rightarrow> if v = [] then None else Some v)"

definition native_symbol :: "string \<Rightarrow> string" where
  "native_symbol chain =
     (if chain = ''bsc'' then ''BNB'' else if chain = ''polygon'' then ''MATIC'' else ''ETH'')"

text \<open>The \<^verbatim>\<open>try\<close> block of the Tron branch.\<close>

definition tron_balance ::
  "string option \<Rightarrow> upstream \<Rightarrow> node \<Rightarrow> string \<Rightarrow> string \<Rightarrow> string option \<Rightarrow> int \<Rightarrow> io
   \<Rightarrow> (error + int \<times> display \<times> string \<times> int) \<times> io" where
  "tron_balance alchemyKey up nd address network tokenAddress ts s =
     (case getBlockNumberByTimestamp alchemyKey up (blocks nd) ''tron'' network ts s of
        (Inl e, s1) \<Rightarrow> (Inl e, s1)
      | (Inr historicalBlockNumber, s1) \<Rightarrow>
         (case truthy tokenAddress of
            Some tok \<Rightarrow>
              (case getTronTokenInfo up tok network s1 of
                 (tokenInfo, s2) \<Rightarrow>
                   let symb = (case tokenInfo of None \<Rightarrow> ''UNKNOWN'' | Some t \<Rightarrow> token_symbol t);
                       dec = (case tokenInfo of
                                None \<Rightarrow> 18
                              | Some t \<Rightarrow> (case token_decimals t of
                                            None \<Rightarrow> 18
                                          | Some d \<Rightarrow> if d = 0 then 18 else d))
                   in case getTronTokenHistoricalBalance up address tok network (ts * 1000) s2 of
                        (Inl e, s3) \<Rightarrow> (Inl e, s3)
                      | (Inr rawBalance, s3) \<Rightarrow>
                          (Inr (historicalBlockNumber, Scaled rawBalance dec, symb, rawBalance), s3))
          | None \<Rightarrow>
              (case getTronHistoricalBalance up address network (ts * 1000) s1 of
                 (Inl e, s2) \<Rightarrow> (Inl e, s2)
               | (Inr rawBalance, s2) \<Rightarrow>
                   (Inr (historicalBlockNumber, Scaled rawBalance 6, ''TRX'', rawBalance), s2))))"

text \<open>The direct-query branch: ERC-20 balance with metadata, or native balance.\<close>

definition evm_balance ::
  "node \<Rightarrow> string \<Rightarrow> string \<Rightarrow> string option \<Rightarrow> int \<Rightarrow> error + display \<times> string \<times> int" where
  "evm_balance nd chain address tokenAddress blockNumber =
     (case truthy tokenAddress of
        Some tok \<Rightarrow>
          (case balanceOf nd tok address blockNumber of
             Inl e \<Rightarrow> Inl e
           | Inr balanceWei \<Rightarrow>
               (case decimals nd tok of
                  Inl e \<Rightarrow> Inr (Scaled balanceWei 18, native_symbol chain, balanceWei)
                | Inr dec \<Rightarrow>
                    (case symbol nd tok of
                       Inl e \<Rightarrow> Inr (Scaled balanceWei 18, native_symbol chain, balanceWei)
                     | Inr symb \<Rightarrow> Inr (Scaled balanceWei dec, symb, balanceWei))))
      | None \<Rightarrow>
          (case getBalance nd address blockNumber of
             Inl e \<Rightarrow> Inl e
           | Inr balanceWei \<Rightarrow> Inr (Scaled balanceWei 18, native_symbol chain, balanceWei)))"

definition POST :: "string option \<Rightarrow> upstream \<Rightarrow> node \<Rightarrow> body \<Rightarrow> io \<Rightarrow> response \<times> io" where
  "POST alchemyKey up nd b s =
     (let chain = (case body_chain b of None \<Rightarrow> ''ethereum'' | Some c \<Rightarrow> c);
          network = (case body_network b of None \<Rightarrow> ''mainnet'' | Some n \<Rightarrow> n)
      in case body_date b of
           None \<Rightarrow> (Json400, s)
         | Some ts \<Rightarrow>
            if body_address b = [] then (Json400, s)
            else
              let address = js_trim (body_address b);
                  tokenAddress = (case truthy (body_tokenAddress b) of
                                    None \<Rightarrow> body_tokenAddress b
                                  | Some tok \<Rightarrow> Some (js_trim tok))
              in
              (case getBlockNumberByTimestamp alchemyKey up (blocks nd) chain network ts s of
                 (Inl e, s1) \<Rightarrow> (Json500 e, s1)
               | (Inr blockNumber, s1) \<Rightarrow>
                  (case getRpcUrl alchemyKey chain network of
                     Inl e \<Rightarrow> (Json500 e, s1)
                   | Inr rpcUrl \<Rightarrow>
                      if chain = ''tron'' then
                        (case tron_balance alchemyKey up nd address network tokenAddress ts s1 of
                           (Inl e, s2) \<Rightarrow> (Json500 (TronBalanceFailed e), s2)
                         | (Inr (historicalBlockNumber, balanceFormatted, symb, rawBalance), s2) \<Rightarrow>
                             (Json200 \<lparr>json_chain = chain, json_network = network,
                                json_address = address, json_timestamp = ts,
                                json_blockNumber = historicalBlockNumber,
                                json_balance = balanceFormatted, json_symbol = symb,
                                json_rawBalance = rawBalance, json_replayed = True\<rparr>, s2))
                      else
                        (case evm_balance nd chain address tokenAddress blockNumber of
                           Inl e \<Rightarrow> (Json500 e, s1)
                         | Inr (balanceFormatted, symb, balanceWei) \<Rightarrow>
                             (Json200 \<lparr>json_chain = chain, json_network = network,
                                json_address = address, json_timestamp = ts,
                                json_blockNumber = blockNumber,
                                json_balance = balanceFormatted, json_symbol = symb,
                                json_rawBalance = balanceWei, json_replayed = False\<rparr>, s1)))))"

text \<open>
  Sample worlds for the handler: a TronScan with blocks, transactions and
  transfers whose token lookup is rejected, and one whose token lookup answers
  with the tokens \<open>toks\<close>; a node whose token contract answers
  \<^verbatim>\<open>balanceOf\<close> and \<^verbatim>\<open>symbol\<close> and rejects \<^verbatim>\<open>decimals\<close>.
\<close>

definition token_world ::
  "block list \<Rightarrow> trc20_transfer list \<Rightarrow> trc20_token list \<Rightarrow> upstream" where
  "token_world bs trs toks =
     (serving [] trs)\<lparr>tron_blocks := tron_blocks (tronscan bs),
                        trc20_token := (\<lambda>baseUrl tokenAddress i. Resolved (Some toks))\<rparr>"

definition bare_token :: trc20_token where
  "bare_token = \<lparr>token_symbol = ''USDT'', token_decimals = None\<rparr>"

definition tron_world :: "block list \<Rightarrow> tron_tx list \<Rightarrow> trc20_transfer list \<Rightarrow> upstream" where
  "tron_world bs txs trs = (serving txs trs)\<lparr>tron_blocks := tron_blocks (tronscan bs)\<rparr>"

definition proxy_node :: node where
  "proxy_node =
     \<lparr>blocks = chain4,
      getBalance = (\<lambda>address blockTag. Inr 1500000000000000000),
      balanceOf = (\<lambda>tok address blockTag. Inr 2500000),
      decimals = (\<lambda>tok. Inl CallException),
      symbol = (\<lambda>tok. Inr ''PRX'')\<rparr>"

definition token_query :: "string \<Rightarrow> string \<Rightarrow> string \<Rightarrow> body" where
  "token_query chain network address =
     \<lparr>body_address = address, body_chain = Some chain, body_network = Some network,
      body_date = Some 25, body_tokenAddress = Some ''token''\<rparr>"

section \<open>Throttled upstreams\<close>

text \<open>
  \<open>throttled_at ep s k r\<close>: from the state \<open>s\<close> on, the endpoint answers 429
  to the next \<open>k\<close> calls, \<open>k\<close> within the retry budget, and \<open>r\<close> to the call
  after them, where \<open>r\<close> is a further 429 only when the budget is used up.
  Every endpoint is throttled in this sense, from every state, for exactly one
  \<open>k\<close> and \<open>r\<close>. \<open>after_retries s k\<close> is the state after \<open>k + 1\<close> calls and
  the first \<open>k\<close> backoff delays. \<open>first_of\<close> reads the first entry of a reply's
  list, as \<^verbatim>\<open>data.data[0]\<close> and \<^verbatim>\<open>data.trc20_tokens[0]\<close> do behind their
  emptiness tests. The mocks throttle the block index of BSC and every TronScan
  endpoint.
\<close>

definition throttled_at :: "'a endpoint \<Rightarrow> io \<Rightarrow> nat \<Rightarrow> 'a reply \<Rightarrow> bool" where
  "throttled_at ep s k r \<longleftrightarrow>
     k \<le> 5 \<and> (\<forall>i<k. ep (calls s + i) = Rejected (Some 429)) \<and> ep (calls s + k) = r
     \<and> (r = Rejected (Some 429) \<longrightarrow> k = 5)"

definition after_retries :: "io \<Rightarrow> nat \<Rightarrow> io" where
  "after_retries s k =
     s\<lparr>calls := calls s + k + 1, sleeps := sleeps s @ take k [3000, 6000, 12000, 24000, 48000]\<rparr>"

definition first_of :: "'a list option \<Rightarrow> 'a option" where
  "first_of d = (case d of Some (x # xs) \<Rightarrow> Some x | _ \<Rightarrow> None)"

definition llama_mock :: "int endpoint \<Rightarrow> upstream" where
  "llama_mock ep = offline\<lparr>llama_block := (\<lambda>ts. ep)\<rparr>"

definition throttled_tronscan :: "nat \<Rightarrow> block list \<Rightarrow> trc20_token list \<Rightarrow> upstream" where
  "throttled_tronscan k bs toks =
     offline\<lparr>tron_blocks := (\<lambda>baseUrl start end_ts. throttled_then k (Resolved (Some bs))),
             tron_transactions := (\<lambda>baseUrl address limit start. throttled_then k (Resolved None)),
             trc20_token := (\<lambda>baseUrl tokenAddress. throttled_then k (Resolved (Some toks))),
             trc20_transfers := (\<lambda>baseUrl limit start address tokenAddress.
                                   throttled_then k (Resolved None))\<rparr>"

text \<open>
  A TronScan block index whose window query answers without data and whose
  fallback query (no \<^verbatim>\<open>start_timestamp\<close>) is throttled; a TronScan whose first
  page of transactions and of transfers is throttled and holds one event, the
  pages after it none.
\<close>

definition fallback_tronscan :: "nat \<Rightarrow> block list \<Rightarrow> upstream" where
  "fallback_tronscan k bs =
     offline\<lparr>tron_blocks := (\<lambda>baseUrl start end_ts.
                case start of Some st \<Rightarrow> (\<lambda>i. Resolved None)
                            | None \<Rightarrow> throttled_then k (Resolved (Some bs)))\<rparr>"

definition throttled_pages :: "nat \<Rightarrow> tron_tx \<Rightarrow> trc20_transfer \<Rightarrow> upstream" where
  "throttled_pages k tx tr =
     offline\<lparr>tron_transactions := (\<lambda>baseUrl address limit start.
                if start = 0 then throttled_then k (Resolved (Some [tx])) else (\<lambda>i. Resolved None)),
             trc20_transfers := (\<lambda>baseUrl limit start address tokenAddress.
                if start = 0 then throttled_then k (Resolved (Some [tr])) else (\<lambda>i. Resolved None))\<rparr>"

definition sample_token :: trc20_token where
  "sample_token = \<lparr>token_symbol = ''USDT'', token_decimals = Some 6\<rparr>"

section \<open>The fetch client: retry policy\<close>

lemma fetchWithRetry_resolved:
  "ep (calls s) = Resolved p \<Longrightarrow>
   fetchWithRetry ep n b s = (Inr p, s\<lparr>calls := Suc (calls s)\<rparr>)"
  by (simp add: fetchWithRetry.simps axios_get_def)

lemma fetchWithRetry_rejected_other:
  "ep (calls s) = Rejected st \<Longrightarrow> st \<noteq> Some 429 \<Longrightarrow>
   fetchWithRetry ep n b s = (Inl (AxiosError st), s\<lparr>calls := Suc (calls s)\<rparr>)"
  by (simp add: fetchWithRetry.simps axios_get_def response_status_def)

lemma fetchWithRetry_exhausted:
  "ep (calls s) = Rejected st \<Longrightarrow>
   fetchWithRetry ep 0 b s = (Inl (AxiosError st), s\<lparr>calls := Suc (calls s)\<rparr>)"
  by (simp add: fetchWithRetry.simps axios_get_def response_status_def)

lemma fetchWithRetry_throttled_step:
  "ep (calls s) = Rejected (Some 429) \<Longrightarrow>
   fetchWithRetry ep (Suc n) b s =
     fetchWithRetry ep n (b * 2) (s\<lparr>calls := Suc (calls s), sleeps := sleeps s @ [b]\<rparr>)"
  by (subst fetchWithRetry.simps) (simp add: axios_get_def response_status_def sleep_def)

lemma backoffs_Suc: "backoffs b (Suc k) = b # backoffs (b * 2) k"
  unfolding backoffs_def
  by (simp add: upt_conv_Cons map_Suc_upt [symmetric] del: upt_Suc)

lemma backoffs_3000: "backoffs 3000 5 = [3000, 6000, 12000, 24000, 48000]"
  by (simp add: backoffs_def upt_conv_Cons del: upt_Suc)

text \<open>
  After \<open>k\<close> answers 429, with \<open>k\<close> within the retry budget, the next answer
  decides the call: \<open>k + 1\<close> transport calls, and the first \<open>k\<close> backoffs slept.
\<close>

lemma fetchWithRetry_after_throttling:
  assumes "\<forall>i<k. ep (calls s + i) = Rejected (Some 429)"
    and "ep (calls s + k) = r" and "r \<noteq> Rejected (Some 429)" and "k \<le> n"
  shows "fetchWithRetry ep n b s =
           (case r of Resolved v \<Rightarrow> Inr v | Rejected st \<Rightarrow> Inl (AxiosError st),
            s\<lparr>calls := calls s + k + 1, sleeps := sleeps s @ backoffs b k\<rparr>)"
  using assms
proof (induction k arbitrary: n b s)
  case 0
  then show ?case
    by (cases r) (auto simp: fetchWithRetry_resolved fetchWithRetry_rejected_other backoffs_def)
next
  case (Suc k)
  then obtain m where n: "n = Suc m" and km: "k \<le> m" by (cases n) auto
  let ?s = "s\<lparr>calls := Suc (calls s), sleeps := sleeps s @ [b]\<rparr>"
  from Suc.prems(1) have first: "ep (calls s) = Rejected (Some 429)" by force
  have rest: "\<forall>i<k. ep (calls ?s + i) = Rejected (Some 429)"
    using Suc.prems(1) by (auto dest: spec [where x = "Suc i" for i])
  have nxt: "ep (calls ?s + k) = r" using Suc.prems(2) by simp
  show ?case
    unfolding n
    by (simp add: fetchWithRetry_throttled_step [of ep s, OF first]
        Suc.IH [of ?s, OF rest nxt Suc.prems(3) km] backoffs_Suc)
qed

lemma fetchWithRetry_always_throttled:
  assumes "\<forall>i\<le>n. ep (calls s + i) = Rejected (Some 429)"
  shows "fetchWithRetry ep n b s =
           (Inl (AxiosError (Some 429)),
            s\<lparr>calls := calls s + n + 1, sleeps := sleeps s @ backoffs b n\<rparr>)"
  using assms
proof (induction n arbitrary: b s)
  case 0
  then show ?case by (simp add: fetchWithRetry_exhausted backoffs_def)
next
  case (Suc n)
  let ?s = "s\<lparr>calls := Suc (calls s), sleeps := sleeps s @ [b]\<rparr>"
  from Suc.prems have first: "ep (calls s) = Rejected (Some 429)" by force
  have rest: "\<forall>i\<le>n. ep (calls ?s + i) = Rejected (Some 429)"
    using Suc.prems by (auto dest: spec [where x = "Suc i" for i])
  show ?case
    by (simp add: fetchWithRetry_throttled_step [of ep s, OF first]
        Suc.IH [of ?s, OF rest] backoffs_Suc)
qed

text \<open>The client never makes more than \<open>retries + 1\<close> transport calls.\<close>

lemma fetchWithRetry_calls:
  "fetchWithRetry ep n b s = (r, s') \<Longrightarrow> calls s < calls s' \<and> calls s' \<le> calls s + n + 1"
proof (induction n arbitrary: b s)
  case 0
  then show ?case
    by (auto simp: fetchWithRetry.simps axios_get_def split: reply.splits)
next
  case (Suc n)
  show ?case
  proof (cases "ep (calls s) = Rejected (Some 429)")
    case True
    from Suc.prems have "fetchWithRetry ep n (b * 2)
        (s\<lparr>calls := Suc (calls s), sleeps := sleeps s @ [b]\<rparr>) = (r, s')"
      by (simp add: fetchWithRetry_throttled_step [of ep s, OF True])
    from Suc.IH [OF this] show ?thesis by simp
  next
    case False
    with Suc.prems show ?thesis
      by (cases "ep (calls s)")
         (auto simp: fetchWithRetry_resolved fetchWithRetry_rejected_other)
  qed
qed

text \<open>
  C2, as the code has it. \<^verbatim>\<open>retries = 5\<close> counts retries, not attempts: a call
  that is answered 429 \<open>k \<le> 5\<close> times and then succeeds makes \<open>k + 1\<close> transport
  calls and returns the success, having slept the first \<open>k\<close> of the delays 3000,
  6000, 12000, 24000, 48000 ms; a call answered 429 every time fails with that
  429 after 6 transport calls (one attempt and five retries) and all five
  delays; an answer that is an error other than 429 is returned at once, with
  no further call and no further delay.
\<close>

theorem fetch_retry_policy:
  "(k \<le> 5 \<longrightarrow>
      fetch (throttled_then k (Resolved v :: 'a reply)) io0 =
        (Inr v, \<lparr>calls = k + 1, sleeps = take k [3000, 6000, 12000, 24000, 48000]\<rparr>))
   \<and> fetch (throttled :: 'a endpoint) io0 =
        (Inl (AxiosError (Some 429)),
         \<lparr>calls = 6, sleeps = [3000, 6000, 12000, 24000, 48000]\<rparr>)
   \<and> (k \<le> 5 \<and> st \<noteq> Some 429 \<longrightarrow>
      fetch (throttled_then k (Rejected st :: 'a reply)) io0 =
        (Inl (AxiosError st), \<lparr>calls = k + 1, sleeps = take k [3000, 6000, 12000, 24000, 48000]\<rparr>))"
proof -
  have tk: "take k [3000, 6000, 12000, 24000, 48000] = backoffs 3000 k" if "k \<le> 5"
  proof -
    have "backoffs 3000 k = take k (backoffs 3000 5)"
      using that unfolding backoffs_def by (simp add: take_map min_def del: upt_Suc)
    then show ?thesis by (simp add: backoffs_3000)
  qed
  have a: "fetch (throttled_then k r) io0 =
      (case r of Resolved v \<Rightarrow> Inr v | Rejected st \<Rightarrow> Inl (AxiosError st),
       \<lparr>calls = k + 1, sleeps = take k [3000, 6000, 12000, 24000, 48000]\<rparr>)"
    if "k \<le> 5" and "r \<noteq> Rejected (Some 429)" for r :: "'a reply"
    unfolding fetch_def
    using fetchWithRetry_after_throttling [of k "throttled_then k r" io0 r 5 3000] that
    by (simp add: throttled_then_def io0_def tk)
  have b: "fetch (throttled :: 'a endpoint) io0 =
      (Inl (AxiosError (Some 429)), \<lparr>calls = 6, sleeps = [3000, 6000, 12000, 24000, 48000]\<rparr>)"
    unfolding fetch_def
    using fetchWithRetry_always_throttled [of 5 "throttled :: 'a endpoint" io0 3000]
    by (simp add: throttled_def io0_def backoffs_3000)
  show ?thesis using a [of "Resolved v"] a [of "Rejected st"] b by simp
qed

theorem fetch_retry_policy_witness:
  "(2::nat) \<le> 5 \<and> Some 500 \<noteq> Some (429::nat)
   \<and> fetch (throttled_then 2 (Resolved (7::int))) io0 =
       (Inr 7, \<lparr>calls = 3, sleeps = [3000, 6000]\<rparr>)
   \<and> fetch (throttled_then 2 (Rejected (Some 500) :: int reply)) io0 =
       (Inl (AxiosError (Some 500)), \<lparr>calls = 3, sleeps = [3000, 6000]\<rparr>)"
  using fetch_retry_policy [of 2 "7::int" "Some 500"] by simp

text \<open>
  The claim as written gives a throttled call five attempts and four delays; the
  code makes a sixth attempt after a fifth delay of 48000 ms.
\<close>

theorem fetch_five_attempts_counterexample:
  "calls (snd (fetch (throttled :: int endpoint) io0)) \<noteq> 5
   \<and> sleeps (snd (fetch (throttled :: int endpoint) io0)) \<noteq> [3000, 6000, 12000, 24000]"
proof -
  have "fetch (throttled :: int endpoint) io0 =
      (Inl (AxiosError (Some 429)), \<lparr>calls = 6, sleeps = [3000, 6000, 12000, 24000, 48000]\<rparr>)"
    unfolding fetch_def
    using fetchWithRetry_always_throttled [of 5 "throttled :: int endpoint" io0 3000]
    by (simp add: throttled_def io0_def backoffs_3000)
  then show ?thesis by simp
qed

section \<open>Chain profile: the supported matrix\<close>

text \<open>
  C8, as the code has it. The chain id and the RPC URL depend on the chain, the
  network and (the RPC URL of an EVM chain) the configured Alchemy key. With a
  key configured, both fail exactly when the chain is none of ethereum, polygon,
  bsc and tron, whatever the network, with an unsupported-chain error; without a
  key the RPC URL of every chain but tron fails with a configuration error. Both
  succeed on every pair of the supported matrix. The network is never validated.
  The chain id of a supported chain, and the RPC URL of ethereum, polygon and
  bsc, take every network other than mainnet for the test network. The RPC URL
  and the explorer URL of tron take every network other than shasta for mainnet.
  The explorer URL of bsc takes every network other than testnet for mainnet,
  and the explorer URL of any other chain is the Etherscan V2 endpoint; the
  explorer URL never fails.
\<close>

theorem chain_profile_resolution:
  "(isl (getChainId chain network) \<longleftrightarrow> chain \<notin> set supported_chains)
   \<and> (chain \<notin> set supported_chains \<longrightarrow>
        getChainId chain network = Inl (UnsupportedChainNetwork chain network))
   \<and> (k \<noteq> [] \<longrightarrow>
        (isl (getRpcUrl (Some k) chain network) \<longleftrightarrow> chain \<notin> set supported_chains)
        \<and> (chain \<notin> set supported_chains \<longrightarrow>
             getRpcUrl (Some k) chain network = Inl (UnsupportedChain chain)))
   \<and> (chain \<noteq> ''tron'' \<longrightarrow> getRpcUrl None chain network = Inl AlchemyKeyMissing
         \<and> getRpcUrl (Some []) chain network = Inl AlchemyKeyMissing)
   \<and> ((chain, network) \<in> set supported_matrix \<longrightarrow>
         \<not> isl (getChainId chain network) \<and> (k \<noteq> [] \<longrightarrow> \<not> isl (getRpcUrl (Some k) chain network)))
   \<and> (chain \<in> set supported_chains \<and> network \<noteq> ''mainnet'' \<longrightarrow>
         getChainId chain network = getChainId chain ''testnet'')
   \<and> (chain \<in> set [''ethereum'', ''polygon'', ''bsc''] \<and> network \<noteq> ''mainnet'' \<longrightarrow>
         getRpcUrl key chain network = getRpcUrl key chain ''testnet'')
   \<and> (network \<noteq> ''shasta'' \<longrightarrow>
         getRpcUrl key ''tron'' network = Inr ''https://api.trongrid.io''
         \<and> getExplorerApiUrl ''tron'' network = ''https://apilist.tronscanapi.com/api'')
   \<and> getRpcUrl key ''tron'' ''shasta'' = Inr ''https://api.shasta.trongrid.io''
   \<and> getExplorerApiUrl ''tron'' ''shasta'' = ''https://shastapi.tronscan.org/api''
   \<and> (network \<noteq> ''testnet'' \<longrightarrow>
         getExplorerApiUrl ''bsc'' network = ''https://api.bscscan.com/api'')
   \<and> getExplorerApiUrl ''bsc'' ''testnet'' = ''https://api-testnet.bscscan.com/api''
   \<and> (chain \<noteq> ''tron'' \<and> chain \<noteq> ''bsc'' \<longrightarrow>
         getExplorerApiUrl chain network = ''https://api.etherscan.io/v2/api'')"
  by (simp add: getChainId_def getRpcUrl_def getExplorerApiUrl_def supported_chains_def
      supported_matrix_def split: option.split)

theorem chain_profile_resolution_witness:
  "''k'' \<noteq> [] \<and> ''dogecoin'' \<notin> set supported_chains \<and> (''bsc'', ''testnet'') \<in> set supported_matrix
   \<and> ''bsc'' \<noteq> ''tron'' \<and> ''sepolia'' \<noteq> ''mainnet'' \<and> ''ethereum'' \<in> set supported_chains
   \<and> ''nile'' \<noteq> ''shasta'' \<and> ''nile'' \<noteq> ''testnet''
   \<and> getChainId ''dogecoin'' ''mainnet'' = Inl (UnsupportedChainNetwork ''dogecoin'' ''mainnet'')
   \<and> getRpcUrl (Some ''k'') ''dogecoin'' ''mainnet'' = Inl (UnsupportedChain ''dogecoin'')
   \<and> \<not> isl (getChainId ''bsc'' ''testnet'') \<and> \<not> isl (getRpcUrl (Some ''k'') ''bsc'' ''testnet'')
   \<and> getRpcUrl None ''bsc'' ''testnet'' = Inl AlchemyKeyMissing
   \<and> getChainId ''ethereum'' ''sepolia'' = getChainId ''ethereum'' ''testnet''
   \<and> getRpcUrl (Some ''k'') ''ethereum'' ''sepolia'' = getRpcUrl (Some ''k'') ''ethereum'' ''testnet''
   \<and> getRpcUrl (Some ''k'') ''tron'' ''nile'' = Inr ''https://api.trongrid.io''
   \<and> getExplorerApiUrl ''tron'' ''nile'' = ''https://apilist.tronscanapi.com/api''
   \<and> getExplorerApiUrl ''bsc'' ''nile'' = ''https://api.bscscan.com/api''
   \<and> getExplorerApiUrl ''dogecoin'' ''mainnet'' = ''https://api.etherscan.io/v2/api''"
  using chain_profile_resolution [of "''dogecoin''" "''mainnet''" "''k''" "Some ''k''"]
    chain_profile_resolution [of "''bsc''" "''testnet''" "''k''" "Some ''k''"]
    chain_profile_resolution [of "''ethereum''" "''sepolia''" "''k''" "Some ''k''"]
    chain_profile_resolution [of "''ethereum''" "''nile''" "''k''" "Some ''k''"]
  by (simp add: supported_chains_def supported_matrix_def)

text \<open>
  The claim as written wants every pair outside the matrix to fail; ethereum on
  the network named shasta is outside the matrix and resolves to Sepolia.
\<close>

theorem unsupported_pair_resolves_counterexample:
  "(''ethereum'', ''shasta'') \<notin> set supported_matrix
   \<and> getChainId ''ethereum'' ''shasta'' = Inr (NumericId 11155111)
   \<and> getRpcUrl (Some ''k'') ''ethereum'' ''shasta'' = Inr ''https://eth-sepolia.g.alchemy.com/v2/k''
   \<and> getExplorerApiUrl ''ethereum'' ''shasta'' = ''https://api.etherscan.io/v2/api''"
  by (simp add: supported_matrix_def getChainId_def getRpcUrl_def getExplorerApiUrl_def)

section \<open>BSC: the binary search\<close>

lemma getBlock_in_range:
  "0 \<le> n \<Longrightarrow> n < int (length c) \<Longrightarrow> getBlock c n = Some \<lparr>number = n, timestamp = c ! nat n\<rparr>"
  by (simp add: getBlock_def)

lemma sorted_nth_int:
  "sorted c \<Longrightarrow> 0 \<le> m \<Longrightarrow> m \<le> n \<Longrightarrow> n < int (length c) \<Longrightarrow> c ! nat m \<le> c ! nat n"
  by (rule sorted_nth_mono) auto

lemma bsc_search_least:
  assumes "sorted c" and "0 \<le> mn" and "mx < int (length c)"
  shows "\<exists>r. bsc_search c ts mn mx closestBlock = Inr r \<and>
           ((r = closestBlock \<and> (\<forall>m. mn \<le> m \<and> m \<le> mx \<longrightarrow> c ! nat m < ts))
            \<or> (mn \<le> r \<and> r \<le> mx \<and> ts \<le> c ! nat r \<and> (\<forall>m. mn \<le> m \<and> m < r \<longrightarrow> c ! nat m < ts)))"
  using assms
proof (induction c ts mn mx closestBlock rule: bsc_search.induct)
  case (1 c ts mn mx closestBlock)
  let ?mid = "(mn + mx) div 2"
  show ?case
  proof (cases "mn \<le> mx")
    case False
    then show ?thesis by (subst bsc_search.simps) auto
  next
    case True
    then have mid: "mn \<le> ?mid" "?mid \<le> mx" "0 \<le> ?mid" "?mid < int (length c)"
      using "1.prems" by auto
    have gb: "getBlock c ?mid = Some \<lparr>number = ?mid, timestamp = c ! nat ?mid\<rparr>"
      using mid by (simp add: getBlock_in_range)
    show ?thesis
    proof (cases "ts \<le> c ! nat ?mid")
      case hit: True
      have step: "bsc_search c ts mn mx closestBlock = bsc_search c ts mn (?mid - 1) ?mid"
        by (subst bsc_search.simps) (simp add: True gb hit)
      from "1.IH"(1) [OF True gb _ "1.prems"(1,2)] hit mid
      obtain r where r: "bsc_search c ts mn (?mid - 1) ?mid = Inr r"
        and d: "(r = ?mid \<and> (\<forall>m. mn \<le> m \<and> m \<le> ?mid - 1 \<longrightarrow> c ! nat m < ts))
            \<or> (mn \<le> r \<and> r \<le> ?mid - 1 \<and> ts \<le> c ! nat r \<and> (\<forall>m. mn \<le> m \<and> m < r \<longrightarrow> c ! nat m < ts))"
        by auto
      from d hit mid have "mn \<le> r \<and> r \<le> mx \<and> ts \<le> c ! nat r \<and> (\<forall>m. mn \<le> m \<and> m < r \<longrightarrow> c ! nat m < ts)"
        by auto
      with r step show ?thesis by simp
    next
      case miss: False
      have step: "bsc_search c ts mn mx closestBlock = bsc_search c ts (?mid + 1) mx closestBlock"
        by (subst bsc_search.simps) (simp add: True gb miss)
      have below: "c ! nat m < ts" if "0 \<le> m" "m \<le> ?mid" for m
        using sorted_nth_int [OF "1.prems"(1) that mid(4)] miss by simp
      from "1.IH"(2) [OF True gb _ "1.prems"(1)] miss mid "1.prems"
      obtain r where r: "bsc_search c ts (?mid + 1) mx closestBlock = Inr r"
        and d: "(r = closestBlock \<and> (\<forall>m. ?mid + 1 \<le> m \<and> m \<le> mx \<longrightarrow> c ! nat m < ts))
            \<or> (?mid + 1 \<le> r \<and> r \<le> mx \<and> ts \<le> c ! nat r \<and> (\<forall>m. ?mid + 1 \<le> m \<and> m < r \<longrightarrow> c ! nat m < ts))"
        by auto
      have all: "c ! nat m < ts" if "mn \<le> m" "\<not> ?mid + 1 \<le> m" for m
        using below [of m] that "1.prems"(2) by simp
      from d have "(r = closestBlock \<and> (\<forall>m. mn \<le> m \<and> m \<le> mx \<longrightarrow> c ! nat m < ts))
            \<or> (mn \<le> r \<and> r \<le> mx \<and> ts \<le> c ! nat r \<and> (\<forall>m. mn \<le> m \<and> m < r \<longrightarrow> c ! nat m < ts))"
      proof (elim disjE conjE)
        assume a: "r = closestBlock" "\<forall>m. ?mid + 1 \<le> m \<and> m \<le> mx \<longrightarrow> c ! nat m < ts"
        have "c ! nat m < ts" if "mn \<le> m" "m \<le> mx" for m
          using a(2) all [of m] that by (cases "?mid + 1 \<le> m") blast+
        with a(1) show ?thesis by blast
      next
        assume b: "?mid + 1 \<le> r" "r \<le> mx" "ts \<le> c ! nat r"
          "\<forall>m. ?mid + 1 \<le> m \<and> m < r \<longrightarrow> c ! nat m < ts"
        have "c ! nat m < ts" if "mn \<le> m" "m < r" for m
          using b(4) all [of m] that by (cases "?mid + 1 \<le> m") blast+
        moreover have "mn \<le> r" using b(1) mid(1) by linarith
        ultimately show ?thesis using b(2,3) by blast
      qed
      with r step show ?thesis by simp
    qed
  qed
qed

lemma getLatestBlock_tip:
  "c \<noteq> [] \<Longrightarrow> getLatestBlock c = Some \<lparr>number = int (length c) - 1, timestamp = last c\<rparr>"
  by (simp add: getLatestBlock_def getBlockNumber_def getBlock_def last_conv_nth nat_diff_distrib')


lemma bsc_rpc_search_window:
  assumes srt: "sorted c" and ne: "c \<noteq> []"
    and key: "getRpcUrl alchemyKey ''bsc'' network = Inr u" and tip: "ts \<le> last c"
  shows "\<exists>r lo. bsc_rpc_search alchemyKey c network ts = Inr r
           \<and> 0 \<le> lo \<and> lo \<le> r \<and> r < int (length c) \<and> ts \<le> c ! nat r
           \<and> (\<forall>m. lo \<le> m \<and> m < r \<longrightarrow> c ! nat m < ts)
           \<and> (lo = 0 \<or> c ! nat lo \<le> ts)
           \<and> lo \<le> max 0 (int (length c) - 100001)"
proof -
  define N where "N = int (length c) - 1"
  define est where "est = max 0 (N - (last c - ts) div 3)"
  define mn where "mn = max 0 (est - 100000)"
  define mx where "mx = min N (est + 100000)"
  have N: "0 \<le> N" "N < int (length c)" using ne by (auto simp: N_def)
  have lastN: "c ! nat N = last c"
    using ne by (simp add: N_def last_conv_nth nat_diff_distrib')
  have "0 \<le> (last c - ts) div 3" using tip by simp
  then have est: "0 \<le> est" "est \<le> N" using N by (auto simp: est_def)
  have mn: "0 \<le> mn" "mn \<le> N" "mn \<le> mx" and mx: "0 \<le> mx" "mx \<le> N"
    using est N by (auto simp: mn_def mx_def)
  have mnb: "mn \<le> max 0 (int (length c) - 100001)"
    using est by (auto simp: mn_def N_def)
  have gmn: "getBlock c mn = Some \<lparr>number = mn, timestamp = c ! nat mn\<rparr>"
    and gmx: "getBlock c mx = Some \<lparr>number = mx, timestamp = c ! nat mx\<rparr>"
    using mn mx N by (auto simp: getBlock_in_range)
  have unfold: "bsc_rpc_search alchemyKey c network ts =
      (if c ! nat mn > ts \<or> c ! nat mx < ts then bsc_search c ts 0 N N else bsc_search c ts mn mx N)"
    using tip
    by (simp add: bsc_rpc_search_def key getLatestBlock_tip [OF ne] Let_def
        N_def [symmetric] est_def [symmetric] mn_def [symmetric] mx_def [symmetric] gmn gmx)
  show ?thesis
  proof (cases "c ! nat mn > ts \<or> c ! nat mx < ts")
    case True
    from bsc_search_least [OF srt order_refl N(2), of ts N]
    obtain r where r: "bsc_search c ts 0 N N = Inr r"
      and d: "(r = N \<and> (\<forall>m. 0 \<le> m \<and> m \<le> N \<longrightarrow> c ! nat m < ts))
            \<or> (0 \<le> r \<and> r \<le> N \<and> ts \<le> c ! nat r \<and> (\<forall>m. 0 \<le> m \<and> m < r \<longrightarrow> c ! nat m < ts))"
      by blast
    from d N(1) lastN tip
    have "0 \<le> r \<and> r \<le> N \<and> ts \<le> c ! nat r \<and> (\<forall>m. 0 \<le> m \<and> m < r \<longrightarrow> c ! nat m < ts)"
      by (metis linorder_not_less order_refl)
    with r unfold True N(2) show ?thesis by (intro exI [of _ r] exI [of _ 0]) auto
  next
    case False
    from mx N have "mx < int (length c)" by simp
    from bsc_search_least [OF srt mn(1) this, of ts N]
    obtain r where r: "bsc_search c ts mn mx N = Inr r"
      and d: "(r = N \<and> (\<forall>m. mn \<le> m \<and> m \<le> mx \<longrightarrow> c ! nat m < ts))
            \<or> (mn \<le> r \<and> r \<le> mx \<and> ts \<le> c ! nat r \<and> (\<forall>m. mn \<le> m \<and> m < r \<longrightarrow> c ! nat m < ts))"
      by blast
    from d False mn(3)
    have "mn \<le> r \<and> r \<le> mx \<and> ts \<le> c ! nat r \<and> (\<forall>m. mn \<le> m \<and> m < r \<longrightarrow> c ! nat m < ts)"
      by (metis linorder_not_less order_refl)
    with r unfold False mn mx mnb N(2) show ?thesis
      by (intro exI [of _ r] exI [of _ mn]) auto
  qed
qed

lemma linear_scan_first:
  assumes "r < length c" and "ts \<le> c ! r" and "\<forall>m<r. c ! m < ts"
  shows "linear_scan c ts = int r"
proof -
  let ?n = "length (takeWhile (\<lambda>t. t < ts) c)"
  have "r \<le> ?n"
    using assms(1,3) by (intro length_takeWhile_less_P_nth) auto
  moreover have "\<not> r < ?n"
  proof
    assume lt: "r < ?n"
    then have "takeWhile (\<lambda>t. t < ts) c ! r \<in> set (takeWhile (\<lambda>t. t < ts) c)" by simp
    then have "takeWhile (\<lambda>t. t < ts) c ! r < ts" by (meson set_takeWhileD)
    with lt assms(2) show False by (simp add: takeWhile_nth)
  qed
  ultimately show ?thesis by (simp add: linear_scan_def)
qed

lemma getBsc_uses_rpc_search:
  assumes "network = ''mainnet'' \<longrightarrow> (\<exists>st. llama_block up ts (calls s) = Rejected st)"
  shows "fst (getBscBlockNumberByTimestamp alchemyKey up c network ts s) =
           bsc_rpc_search alchemyKey c network ts"
  using assms by (auto simp: getBscBlockNumberByTimestamp_def axios_get_def)

text \<open>
  Where the search agrees with the linear scan: on every chain with strictly
  increasing timestamps, and on every chain with non-decreasing timestamps of at
  most 100001 blocks, where the window starts at block 0.
\<close>

lemma bsc_search_strictly_increasing:
  assumes "sorted_wrt (<) c" and "c \<noteq> []" and "ts \<le> last c"
    and "k \<noteq> []"
    and "network = ''mainnet'' \<longrightarrow> (\<exists>st. llama_block up ts (calls s) = Rejected st)"
  shows "fst (getBscBlockNumberByTimestamp (Some k) up c network ts s) = Inr (linear_scan c ts)
         \<and> 0 \<le> linear_scan c ts \<and> linear_scan c ts < int (length c)
         \<and> ts \<le> c ! nat (linear_scan c ts)
         \<and> (\<forall>m < nat (linear_scan c ts). c ! m < ts)"
proof -
  have srt: "sorted c" using assms(1) by (simp add: strict_sorted_imp_sorted)
  have key: "getRpcUrl (Some k) ''bsc'' network =
      Inr ((if network = ''mainnet'' then ''https://bnb-mainnet.g.alchemy.com/v2/''
            else ''https://bnb-testnet.g.alchemy.com/v2/'') @ k)"
    using assms(4) by (simp add: getRpcUrl_def)
  from bsc_rpc_search_window [OF srt assms(2) key assms(3)]
  obtain r lo where res: "bsc_rpc_search (Some k) c network ts = Inr r"
    and b: "0 \<le> lo" "lo \<le> r" "r < int (length c)" "ts \<le> c ! nat r"
    and w: "\<forall>m. lo \<le> m \<and> m < r \<longrightarrow> c ! nat m < ts"
    and e: "lo = 0 \<or> c ! nat lo \<le> ts"
    by blast
  have below: "c ! m < ts" if "m < nat r" for m
  proof (cases "lo \<le> int m")
    case True
    with w that show ?thesis by (metis nat_int zless_nat_conj of_nat_0_le_iff int_nat_eq less_le_not_le nat_less_iff)
  next
    case False
    then have lt: "m < nat lo" by simp
    with e have "c ! nat lo \<le> ts" by auto
    moreover have "c ! m < c ! nat lo"
      using sorted_wrt_nth_less [OF assms(1) lt] b by simp
    ultimately show ?thesis by simp
  qed
  have "linear_scan c ts = int (nat r)"
    using b below by (intro linear_scan_first) auto
  then have ls: "linear_scan c ts = r" using b by simp
  show ?thesis
    using res b below getBsc_uses_rpc_search [OF assms(5), of "Some k" c] by (simp add: ls)
qed

lemma bsc_search_short_chain:
  assumes "sorted c" and "c \<noteq> []" and "length c \<le> 100001" and "ts \<le> last c" and "k \<noteq> []"
  shows "bsc_rpc_search (Some k) c network ts = Inr (linear_scan c ts)"
proof -
  have key: "getRpcUrl (Some k) ''bsc'' network =
      Inr ((if network = ''mainnet'' then ''https://bnb-mainnet.g.alchemy.com/v2/''
            else ''https://bnb-testnet.g.alchemy.com/v2/'') @ k)"
    using assms(5) by (simp add: getRpcUrl_def)
  from bsc_rpc_search_window [OF assms(1,2) key assms(4)]
  obtain r lo where res: "bsc_rpc_search (Some k) c network ts = Inr r"
    and b: "0 \<le> lo" "lo \<le> r" "r < int (length c)" "ts \<le> c ! nat r"
    and w: "\<forall>m. lo \<le> m \<and> m < r \<longrightarrow> c ! nat m < ts"
    and l: "lo \<le> max 0 (int (length c) - 100001)"
    by blast
  from l b(1) assms(3) have lo: "lo = 0" by simp
  have below: "c ! m < ts" if "m < nat r" for m
  proof -
    have "0 \<le> int m \<and> int m < r" using that by simp
    with w lo have "c ! nat (int m) < ts" by blast
    then show ?thesis by simp
  qed
  have "linear_scan c ts = int (nat r)"
    using b below by (intro linear_scan_first) auto
  with res b lo show ?thesis by simp
qed

text \<open>
  The search over the full range, which the safety net starts when the window
  does not bracket the target, agrees with the linear scan on every chain with
  non-decreasing timestamps.
\<close>

lemma bsc_search_full_range:
  assumes "sorted c" and "c \<noteq> []" and "ts \<le> last c"
  shows "bsc_search c ts 0 (int (length c) - 1) (int (length c) - 1) = Inr (linear_scan c ts)"
proof -
  let ?tip = "int (length c) - 1"
  have "nat ?tip = length c - 1" by simp
  then have tip: "c ! nat ?tip = last c" "0 \<le> ?tip" "?tip < int (length c)"
    using assms(2) by (simp_all add: last_conv_nth)
  from bsc_search_least [OF assms(1) order_refl tip(3), of ts ?tip]
  obtain r where res: "bsc_search c ts 0 ?tip ?tip = Inr r"
    and alt: "(r = ?tip \<and> (\<forall>m. 0 \<le> m \<and> m \<le> ?tip \<longrightarrow> c ! nat m < ts))
              \<or> (0 \<le> r \<and> r \<le> ?tip \<and> ts \<le> c ! nat r \<and> (\<forall>m. 0 \<le> m \<and> m < r \<longrightarrow> c ! nat m < ts))"
    by auto
  have "\<not> (\<forall>m. 0 \<le> m \<and> m \<le> ?tip \<longrightarrow> c ! nat m < ts)"
    using tip assms(3) by (auto intro!: exI [of _ ?tip])
  with alt have b: "0 \<le> r" "r \<le> ?tip" "ts \<le> c ! nat r"
    and w: "\<forall>m. 0 \<le> m \<and> m < r \<longrightarrow> c ! nat m < ts"
    by auto
  have below: "c ! m < ts" if "m < nat r" for m
  proof -
    have "0 \<le> int m \<and> int m < r" using that by simp
    with w have "c ! nat (int m) < ts" by blast
    then show ?thesis by simp
  qed
  have "linear_scan c ts = int (nat r)"
    using b below by (intro linear_scan_first) auto
  with res b show ?thesis by simp
qed

lemma bsc_search_constant_chain:
  "bsc_search (replicate 100002 0) 0 1 100001 100001 = Inr 1"
  by (simp add: bsc_search.simps getBlock_def)

lemma bsc_search_constant_chain_full:
  "bsc_search (replicate 100002 0) 0 0 100001 100001 = Inr 0"
  by (simp add: bsc_search.simps getBlock_def)

text \<open>
  C1 at a failing input. The claim, for every chain with non-decreasing
  timestamps, is what the code sets out to do; its safety net misses one case.
  The window around the estimate is given up for the full range when
  \<^verbatim>\<open>minBlock.timestamp > timestamp\<close>, so it is kept when the block at its lower
  end carries exactly the target timestamp, although earlier blocks may carry it
  too. On a chain of 100002 blocks that all carry timestamp 0, the estimate for
  target 0 is the tip, the window is \<open>[1, 100001]\<close>, the search within it
  returns block 1, and the linear scan returns block 0, as does the search over
  the full range that the safety net would have started.
\<close>

theorem bsc_window_edge_misses_first_block:
  "sorted (replicate 100002 (0::int)) \<and> 0 \<le> last (replicate 100002 (0::int))
   \<and> fst (getBscBlockNumberByTimestamp (Some ''k'') offline (replicate 100002 0) ''testnet'' 0 io0) = Inr 1
   \<and> linear_scan (replicate 100002 0) 0 = 0
   \<and> bsc_search (replicate 100002 0) 0 0 100001 100001 = Inr 0"
  by (simp add: getBscBlockNumberByTimestamp_def bsc_rpc_search_def getRpcUrl_def
      getLatestBlock_def getBlockNumber_def getBlock_def linear_scan_def
      bsc_search_constant_chain bsc_search_constant_chain_full)

section \<open>The resolved block and the target timestamp\<close>

lemma fetch_resolved:
  "ep (calls s) = Resolved p \<Longrightarrow> fetch ep s = (Inr p, s\<lparr>calls := Suc (calls s)\<rparr>)"
  by (simp add: fetch_def fetchWithRetry_resolved)







lemma etherscan_is_v2: "js_includes ''https://api.etherscan.io/v2/api'' ''/v2/api''"
  by (simp add: js_includes_def upt_conv_Cons del: upt_Suc)




text \<open>
  The window query ends one hour after the target, the fallback query at the
  target. With a block in that hour the window query answers with it: target
  25 s resolves to the block stamped 28000 ms.
\<close>

lemma tron_window_reaches_past_target:
  "fst (getBlockNumberByTimestamp None (tronscan tron2) chain4 ''tron'' ''mainnet'' 25 io0) = Inr 2
   \<and> tron2 ! 1 = \<lparr>number = 2, timestamp = 28000\<rparr>"
  by (simp add: tron2_def getBlockNumberByTimestamp_def getTronBlockNumberByTimestamp_def
      fetch_resolved tronscan_def tronscan_blocks_def)




section \<open>Pagination: termination and bounds\<close>

lemma fetchWithRetry_from_endpoint:
  "fetchWithRetry ep n b s = (Inr p, s') \<Longrightarrow> \<exists>i. ep i = Resolved p"
proof (induction n arbitrary: b s)
  case 0
  then show ?case
    by (auto simp: fetchWithRetry.simps axios_get_def split: reply.splits)
next
  case (Suc n)
  show ?case
  proof (cases "ep (calls s) = Rejected (Some 429)")
    case True
    from Suc.prems have "fetchWithRetry ep n (b * 2)
        (s\<lparr>calls := Suc (calls s), sleeps := sleeps s @ [b]\<rparr>) = (Inr p, s')"
      by (simp add: fetchWithRetry_throttled_step [of ep s, OF True])
    from Suc.IH [OF this] show ?thesis .
  next
    case False
    with Suc.prems show ?thesis
      by (cases "ep (calls s)")
         (auto simp: fetchWithRetry_resolved fetchWithRetry_rejected_other)
  qed
qed

lemma fetch_calls: "fetch ep s = (r, s') \<Longrightarrow> calls s < calls s' \<and> calls s' \<le> calls s + 6"
  using fetchWithRetry_calls [of ep 5 3000 s r s'] by (simp add: fetch_def)

lemma fetch_from_endpoint: "fetch ep s = (Inr p, s') \<Longrightarrow> \<exists>i. ep i = Resolved p"
  unfolding fetch_def by (rule fetchWithRetry_from_endpoint)

lemma paginate_calls:
  assumes "length allEvents < cap"
    and "paginate cap wrap page_at allEvents start s = (r, s')"
  shows "calls s < calls s' \<and> calls s' \<le> calls s + 6 * (cap - length allEvents)"
  using assms
proof (induction cap wrap page_at allEvents start s rule: paginate.induct)
  case (1 cap wrap page_at allEvents start s)
  obtain x s1 where f: "fetch (page_at start) s = (x, s1)" by (cases "fetch (page_at start) s")
  note c = fetch_calls [OF f]
  have room: "6 \<le> 6 * (cap - length allEvents)" using "1.prems"(1) by simp
  show ?case
  proof (cases x)
    case (Inl e)
    with "1.prems"(2) f c room show ?thesis by (subst (asm) paginate.simps) auto
  next
    case (Inr d)
    show ?thesis
    proof (cases "\<exists>page. d = Some page \<and> page \<noteq> [] \<and> \<not> cap \<le> length (allEvents @ page)")
      case False
      with "1.prems"(2) f c room Inr show ?thesis
        by (subst (asm) paginate.simps) (auto split: option.splits if_splits)
    next
      case True
      then obtain page where p: "d = Some page" "page \<noteq> []" "\<not> cap \<le> length (allEvents @ page)"
        by blast
      have rec: "paginate cap wrap page_at (allEvents @ page) (start + 50) s1 = (r, s')"
        using "1.prems"(2) f Inr p by (subst (asm) paginate.simps) simp
      have lt: "length (allEvents @ page) < cap" using p(3) by simp
      from "1.IH" [OF f [symmetric] Inr p(1) p(2) p(3) lt rec]
      have ih: "calls s1 < calls s' \<and> calls s' \<le> calls s1 + 6 * (cap - length (allEvents @ page))" .
      have "length page \<ge> 1" using p(2) by (cases page) auto
      then have "6 + 6 * (cap - length (allEvents @ page)) \<le> 6 * (cap - length allEvents)"
        using lt by simp
      with ih c show ?thesis by linarith
    qed
  qed
qed

lemma paginate_length:
  assumes "\<forall>start i page. page_at start i = Resolved (Some page) \<longrightarrow> length page \<le> 50"
    and "length allEvents < cap"
    and "paginate cap wrap page_at allEvents start s = (Inr evs, s')"
  shows "length evs \<le> cap + 49"
  using assms
proof (induction cap wrap page_at allEvents start s rule: paginate.induct)
  case (1 cap wrap page_at allEvents start s)
  obtain x s1 where f: "fetch (page_at start) s = (x, s1)" by (cases "fetch (page_at start) s")
  show ?case
  proof (cases x)
    case (Inl e)
    with "1.prems"(3) f show ?thesis by (subst (asm) paginate.simps) auto
  next
    case (Inr d)
    show ?thesis
    proof (cases d)
      case None
      with "1.prems" f Inr show ?thesis by (subst (asm) paginate.simps) auto
    next
      case (Some page)
      from f Inr Some fetch_from_endpoint [of "page_at start" s "Some page" s1] "1.prems"(1)
      have small: "length page \<le> 50" by blast
      show ?thesis
      proof (cases "page \<noteq> [] \<and> \<not> cap \<le> length (allEvents @ page)")
        case False
        with "1.prems" f Inr Some small show ?thesis
          by (subst (asm) paginate.simps) (auto split: if_splits)
      next
        case True
        have rec: "paginate cap wrap page_at (allEvents @ page) (start + 50) s1 = (Inr evs, s')"
          using "1.prems"(3) f Inr Some True by (subst (asm) paginate.simps) simp
        have lt: "length (allEvents @ page) < cap" using True by simp
        from True have "page \<noteq> []" "\<not> cap \<le> length (allEvents @ page)" by auto
        from "1.IH" [OF f [symmetric] Inr Some this "1.prems"(1) lt rec] show ?thesis .
      qed
    qed
  qed
qed

lemma paginate_never_rejected:
  assumes "\<forall>start i. \<exists>d. page_at start i = Resolved d"
  shows "\<exists>evs. fst (paginate cap wrap page_at allEvents start s) = Inr evs"
  using assms
proof (induction cap wrap page_at allEvents start s rule: paginate.induct)
  case (1 cap wrap page_at allEvents start s)
  from "1.prems" obtain d where d: "page_at start (calls s) = Resolved d" by blast
  then have f: "fetch (page_at start) s = (Inr d, s\<lparr>calls := Suc (calls s)\<rparr>)"
    by (simp add: fetch_resolved)
  show ?case
  proof (cases "\<exists>page. d = Some page \<and> page \<noteq> [] \<and> \<not> cap \<le> length (allEvents @ page)")
    case False
    with f show ?thesis by (subst paginate.simps) (auto split: option.splits)
  next
    case True
    then obtain page where p: "d = Some page" "page \<noteq> []" "\<not> cap \<le> length (allEvents @ page)"
      by blast
    have "paginate cap wrap page_at allEvents start s =
        paginate cap wrap page_at (allEvents @ page) (start + 50) (s\<lparr>calls := Suc (calls s)\<rparr>)"
      using f p by (subst paginate.simps) simp
    with "1.IH" [OF f [symmetric] refl p "1.prems"] show ?thesis by simp
  qed
qed

text \<open>
  C10, as the code has it. The pagination loops are total functions: the
  recursion above is accepted with the measure \<open>cap - length allEvents\<close>, since
  an iteration that continues has appended at least one event and is still below
  the cap. Whatever the upstream answers, a loop makes at most \<open>cap\<close> page
  requests, each of at most six transport calls: 60000 calls for transactions,
  30000 for transfers. The code does not check the size of a page; when no page
  is larger than the 50 events asked for, the events fetched never exceed the cap
  by more than 49.
\<close>

theorem pagination_bounded:
  "calls (snd (fetchAllTransactions up address network s)) \<le> calls s + 60000
   \<and> calls (snd (fetchAllTransfers up address tokenAddress network s)) \<le> calls s + 30000
   \<and> ((\<forall>baseUrl start i page. tron_transactions up baseUrl address 50 start i = Resolved (Some page)
            \<longrightarrow> length page \<le> 50) \<longrightarrow>
       (\<forall>evs. fst (fetchAllTransactions up address network s) = Inr evs \<longrightarrow> length evs \<le> 10049))
   \<and> ((\<forall>baseUrl start i page.
            trc20_transfers up baseUrl 50 start address tokenAddress i = Resolved (Some page)
            \<longrightarrow> length page \<le> 50) \<longrightarrow>
       (\<forall>evs. fst (fetchAllTransfers up address tokenAddress network s) = Inr evs
            \<longrightarrow> length evs \<le> 5049))"
proof (intro conjI impI allI)
  show "calls (snd (fetchAllTransactions up address network s)) \<le> calls s + 60000"
    using paginate_calls [of "[]" 10000 FetchTransactionsFailed
        "tron_transactions up (getExplorerApiUrl ''tron'' network) address 50" 0 s]
    by (cases "fetchAllTransactions up address network s") (simp add: fetchAllTransactions_def)
  show "calls (snd (fetchAllTransfers up address tokenAddress network s)) \<le> calls s + 30000"
    using paginate_calls [of "[]" 5000 FetchTransfersFailed
        "\<lambda>start. trc20_transfers up (getExplorerApiUrl ''tron'' network) 50 start address tokenAddress" 0 s]
    by (cases "fetchAllTransfers up address tokenAddress network s") (simp add: fetchAllTransfers_def)
next
  fix evs
  assume "\<forall>baseUrl start i page. tron_transactions up baseUrl address 50 start i = Resolved (Some page)
                \<longrightarrow> length page \<le> 50"
    and "fst (fetchAllTransactions up address network s) = Inr evs"
  then show "length evs \<le> 10049"
    using paginate_length [of "tron_transactions up (getExplorerApiUrl ''tron'' network) address 50"
        "[]" 10000 FetchTransactionsFailed 0 s evs "snd (fetchAllTransactions up address network s)"]
    by (cases "fetchAllTransactions up address network s") (simp add: fetchAllTransactions_def)
next
  fix evs
  assume "\<forall>baseUrl start i page.
            trc20_transfers up baseUrl 50 start address tokenAddress i = Resolved (Some page)
                \<longrightarrow> length page \<le> 50"
    and "fst (fetchAllTransfers up address tokenAddress network s) = Inr evs"
  then show "length evs \<le> 5049"
    using paginate_length [of "\<lambda>start. trc20_transfers up (getExplorerApiUrl ''tron'' network) 50 start address tokenAddress"
        "[]" 5000 FetchTransfersFailed 0 s evs "snd (fetchAllTransfers up address tokenAddress network s)"]
    by (cases "fetchAllTransfers up address tokenAddress network s") (simp add: fetchAllTransfers_def)
qed

theorem pagination_bounded_witness:
  "calls (snd (fetchAllTransactions (flooding 50 sample_tx sample_transfer) ''a'' ''mainnet'' io0)) \<le> 60000
   \<and> calls (snd (fetchAllTransfers (flooding 50 sample_tx sample_transfer) ''a'' ''t'' ''mainnet'' io0)) \<le> 30000
   \<and> (\<exists>evs. fst (fetchAllTransactions (flooding 50 sample_tx sample_transfer) ''a'' ''mainnet'' io0) = Inr evs
          \<and> length evs \<le> 10049)
   \<and> (\<exists>evs. fst (fetchAllTransfers (flooding 50 sample_tx sample_transfer) ''a'' ''t'' ''mainnet'' io0) = Inr evs
          \<and> length evs \<le> 5049)"
proof -
  let ?up = "flooding 50 sample_tx sample_transfer"
  note b = pagination_bounded [of ?up "''a''" "''mainnet''" io0 "''t''"]
  have p1: "\<forall>baseUrl start i page. tron_transactions ?up baseUrl ''a'' 50 start i = Resolved (Some page)
              \<longrightarrow> length page \<le> 50"
    by (auto simp: flooding_def)
  have p2: "\<forall>baseUrl start i page. trc20_transfers ?up baseUrl 50 start ''a'' ''t'' i = Resolved (Some page)
              \<longrightarrow> length page \<le> 50"
    by (auto simp: flooding_def)
  have "\<exists>evs. fst (fetchAllTransactions ?up ''a'' ''mainnet'' io0) = Inr evs"
    unfolding fetchAllTransactions_def
    by (rule paginate_never_rejected) (simp add: flooding_def)
  then obtain e1 where e1: "fst (fetchAllTransactions ?up ''a'' ''mainnet'' io0) = Inr e1" ..
  have "\<exists>evs. fst (fetchAllTransfers ?up ''a'' ''t'' ''mainnet'' io0) = Inr evs"
    unfolding fetchAllTransfers_def
    by (rule paginate_never_rejected) (simp add: flooding_def)
  then obtain e2 where e2: "fst (fetchAllTransfers ?up ''a'' ''t'' ''mainnet'' io0) = Inr e2" ..
  show ?thesis using b p1 p2 e1 e2 by (simp add: io0_def)
qed

text \<open>
  The claim as written bounds the events for every upstream. An upstream that
  ignores the limit and answers with one page of 10050 transactions (5050
  transfers) makes the loop stop after that page, with all of its events.
\<close>

theorem oversized_page_counterexample:
  "fst (fetchAllTransactions (flooding 10050 sample_tx sample_transfer) ''a'' ''mainnet'' io0)
     = Inr (replicate 10050 sample_tx)
   \<and> length (replicate 10050 sample_tx) > 10000 + 49
   \<and> fst (fetchAllTransfers (flooding 5050 sample_tx sample_transfer) ''a'' ''t'' ''mainnet'' io0)
     = Inr (replicate 5050 sample_transfer)
   \<and> length (replicate 5050 sample_transfer) > 5000 + 49"
  by (simp add: fetchAllTransactions_def fetchAllTransfers_def paginate.simps fetch_resolved
      flooding_def)

section \<open>Base58: the decoder inverts the encoder\<close>

lemma index_of_nth:
  "distinct xs \<Longrightarrow> i < length xs \<Longrightarrow> index_of (xs ! i) xs = Some i"
proof (induction xs arbitrary: i)
  case Nil
  then show ?case by simp
next
  case (Cons x xs)
  show ?case
  proof (cases i)
    case 0
    then show ?thesis by simp
  next
    case (Suc j)
    with Cons.prems have "xs ! j \<noteq> x" by auto
    with Suc Cons show ?thesis by auto
  qed
qed

lemma base58_alphabet_distinct: "distinct base58_alphabet"
  by (simp add: base58_alphabet_def)

lemma base58_alphabet_length: "length base58_alphabet = 58"
  by (simp add: base58_alphabet_def)

lemma base58_alphabet_index:
  "d < 58 \<Longrightarrow> index_of (base58_alphabet ! d) base58_alphabet = Some d"
  by (simp add: index_of_nth base58_alphabet_distinct base58_alphabet_length)

lemma base58_alphabet_one: "d < 58 \<Longrightarrow> base58_alphabet ! d = CHR ''1'' \<longleftrightarrow> d = 0"
proof -
  assume d: "d < 58"
  have "base58_alphabet ! 0 = CHR ''1''" by (simp add: base58_alphabet_def)
  then have "base58_alphabet ! d = CHR ''1'' \<longleftrightarrow> base58_alphabet ! d = base58_alphabet ! 0" by simp
  also have "\<dots> \<longleftrightarrow> d = 0"
    using d by (simp add: nth_eq_iff_index_eq base58_alphabet_distinct base58_alphabet_length)
  finally show ?thesis .
qed

lemma base58_value_digits:
  "\<forall>d\<in>set ds. d < 58 \<Longrightarrow>
   base58_value (map (\<lambda>d. base58_alphabet ! d) ds) acc = Some (foldl (\<lambda>a d. a * 58 + d) acc ds)"
  by (induction ds arbitrary: acc) (simp_all add: base58_alphabet_index)

lemma base58_digits_small: "\<forall>d\<in>set (base58_digits n). d < 58"
proof (induction n rule: base58_digits.induct)
  case (1 n)
  show ?case
  proof (cases "n = 0")
    case True
    then show ?thesis by (simp add: base58_digits.simps [of 0])
  next
    case False
    then have "base58_digits n = base58_digits (n div 58) @ [n mod 58]"
      by (subst base58_digits.simps) simp
    with "1.IH" [OF False] show ?thesis by simp
  qed
qed

lemma base58_digits_value: "foldl (\<lambda>a d. a * 58 + d) 0 (base58_digits n) = n"
proof (induction n rule: base58_digits.induct)
  case (1 n)
  show ?case
  proof (cases "n = 0")
    case True
    then show ?thesis by (simp add: base58_digits.simps [of 0])
  next
    case False
    then have "base58_digits n = base58_digits (n div 58) @ [n mod 58]"
      by (subst base58_digits.simps) simp
    with "1.IH" [OF False] show ?thesis by simp
  qed
qed

lemma base58_digits_leading:
  "n > 0 \<Longrightarrow> base58_digits n \<noteq> [] \<and> hd (base58_digits n) \<noteq> 0"
proof (induction n rule: base58_digits.induct)
  case (1 n)
  show ?case
  proof (cases "n div 58 = 0")
    case True
    then have "base58_digits n = [n mod 58]"
      using "1.prems" by (subst base58_digits.simps) (simp add: base58_digits.simps [of 0])
    moreover from True "1.prems" have "n mod 58 \<noteq> 0" by presburger
    ultimately show ?thesis by simp
  next
    case False
    with "1.IH" "1.prems" have ih: "base58_digits (n div 58) \<noteq> [] \<and> hd (base58_digits (n div 58)) \<noteq> 0"
      by simp
    have "base58_digits n = base58_digits (n div 58) @ [n mod 58]"
      using "1.prems" by (subst base58_digits.simps) simp
    with ih show ?thesis by simp
  qed
qed

lemma nat_of_bytes_snoc: "nat_of_bytes (bs @ [b]) = nat_of_bytes bs * 256 + b"
  by (simp add: nat_of_bytes_def)

lemma nat_of_bytes_zero:
  "nat_of_bytes bs = 0 \<longleftrightarrow> (\<forall>b\<in>set bs. b = 0)"
proof (induction bs rule: rev_induct)
  case Nil
  then show ?case by (simp add: nat_of_bytes_def)
next
  case (snoc b bs)
  then show ?case by (auto simp: nat_of_bytes_snoc)
qed

lemma bytes_of_nat_bytes:
  "\<forall>b\<in>set bs. b < 256 \<Longrightarrow> bytes_of_nat (nat_of_bytes bs) = dropWhile (\<lambda>b. b = 0) bs"
proof (induction bs rule: rev_induct)
  case Nil
  then show ?case by (simp add: nat_of_bytes_def bytes_of_nat.simps)
next
  case (snoc b bs)
  then have b: "b < 256" and ih: "bytes_of_nat (nat_of_bytes bs) = dropWhile (\<lambda>b. b = 0) bs"
    by auto
  let ?m = "nat_of_bytes bs"
  have dm: "(?m * 256 + b) div 256 = ?m" "(?m * 256 + b) mod 256 = b" using b by auto
  show ?case
  proof (cases "?m = 0")
    case True
    then have z: "\<forall>x\<in>set bs. x = 0" by (simp add: nat_of_bytes_zero)
    then have dw: "dropWhile (\<lambda>b. b = 0) (bs @ [b]) = dropWhile (\<lambda>b. b = 0) [b]"
      by (simp add: dropWhile_append2)
    show ?thesis
      unfolding nat_of_bytes_snoc dw using True b
      by (subst bytes_of_nat.simps) (simp add: bytes_of_nat.simps [of 0])
  next
    case False
    then have "\<exists>x\<in>set bs. x \<noteq> 0" by (simp add: nat_of_bytes_zero)
    then have dw: "dropWhile (\<lambda>b. b = 0) (bs @ [b]) = dropWhile (\<lambda>b. b = 0) bs @ [b]"
      by (auto simp: dropWhile_append1)
    show ?thesis
    proof -
      have nz: "?m * 256 + b \<noteq> 0" using False by simp
      have "bytes_of_nat (?m * 256 + b) = bytes_of_nat ((?m * 256 + b) div 256) @ [(?m * 256 + b) mod 256]"
        using nz by (subst bytes_of_nat.simps) simp
      then show ?thesis unfolding nat_of_bytes_snoc dw dm ih .
    qed
  qed
qed

lemma takeWhile_replicate_append:
  "(ys = [] \<or> \<not> P (hd ys)) \<Longrightarrow> P x \<Longrightarrow>
   takeWhile P (replicate n x @ ys) = replicate n x \<and> dropWhile P (replicate n x @ ys) = ys"
  by (induction n) (cases ys; auto)+

lemma takeWhile_zero_replicate:
  "takeWhile (\<lambda>b. b = (0::nat)) bs = replicate (length (takeWhile (\<lambda>b. b = 0) bs)) 0"
  by (induction bs) auto

lemma bs58_roundtrip:
  assumes "\<forall>b\<in>set bytes. b < 256"
  shows "bs58_decode (bs58_encode bytes) = Inr bytes"
proof -
  let ?z = "length (takeWhile (\<lambda>b. b = 0) bytes)"
  let ?n = "nat_of_bytes bytes"
  let ?ds = "map (\<lambda>d. base58_alphabet ! d) (base58_digits ?n)"
  have lead: "?ds = [] \<or> \<not> hd ?ds = CHR ''1''"
  proof (cases "?n = 0")
    case True
    then show ?thesis by (simp add: base58_digits.simps [of 0])
  next
    case False
    then have ne: "base58_digits ?n \<noteq> []" and h: "hd (base58_digits ?n) \<noteq> 0"
      using base58_digits_leading [of ?n] by auto
    have "hd (base58_digits ?n) < 58" using ne base58_digits_small [of ?n] by (simp add: hd_in_set)
    with h have "base58_alphabet ! hd (base58_digits ?n) \<noteq> CHR ''1''"
      by (simp add: base58_alphabet_one)
    with ne show ?thesis by (simp add: hd_map)
  qed
  from takeWhile_replicate_append [of ?ds "\<lambda>ch. ch = CHR ''1''" "CHR ''1''" ?z] lead
  have tw: "takeWhile (\<lambda>ch. ch = CHR ''1'') (bs58_encode bytes) = replicate ?z CHR ''1''"
    and dw: "dropWhile (\<lambda>ch. ch = CHR ''1'') (bs58_encode bytes) = ?ds"
    by (auto simp: bs58_encode_def)
  have v: "base58_value ?ds 0 = Some ?n"
    by (simp add: base58_value_digits base58_digits_small base58_digits_value)
  have "replicate ?z 0 @ dropWhile (\<lambda>b. b = 0) bytes = bytes"
    using takeWhile_zero_replicate [of bytes] takeWhile_dropWhile_id [of "\<lambda>b. b = 0" bytes] by simp
  then show ?thesis
    by (simp add: bs58_decode_def tw dw v bytes_of_nat_bytes [OF assms])
qed

lemma nat_of_bytes_Cons: "nat_of_bytes (b # bs) = b * 256 ^ length bs + nat_of_bytes bs"
proof (induction bs rule: rev_induct)
  case Nil
  then show ?case by (simp add: nat_of_bytes_def)
next
  case (snoc x bs)
  have "nat_of_bytes (b # bs @ [x]) = nat_of_bytes (b # bs) * 256 + x"
    using nat_of_bytes_snoc [of "b # bs" x] by simp
  then show ?case by (simp add: snoc nat_of_bytes_snoc algebra_simps)
qed

lemma nat_of_bytes_less: "\<forall>b\<in>set bs. b < 256 \<Longrightarrow> nat_of_bytes bs < 256 ^ length bs"
proof (induction bs rule: rev_induct)
  case Nil
  then show ?case by (simp add: nat_of_bytes_def)
next
  case (snoc x bs)
  then have "nat_of_bytes bs + 1 \<le> 256 ^ length bs" and "x < 256" by auto
  then have "(nat_of_bytes bs + 1) * 256 \<le> 256 ^ length bs * 256" by simp
  with \<open>x < 256\<close> show ?case by (simp add: nat_of_bytes_snoc)
qed

lemma base58_leading_digit:
  "0 < d \<Longrightarrow> d < 58 \<Longrightarrow> d * 58 ^ k \<le> n \<Longrightarrow> n < (d + 1) * 58 ^ k \<Longrightarrow>
   base58_digits n \<noteq> [] \<and> hd (base58_digits n) = d"
proof (induction k arbitrary: n)
  case 0
  then have "n = d" by simp
  with 0 show ?case
    by (subst base58_digits.simps, subst (2) base58_digits.simps)
       (simp add: base58_digits.simps [of 0])
next
  case (Suc k)
  let ?m = "n div 58"
  have lo: "d * 58 ^ k \<le> ?m"
  proof -
    have "(d * 58 ^ k * 58) div 58 \<le> n div 58" using Suc.prems(3) by (intro div_le_mono) (simp add: mult.assoc)
    then show ?thesis by simp
  qed
  have hi: "?m < (d + 1) * 58 ^ k"
    using Suc.prems(4) by (intro less_mult_imp_div_less) (simp add: mult.assoc mult.commute)
  from Suc.IH [OF Suc.prems(1,2) lo hi]
  have ih: "base58_digits ?m \<noteq> []" "hd (base58_digits ?m) = d" by auto
  have "0 < d * 58 ^ Suc k" using Suc.prems(1) by simp
  with Suc.prems(3) have "n \<noteq> 0" by linarith
  then have "base58_digits n = base58_digits ?m @ [n mod 58]"
    by (subst base58_digits.simps) simp
  with ih show ?case by simp
qed

lemma tron_base58_starts_with_T:
  assumes "tron_payload p" and "checksum_bytes cs"
  shows "startsWith (base58check_form p cs) ''T''"
proof -
  from assms(1) obtain rest where p: "p = 65 # rest" and len: "length rest = 20"
    and small: "\<forall>b\<in>set rest. b < 256"
    by (cases p) (auto simp: tron_payload_def list_all_iff)
  from assms(2) have cs: "length cs = 4" "\<forall>b\<in>set cs. b < 256"
    by (auto simp: checksum_bytes_def list_all_iff)
  let ?tl = "rest @ cs"
  let ?n = "nat_of_bytes (p @ cs)"
  have n: "?n = 65 * 256 ^ 24 + nat_of_bytes ?tl"
    using len cs(1) by (simp add: p nat_of_bytes_Cons)
  have "nat_of_bytes ?tl < 256 ^ length ?tl"
    using small cs(2) by (intro nat_of_bytes_less) auto
  then have tl: "nat_of_bytes ?tl < 256 ^ 24" using len cs(1) by simp
  have lo: "26 * 58 ^ 33 \<le> ?n" unfolding n by simp
  have hi: "?n < (26 + 1) * 58 ^ 33" unfolding n using tl by simp
  from base58_leading_digit [of 26 33 ?n, OF _ _ lo hi]
  have d: "base58_digits ?n \<noteq> []" "hd (base58_digits ?n) = 26" by auto
  have t: "base58_alphabet ! 26 = CHR ''T''" by (simp add: base58_alphabet_def)
  have "bs58_encode (p @ cs) = map (\<lambda>d. base58_alphabet ! d) (base58_digits ?n)"
    by (simp add: bs58_encode_def p)
  with d t show ?thesis
    by (cases "base58_digits ?n") (auto simp: base58check_form_def startsWith_def)
qed

section \<open>Address normalization\<close>

lemma lower_hex_chars: "\<forall>ch\<in>set ''0123456789abcdef''. lower_char ch = ch"
  by (simp add: lower_char_def)

lemma lower_hex_digit: "d < 16 \<Longrightarrow> lower_char (hex_digit d) = hex_digit d"
proof -
  assume "d < 16"
  then have "hex_digit d \<in> set ''0123456789abcdef''"
    unfolding hex_digit_def by (intro nth_mem) simp
  with lower_hex_chars show ?thesis by blast
qed

lemma toLowerCase_hex_encode:
  "\<forall>b\<in>set bytes. b < 256 \<Longrightarrow> toLowerCase (hex_encode bytes) = hex_encode bytes"
proof (induction bytes)
  case Nil
  then show ?case by (simp add: toLowerCase_def hex_encode_def)
next
  case (Cons b bytes)
  then have "b div 16 < 16" "b mod 16 < 16" by auto
  with Cons show ?case
    by (simp add: toLowerCase_def hex_encode_def lower_hex_digit)
qed

lemma hex_form_tron: "tron_payload p \<Longrightarrow> \<exists>rest. hex_form p = CHR ''4'' # CHR ''1'' # rest"
  by (cases p) (auto simp: tron_payload_def hex_form_def hex_encode_def hex_digit_def)

lemma index_of_in_set: "index_of x xs = Some i \<Longrightarrow> x \<in> set xs"
  by (induction xs arbitrary: i) (auto split: if_splits)

lemma lower_char_four: "lower_char ch = CHR ''4'' \<Longrightarrow> ch = CHR ''4''"
proof -
  assume a: "lower_char ch = CHR ''4''"
  show ?thesis
  proof (cases "index_of ch ''ABCDEFGHIJKLMNOPQRSTUVWXYZ''")
    case None
    with a show ?thesis by (simp add: lower_char_def)
  next
    case (Some i)
    then have "ch \<in> set ''ABCDEFGHIJKLMNOPQRSTUVWXYZ''"
      by (rule index_of_in_set)
    then show ?thesis using a by (auto simp: lower_char_def)
  qed
qed

text \<open>
  C5. For every Tron address (a payload of 21 bytes that starts with \<open>0x41\<close>)
  and every four checksum bytes, \<^verbatim>\<open>toTronHex\<close> maps the Base58Check form and the
  hex form to the same key, the hex form itself: the payload in lower-case hex,
  checksum stripped. The same holds of the key the reconstructor compares,
  \<^verbatim>\<open>toTronHex(x).toLowerCase()\<close>, which also accepts the hex form in upper case.
\<close>

theorem tron_address_forms_normalize_alike:
  assumes "tron_payload p" and "checksum_bytes cs"
  shows "toTronHex (base58check_form p cs) = Inr (hex_form p)
       \<and> toTronHex (hex_form p) = Inr (hex_form p)
       \<and> normalized (Some (base58check_form p cs)) = Inr (Some (hex_form p))
       \<and> normalized (Some (hex_form p)) = Inr (Some (hex_form p))
       \<and> (toLowerCase h = hex_form p \<longrightarrow> normalized (Some h) = Inr (Some (hex_form p)))"
proof -
  have small: "\<forall>b\<in>set (p @ cs). b < 256" and smallp: "\<forall>b\<in>set p. b < 256" and lp: "length p = 21"
    and lcs: "length cs = 4"
    using assms by (auto simp: tron_payload_def checksum_bytes_def list_all_iff)
  from hex_form_tron [OF assms(1)] obtain rest where hx: "hex_form p = CHR ''4'' # CHR ''1'' # rest" ..
  have T: "startsWith (base58check_form p cs) ''T''"
    by (rule tron_base58_starts_with_T [OF assms])
  then have no0x: "\<not> startsWith (base58check_form p cs) ''0x''"
    by (cases "base58check_form p cs") (auto simp: startsWith_def)
  have dec: "bs58_decode (base58check_form p cs) = Inr (p @ cs)"
    unfolding base58check_form_def by (rule bs58_roundtrip [OF small])
  have b58: "toTronHex (base58check_form p cs) = Inr (hex_form p)"
    by (simp add: toTronHex_def T no0x dec lcs hex_form_def)
  have hexid: "toTronHex (hex_form p) = Inr (hex_form p)"
    by (simp add: toTronHex_def startsWith_def hx)
  have low: "toLowerCase (hex_form p) = hex_form p"
    unfolding hex_form_def by (rule toLowerCase_hex_encode [OF smallp])
  have ne: "base58check_form p cs \<noteq> []"
    using T by (auto simp: startsWith_def)
  have n1: "normalized (Some (base58check_form p cs)) = Inr (Some (hex_form p))"
    by (simp add: normalized_def ne b58 low)
  have hne: "hex_form p \<noteq> []" using hx by simp
  have n2: "normalized (Some (hex_form p)) = Inr (Some (hex_form p))"
    by (simp add: normalized_def hexid low hne)
  have n3: "normalized (Some h) = Inr (Some (hex_form p))" if h: "toLowerCase h = hex_form p"
  proof -
    from h hx obtain c1 r1 where h1: "h = c1 # r1" "lower_char c1 = CHR ''4''"
      by (cases h) (auto simp: toLowerCase_def)
    then have "c1 = CHR ''4''" by (simp add: lower_char_four)
    with h1 have "toTronHex h = Inr h" by (simp add: toTronHex_def startsWith_def)
    with h h1 show ?thesis by (simp add: normalized_def)
  qed
  from b58 hexid n1 n2 n3 show ?thesis by blast
qed

lemma usdt_base58: "base58check_form usdt_payload usdt_checksum = ''TR7NHqjeKQxGTCi8q8ZY4pL8otSzgjLj6t''"
  by (simp add: base58check_form_def bs58_encode_def usdt_payload_def usdt_checksum_def
      nat_of_bytes_def base58_digits.simps base58_alphabet_def)

lemma usdt_hex: "hex_form usdt_payload = ''41a614f803b6fd780986a42c78ec9c7f77e6ded13c''"
  by (simp add: hex_form_def hex_encode_def hex_digit_def usdt_payload_def)

theorem tron_address_forms_normalize_alike_witness:
  "tron_payload usdt_payload \<and> checksum_bytes usdt_checksum
   \<and> toLowerCase ''41A614F803B6FD780986A42C78EC9C7F77E6DED13C'' = hex_form usdt_payload
   \<and> toTronHex ''TR7NHqjeKQxGTCi8q8ZY4pL8otSzgjLj6t'' = Inr ''41a614f803b6fd780986a42c78ec9c7f77e6ded13c''
   \<and> toTronHex ''41a614f803b6fd780986a42c78ec9c7f77e6ded13c'' = Inr ''41a614f803b6fd780986a42c78ec9c7f77e6ded13c''
   \<and> normalized (Some ''41A614F803B6FD780986A42C78EC9C7F77E6DED13C'')
       = Inr (Some ''41a614f803b6fd780986a42c78ec9c7f77e6ded13c'')"
proof -
  have p: "tron_payload usdt_payload" by (simp add: tron_payload_def usdt_payload_def)
  have c: "checksum_bytes usdt_checksum" by (simp add: checksum_bytes_def usdt_checksum_def)
  have u: "toLowerCase ''41A614F803B6FD780986A42C78EC9C7F77E6DED13C'' = hex_form usdt_payload"
    by (simp add: usdt_hex toLowerCase_def lower_char_def)
  from tron_address_forms_normalize_alike [OF p c, of "''41A614F803B6FD780986A42C78EC9C7F77E6DED13C''"] u p c
  show ?thesis by (simp add: usdt_base58 usdt_hex)
qed

section \<open>Doubles: small integers are exact\<close>

lemma bit_length_le: "n < 2 ^ k \<Longrightarrow> bit_length n \<le> k"
proof (induction k arbitrary: n)
  case 0
  then show ?case by (simp add: bit_length.simps)
next
  case (Suc k)
  show ?case
  proof (cases "n = 0")
    case True
    then show ?thesis by (simp add: bit_length.simps)
  next
    case False
    from Suc.prems have "n div 2 < 2 ^ k" by simp
    from Suc.IH [OF this] False show ?thesis by (subst bit_length.simps) simp
  qed
qed

lemma to_double_exact: "\<bar>x\<bar> < 2 ^ 53 \<Longrightarrow> to_double x = x"
proof -
  assume "\<bar>x\<bar> < 2 ^ 53"
  then have "nat \<bar>x\<bar> < 2 ^ 53" by (simp add: nat_less_iff)
  then have "bit_length (nat \<bar>x\<bar>) \<le> 53" by (rule bit_length_le)
  then show ?thesis by (simp add: to_double_def Let_def)
qed

text \<open>Beyond 53 bits the double rounds: \<open>2^53 + 1\<close> is read as \<open>2^53\<close>.\<close>

lemma to_double_rounds: "to_double 9007199254740993 = 9007199254740992"
  by (simp add: to_double_def Let_def bit_length.simps)

section \<open>Native replay\<close>

lemma replay_tx_delta:
  assumes "contractRet tx = ''SUCCESS'' \<and> contractType tx = 1 \<longrightarrow> well_formed tx"
    and "\<bar>balance\<bar> + (if contractRet tx = ''SUCCESS'' \<and> contractType tx = 1
                       then magnitude tx else 0) < 2 ^ 53"
  shows "replay_tx k balance tx =
           Inr (balance + (if contractRet tx = ''SUCCESS'' \<and> contractType tx = 1
                           then transfer_delta k tx else 0))"
proof (cases "contractRet tx = ''SUCCESS'' \<and> contractType tx = 1")
  case False
  then show ?thesis by (auto simp: replay_tx_def)
next
  case True
  with assms obtain o' t' where n: "normalized (ownerAddress tx) = Inr o'" "normalized (toAddress tx) = Inr t'"
    unfolding well_formed_def
    by (cases "normalized (ownerAddress tx)"; cases "normalized (toAddress tx)") auto
  from True assms(2) have m: "\<bar>balance\<bar> + \<bar>amount_of tx\<bar> + \<bar>fee_of tx\<bar> < 2 ^ 53"
    by (simp add: magnitude_def)
  have e1: "to_double (balance + amount_of tx) = balance + amount_of tx"
    using m by (intro to_double_exact) linarith
  have e2: "to_double (balance - amount_of tx) = balance - amount_of tx"
    using m by (intro to_double_exact) linarith
  have e3: "to_double (balance - amount_of tx - fee_of tx) = balance - amount_of tx - fee_of tx"
    using m by (intro to_double_exact) linarith
  from True n show ?thesis
    by (simp add: replay_tx_def transfer_delta_def is_address_def e1 e2 e3)
qed

lemma transfer_delta_le: "\<bar>transfer_delta k tx\<bar> \<le> magnitude tx"
proof -
  have "\<bar>- amount_of tx - fee_of tx\<bar> \<le> \<bar>amount_of tx\<bar> + \<bar>fee_of tx\<bar>" by linarith
  then show ?thesis by (simp add: transfer_delta_def magnitude_def)
qed

lemma replay_loop_sum:
  assumes "\<forall>tx\<in>set txs. contractRet tx = ''SUCCESS'' \<and> contractType tx = 1 \<longrightarrow> well_formed tx"
    and "\<bar>balance\<bar> + sum_list (map (\<lambda>tx. if contractRet tx = ''SUCCESS'' \<and> contractType tx = 1
                                            then magnitude tx else 0) txs) < 2 ^ 53"
  shows "replay_loop k balance txs =
           Inr (balance + sum_list (map (\<lambda>tx. if contractRet tx = ''SUCCESS'' \<and> contractType tx = 1
                                                then transfer_delta k tx else 0) txs))"
  using assms
proof (induction txs arbitrary: balance)
  case Nil
  then show ?case by simp
next
  case (Cons tx txs)
  let ?m = "\<lambda>tx. if contractRet tx = ''SUCCESS'' \<and> contractType tx = 1 then magnitude tx else 0"
  let ?d = "\<lambda>tx. if contractRet tx = ''SUCCESS'' \<and> contractType tx = 1
                  then transfer_delta k tx else 0"
  have nonneg: "0 \<le> sum_list (map ?m txs)"
    by (intro sum_list_nonneg) (auto simp: magnitude_def)
  have mpos: "0 \<le> ?m tx" by (simp add: magnitude_def)
  from Cons.prems(2) have tot: "\<bar>balance\<bar> + ?m tx + sum_list (map ?m txs) < 2 ^ 53" by simp
  have step: "replay_tx k balance tx = Inr (balance + ?d tx)"
    using Cons.prems(1) tot nonneg by (intro replay_tx_delta) auto
  have "\<bar>?d tx\<bar> \<le> ?m tx" using transfer_delta_le [of k tx] by simp
  then have "\<bar>balance + ?d tx\<bar> + sum_list (map ?m txs) < 2 ^ 53" using tot by linarith
  from Cons.IH [OF _ this] Cons.prems(1)
  have "replay_loop k (balance + ?d tx) txs = Inr (balance + ?d tx + sum_list (map ?d txs))"
    by simp
  with step show ?case by simp
qed

lemma sum_filter_insort:
  "sum_list (map g (filter P (insort_key f x xs))) =
   sum_list (map (g :: 'a \<Rightarrow> int) (filter P (x # xs)))"
  by (induction xs) auto

lemma sum_filter_sort:
  "sum_list (map g (filter P (sort_key f xs))) = sum_list (map (g :: 'a \<Rightarrow> int) (filter P xs))"
proof (induction xs)
  case Nil
  then show ?case by simp
next
  case (Cons x xs)
  have "sum_list (map g (filter P (sort_key f (x # xs)))) =
        sum_list (map g (filter P (x # sort_key f xs)))"
    by (simp add: sum_filter_insort)
  with Cons show ?case by simp
qed

lemma sum_if_filter:
  "sum_list (map (\<lambda>x. if Q x then g x else (0::int)) (filter P xs)) =
   sum_list (map g (filter (\<lambda>x. Q x \<and> P x) xs))"
  by (induction xs) auto

lemma spec_delta_ledger:
  "\<not> self_transfer k tx \<Longrightarrow> spec_delta k tx = transfer_delta k tx"
  by (auto simp: spec_delta_def transfer_delta_def self_transfer_def)

text \<open>
  C4. For every finite list of events and every target, when the queried
  address and the addresses of the counted events decode, no counted event is a
  transfer of the queried address to itself, and the counted events together
  move less than \<open>2^53\<close> sun (so that every balance the code holds on the way is
  an exact double), the replay returns the sum, over the events with status SUCCESS that
  are TRX transfers with timestamp not after the target, of the amount for a
  transfer whose recipient is the queried address, less amount and fee for a
  transfer whose sender is the queried address. On the scenario of the
  specification the sum is 144000000 sun.
\<close>

theorem native_replay_accumulates:
  assumes "toTronHex address = Inr h"
    and "\<forall>tx\<in>set txs. counts targetTimestamp tx \<longrightarrow>
           well_formed tx \<and> \<not> self_transfer (toLowerCase h) tx"
    and "sum_list (map magnitude (filter (counts targetTimestamp) txs)) < 2 ^ 53"
  shows "replay_transactions address targetTimestamp txs =
           Inr (sum_list (map (spec_delta (toLowerCase h)) (filter (counts targetTimestamp) txs)))"
proof -
  let ?rel = "filter (\<lambda>tx. tx_timestamp tx \<le> targetTimestamp) (sort_key tx_timestamp txs)"
  let ?Q = "\<lambda>tx. contractRet tx = ''SUCCESS'' \<and> contractType tx = 1"
  let ?d = "\<lambda>tx. if ?Q tx then transfer_delta (toLowerCase h) tx else 0"
  let ?m = "\<lambda>tx. if ?Q tx then magnitude tx else 0"
  have cnt: "(\<lambda>tx. ?Q tx \<and> tx_timestamp tx \<le> targetTimestamp) = counts targetTimestamp"
    by (auto simp: counts_def fun_eq_iff)
  have wf: "\<forall>tx\<in>set ?rel. ?Q tx \<longrightarrow> well_formed tx"
    using assms(2) by (auto simp: counts_def)
  have "sum_list (map ?m ?rel) =
      sum_list (map ?m (filter (\<lambda>tx. tx_timestamp tx \<le> targetTimestamp) txs))"
    by (rule sum_filter_sort)
  also have "\<dots> = sum_list (map magnitude (filter (counts targetTimestamp) txs))"
    unfolding sum_if_filter cnt ..
  finally have bound: "\<bar>0\<bar> + sum_list (map ?m ?rel) < 2 ^ 53" using assms(3) by simp
  have "replay_transactions address targetTimestamp txs = replay_loop (toLowerCase h) 0 ?rel"
    by (simp add: replay_transactions_def assms(1))
  also have "\<dots> = Inr (sum_list (map ?d ?rel))"
    by (simp add: replay_loop_sum [OF wf bound])
  also have "sum_list (map ?d ?rel) =
      sum_list (map ?d (filter (\<lambda>tx. tx_timestamp tx \<le> targetTimestamp) txs))"
    by (rule sum_filter_sort)
  also have "\<dots> = sum_list (map (transfer_delta (toLowerCase h)) (filter (counts targetTimestamp) txs))"
    unfolding sum_if_filter cnt ..
  also have "\<dots> = sum_list (map (spec_delta (toLowerCase h)) (filter (counts targetTimestamp) txs))"
    using assms(2) by (intro arg_cong [where f = sum_list] map_cong refl)
      (simp add: spec_delta_ledger)
  finally show ?thesis .
qed

lemma wallet58_key: "toTronHex wallet58 = Inr wallet_hex"
  by (simp add: wallet58_def wallet_hex_def toTronHex_def startsWith_def bs58_decode_def
      base58_alphabet_def bytes_of_nat.simps hex_encode_def hex_digit_def)

lemma peer58_key: "toTronHex peer58 = Inr peer_hex"
  by (simp add: peer58_def peer_hex_def toTronHex_def startsWith_def bs58_decode_def
      base58_alphabet_def bytes_of_nat.simps hex_encode_def hex_digit_def)

lemma wallet_hex_key: "toTronHex wallet_hex = Inr wallet_hex"
  by (simp add: wallet_hex_def toTronHex_def startsWith_def)

lemma wallet_hex_lower: "toLowerCase wallet_hex = wallet_hex"
  by (simp add: wallet_hex_def toLowerCase_def lower_char_def)

lemma peer_hex_lower: "toLowerCase peer_hex = peer_hex"
  by (simp add: peer_hex_def toLowerCase_def lower_char_def)

lemma sample_addresses_differ:
  "wallet_hex \<noteq> peer_hex" "peer_hex \<noteq> wallet_hex" "wallet58 \<noteq> []" "peer58 \<noteq> []" "wallet_hex \<noteq> []"
  "wallet58 \<noteq> wallet_hex" "peer58 \<noteq> wallet_hex" "peer58 \<noteq> wallet58"
  by (simp_all add: wallet_hex_def peer_hex_def wallet58_def peer58_def)

lemma normalized_samples:
  "normalized (Some wallet58) = Inr (Some wallet_hex)"
  "normalized (Some peer58) = Inr (Some peer_hex)"
  "normalized (Some wallet_hex) = Inr (Some wallet_hex)"
  by (simp_all add: normalized_def sample_addresses_differ wallet58_key peer58_key
      wallet_hex_key wallet_hex_lower peer_hex_lower)

lemma scenario_amounts:
  "to_double 25000000 = 25000000" "to_double 100000000 = 100000000"
  "to_double 30000000 = 30000000" "to_double 50000000 = 50000000"
  "to_double 1000000 = 1000000" "to_double 0 = 0" "to_double 100 = 100"
  by (simp_all add: to_double_exact)

theorem native_replay_accumulates_witness:
  "toTronHex wallet58 = Inr wallet_hex
   \<and> list_all (\<lambda>tx. counts 5000 tx \<and> well_formed tx \<and> \<not> self_transfer wallet_hex tx) scenario_txs
   \<and> sum_list (map magnitude (filter (counts 5000) scenario_txs)) = 206000000
   \<and> replay_transactions wallet58 5000 scenario_txs = Inr 144000000
   \<and> getTronHistoricalBalance (serving scenario_txs []) wallet58 ''mainnet'' 5000 io0
       = (Inr 144000000, \<lparr>calls = 2, sleeps = []\<rparr>)"
proof -
  have wf: "list_all (\<lambda>tx. counts 5000 tx \<and> well_formed tx \<and> \<not> self_transfer wallet_hex tx) scenario_txs"
    by (simp add: scenario_txs_def transfer_tx_def counts_def well_formed_def
        self_transfer_def is_address_def normalized_samples sample_addresses_differ)
  then have h: "\<forall>tx\<in>set scenario_txs. counts 5000 tx \<longrightarrow>
      well_formed tx \<and> \<not> self_transfer (toLowerCase wallet_hex) tx"
    by (simp add: list_all_iff wallet_hex_lower)
  have m: "sum_list (map magnitude (filter (counts 5000) scenario_txs)) = 206000000"
    by (simp add: scenario_txs_def transfer_tx_def counts_def magnitude_def amount_of_def
        fee_of_def scenario_amounts)
  then have b: "sum_list (map magnitude (filter (counts 5000) scenario_txs)) < 2 ^ 53" by simp
  have r: "replay_transactions wallet58 5000 scenario_txs = Inr 144000000"
    using native_replay_accumulates [OF wallet58_key h b]
    by (simp add: scenario_txs_def transfer_tx_def counts_def spec_delta_def is_address_def
        normalized_samples wallet_hex_lower sample_addresses_differ amount_of_def fee_of_def
        scenario_amounts)
  have p: "fetchAllTransactions (serving scenario_txs []) wallet58 ''mainnet'' io0
      = (Inr scenario_txs, \<lparr>calls = 2, sleeps = []\<rparr>)"
    by (simp add: fetchAllTransactions_def paginate.simps fetch_resolved serving_def io0_def
        scenario_txs_def)
  show ?thesis using wf m r p by (simp add: wallet58_key getTronHistoricalBalance_def)
qed

section \<open>TRC-20 replay compares addresses as given\<close>

text \<open>
  C6 at a failing input. The TRC-20 path compares \<^verbatim>\<open>tx.to_address === address\<close>
  on the raw strings. For a transfer of 100 units to the wallet, reported by the
  index in Base58Check, the balance is 100 when the wallet is queried in
  Base58Check and 0 when the same wallet is queried in hex. The native path
  normalizes both sides and returns 144000000 for either form.
\<close>

theorem trc20_replay_compares_raw_strings:
  "toTronHex wallet58 = Inr wallet_hex \<and> toTronHex wallet_hex = Inr wallet_hex
   \<and> fst (getTronTokenHistoricalBalance (serving [] [token_event]) wallet58 ''token'' ''mainnet'' 5000 io0)
       = Inr 100
   \<and> fst (getTronTokenHistoricalBalance (serving [] [token_event]) wallet_hex ''token'' ''mainnet'' 5000 io0)
       = Inr 0
   \<and> fst (getTronHistoricalBalance (serving scenario_txs []) wallet58 ''mainnet'' 5000 io0)
       = Inr 144000000
   \<and> fst (getTronHistoricalBalance (serving scenario_txs []) wallet_hex ''mainnet'' 5000 io0)
       = Inr 144000000"
proof -
  have t: "fetchAllTransfers (serving [] [token_event]) a ''token'' ''mainnet'' io0
      = (Inr [token_event], \<lparr>calls = 2, sleeps = []\<rparr>)" for a
    by (simp add: fetchAllTransfers_def paginate.simps fetch_resolved serving_def io0_def)
  have p: "fetchAllTransactions (serving scenario_txs []) a ''mainnet'' io0
      = (Inr scenario_txs, \<lparr>calls = 2, sleeps = []\<rparr>)" for a
    by (simp add: fetchAllTransactions_def paginate.simps fetch_resolved serving_def io0_def
        scenario_txs_def)
  have r: "replay_transactions a 5000 scenario_txs = Inr 144000000"
    if "toTronHex a = Inr wallet_hex" for a
    using that
    by (simp add: replay_transactions_def scenario_txs_def transfer_tx_def replay_tx_def
        normalized_samples wallet_hex_lower sample_addresses_differ amount_of_def fee_of_def
        to_double_exact)
  have q: "replay_transfers wallet58 5000 [token_event] = 100"
    "replay_transfers wallet_hex 5000 [token_event] = 0"
    by (simp_all add: replay_transfers_def replay_transfer_def token_event_def
        sample_addresses_differ to_double_exact)
  show ?thesis
    by (simp add: getTronTokenHistoricalBalance_def getTronHistoricalBalance_def t p q
        r [OF wallet58_key] r [OF wallet_hex_key] wallet58_key wallet_hex_key)
qed

section \<open>Token metadata\<close>

lemma fetch_rejected_other:
  "ep (calls s) = Rejected st \<Longrightarrow> st \<noteq> Some 429 \<Longrightarrow>
   fetch ep s = (Inl (AxiosError st), s\<lparr>calls := Suc (calls s)\<rparr>)"
  by (simp add: fetch_def fetchWithRetry_rejected_other)

lemma getTronTokenInfo_first:
  "getTronTokenInfo up tok network s =
     (case fst (fetch (trc20_token up (getExplorerApiUrl ''tron'' network) tok) s) of
        Inl e \<Rightarrow> None
      | Inr toks \<Rightarrow> first_of toks,
      snd (fetch (trc20_token up (getExplorerApiUrl ''tron'' network) tok) s))"
  by (cases "fetch (trc20_token up (getExplorerApiUrl ''tron'' network) tok) s")
     (auto simp: getTronTokenInfo_def first_of_def split: sum.splits option.splits list.splits)

lemma js_trim_samples:
  "js_trim '' 0xabc '' = ''0xabc''" "js_trim ''token'' = ''token''" "js_trim wallet58 = wallet58"
  "js_trim ''  '' = []"
  by (simp_all add: js_trim_def is_space_def wallet58_def)

lemma POST_token_query:
  assumes "body_address b \<noteq> []" and "body_date b = Some ts" and "body_chain b = Some chain"
    and "body_network b = Some network" and "body_tokenAddress b = Some tok" and "tok \<noteq> []"
    and "getBlockNumberByTimestamp key up (blocks nd) chain network ts s = (Inr bn, s1)"
    and "getRpcUrl key chain network = Inr u"
  shows "POST key up nd b s =
     (if chain = ''tron'' then
        (case tron_balance key up nd (js_trim (body_address b)) network (Some (js_trim tok)) ts s1 of
           (Inl e, s2) \<Rightarrow> (Json500 (TronBalanceFailed e), s2)
         | (Inr (historicalBlockNumber, balanceFormatted, symb, rawBalance), s2) \<Rightarrow>
             (Json200 \<lparr>json_chain = chain, json_network = network,
                json_address = js_trim (body_address b), json_timestamp = ts,
                json_blockNumber = historicalBlockNumber,
                json_balance = balanceFormatted, json_symbol = symb,
                json_rawBalance = rawBalance, json_replayed = True\<rparr>, s2))
      else
        (case evm_balance nd chain (js_trim (body_address b)) (Some (js_trim tok)) bn of
           Inl e \<Rightarrow> (Json500 e, s1)
         | Inr (balanceFormatted, symb, balanceWei) \<Rightarrow>
             (Json200 \<lparr>json_chain = chain, json_network = network,
                json_address = js_trim (body_address b), json_timestamp = ts,
                json_blockNumber = bn,
                json_balance = balanceFormatted, json_symbol = symb,
                json_rawBalance = balanceWei, json_replayed = False\<rparr>, s1)))"
  using assms by (simp add: POST_def truthy_def Let_def)

text \<open>
  C9, as the code has it. A token balance query whose block lookup and balance
  lookup succeed still succeeds when the metadata is missing, and the amount is
  scaled by 18 decimals. The address and the token address are trimmed after the
  address has been tested for presence. On the direct-query chains (either of
  \<^verbatim>\<open>decimals()\<close> and \<^verbatim>\<open>symbol()\<close> rejected) the symbol is the chain's native
  symbol. On Tron the metadata is missing when the token lookup is rejected or
  answers without a token, and the symbol is then \<^verbatim>\<open>UNKNOWN\<close>; a token that is
  found without decimals (or with 0) is scaled by 18 decimals under its own
  symbol.
\<close>

theorem token_metadata_fallback:
  "(body_address b \<noteq> [] \<and> body_date b = Some ts \<and> body_chain b = Some chain
      \<and> body_network b = Some network \<and> body_tokenAddress b = Some tok \<and> js_trim tok \<noteq> []
      \<and> chain \<noteq> ''tron''
      \<and> getBlockNumberByTimestamp key up (blocks nd) chain network ts s = (Inr bn, s1)
      \<and> \<not> isl (getRpcUrl key chain network)
      \<and> balanceOf nd (js_trim tok) (js_trim (body_address b)) bn = Inr wei
      \<and> (isl (decimals nd (js_trim tok)) \<or> isl (symbol nd (js_trim tok))) \<longrightarrow>
    POST key up nd b s =
      (Json200 \<lparr>json_chain = chain, json_network = network,
         json_address = js_trim (body_address b),
         json_timestamp = ts, json_blockNumber = bn, json_balance = Scaled wei 18,
         json_symbol = native_symbol chain, json_rawBalance = wei, json_replayed = False\<rparr>, s1))
   \<and> (body_address b \<noteq> [] \<and> body_date b = Some ts \<and> body_chain b = Some ''tron''
      \<and> body_network b = Some network \<and> body_tokenAddress b = Some tok \<and> js_trim tok \<noteq> []
      \<and> getBlockNumberByTimestamp key up (blocks nd) ''tron'' network ts s = (Inr bn, s1)
      \<and> getBlockNumberByTimestamp key up (blocks nd) ''tron'' network ts s1 = (Inr hbn, s2)
      \<and> getTronTokenInfo up (js_trim tok) network s2 = (None, s3)
      \<and> getTronTokenHistoricalBalance up (js_trim (body_address b)) (js_trim tok) network
            (ts * 1000) s3 = (Inr raw, s4) \<longrightarrow>
    POST key up nd b s =
      (Json200 \<lparr>json_chain = ''tron'', json_network = network,
         json_address = js_trim (body_address b),
         json_timestamp = ts, json_blockNumber = hbn, json_balance = Scaled raw 18,
         json_symbol = ''UNKNOWN'', json_rawBalance = raw, json_replayed = True\<rparr>, s4))
   \<and> (fst (getTronTokenInfo up tk network s) = None \<longleftrightarrow>
        (case fst (fetch (trc20_token up (getExplorerApiUrl ''tron'' network) tk) s) of
           Inl e \<Rightarrow> True
         | Inr toks \<Rightarrow> toks = None \<or> toks = Some []))
   \<and> (body_address b \<noteq> [] \<and> body_date b = Some ts \<and> body_chain b = Some ''tron''
      \<and> body_network b = Some network \<and> body_tokenAddress b = Some tok \<and> js_trim tok \<noteq> []
      \<and> getBlockNumberByTimestamp key up (blocks nd) ''tron'' network ts s = (Inr bn, s1)
      \<and> getBlockNumberByTimestamp key up (blocks nd) ''tron'' network ts s1 = (Inr hbn, s2)
      \<and> getTronTokenInfo up (js_trim tok) network s2 = (Some t, s3)
      \<and> (token_decimals t = None \<or> token_decimals t = Some 0)
      \<and> getTronTokenHistoricalBalance up (js_trim (body_address b)) (js_trim tok) network
            (ts * 1000) s3 = (Inr raw, s4) \<longrightarrow>
    POST key up nd b s =
      (Json200 \<lparr>json_chain = ''tron'', json_network = network,
         json_address = js_trim (body_address b),
         json_timestamp = ts, json_blockNumber = hbn, json_balance = Scaled raw 18,
         json_symbol = token_symbol t, json_rawBalance = raw, json_replayed = True\<rparr>, s4))"
proof (intro conjI impI)
  assume a: "body_address b \<noteq> [] \<and> body_date b = Some ts \<and> body_chain b = Some chain
      \<and> body_network b = Some network \<and> body_tokenAddress b = Some tok \<and> js_trim tok \<noteq> []
      \<and> chain \<noteq> ''tron''
      \<and> getBlockNumberByTimestamp key up (blocks nd) chain network ts s = (Inr bn, s1)
      \<and> \<not> isl (getRpcUrl key chain network)
      \<and> balanceOf nd (js_trim tok) (js_trim (body_address b)) bn = Inr wei
      \<and> (isl (decimals nd (js_trim tok)) \<or> isl (symbol nd (js_trim tok)))"
  then obtain u where u: "getRpcUrl key chain network = Inr u"
    by (cases "getRpcUrl key chain network") auto
  from a have tok: "tok \<noteq> []" by (auto simp: js_trim_def)
  have e: "evm_balance nd chain (js_trim (body_address b)) (Some (js_trim tok)) bn =
      Inr (Scaled wei 18, native_symbol chain, wei)"
    using a by (auto simp: evm_balance_def truthy_def split: sum.splits)
  show "POST key up nd b s =
      (Json200 \<lparr>json_chain = chain, json_network = network,
         json_address = js_trim (body_address b),
         json_timestamp = ts, json_blockNumber = bn, json_balance = Scaled wei 18,
         json_symbol = native_symbol chain, json_rawBalance = wei, json_replayed = False\<rparr>, s1)"
    using a by (simp add: POST_token_query [OF _ _ _ _ _ tok _ u] e)
next
  assume a: "body_address b \<noteq> [] \<and> body_date b = Some ts \<and> body_chain b = Some ''tron''
      \<and> body_network b = Some network \<and> body_tokenAddress b = Some tok \<and> js_trim tok \<noteq> []
      \<and> getBlockNumberByTimestamp key up (blocks nd) ''tron'' network ts s = (Inr bn, s1)
      \<and> getBlockNumberByTimestamp key up (blocks nd) ''tron'' network ts s1 = (Inr hbn, s2)
      \<and> getTronTokenInfo up (js_trim tok) network s2 = (None, s3)
      \<and> getTronTokenHistoricalBalance up (js_trim (body_address b)) (js_trim tok) network
            (ts * 1000) s3 = (Inr raw, s4)"
  from a have tok: "tok \<noteq> []" by (auto simp: js_trim_def)
  have t: "tron_balance key up nd (js_trim (body_address b)) network (Some (js_trim tok)) ts s1 =
      (Inr (hbn, Scaled raw 18, ''UNKNOWN'', raw), s4)"
    using a by (simp add: tron_balance_def truthy_def)
  obtain u where u: "getRpcUrl key ''tron'' network = Inr u"
    by (cases "network = ''shasta''") (auto simp: getRpcUrl_def)
  show "POST key up nd b s =
      (Json200 \<lparr>json_chain = ''tron'', json_network = network,
         json_address = js_trim (body_address b),
         json_timestamp = ts, json_blockNumber = hbn, json_balance = Scaled raw 18,
         json_symbol = ''UNKNOWN'', json_rawBalance = raw, json_replayed = True\<rparr>, s4)"
    using a by (simp add: POST_token_query [OF _ _ _ _ _ tok _ u] t)
next
  show "fst (getTronTokenInfo up tk network s) = None \<longleftrightarrow>
        (case fst (fetch (trc20_token up (getExplorerApiUrl ''tron'' network) tk) s) of
           Inl e \<Rightarrow> True
         | Inr toks \<Rightarrow> toks = None \<or> toks = Some [])"
    by (auto simp: getTronTokenInfo_first first_of_def split: sum.splits option.splits list.splits)
next
  assume a: "body_address b \<noteq> [] \<and> body_date b = Some ts \<and> body_chain b = Some ''tron''
      \<and> body_network b = Some network \<and> body_tokenAddress b = Some tok \<and> js_trim tok \<noteq> []
      \<and> getBlockNumberByTimestamp key up (blocks nd) ''tron'' network ts s = (Inr bn, s1)
      \<and> getBlockNumberByTimestamp key up (blocks nd) ''tron'' network ts s1 = (Inr hbn, s2)
      \<and> getTronTokenInfo up (js_trim tok) network s2 = (Some t, s3)
      \<and> (token_decimals t = None \<or> token_decimals t = Some 0)
      \<and> getTronTokenHistoricalBalance up (js_trim (body_address b)) (js_trim tok) network
            (ts * 1000) s3 = (Inr raw, s4)"
  from a have tok: "tok \<noteq> []" by (auto simp: js_trim_def)
  have t: "tron_balance key up nd (js_trim (body_address b)) network (Some (js_trim tok)) ts s1 =
      (Inr (hbn, Scaled raw 18, token_symbol t, raw), s4)"
    using a by (auto simp: tron_balance_def truthy_def)
  obtain u where u: "getRpcUrl key ''tron'' network = Inr u"
    by (cases "network = ''shasta''") (auto simp: getRpcUrl_def)
  show "POST key up nd b s =
      (Json200 \<lparr>json_chain = ''tron'', json_network = network,
         json_address = js_trim (body_address b),
         json_timestamp = ts, json_blockNumber = hbn, json_balance = Scaled raw 18,
         json_symbol = token_symbol t, json_rawBalance = raw, json_replayed = True\<rparr>, s4)"
    using a by (simp add: POST_token_query [OF _ _ _ _ _ tok _ u] t)
qed

lemma sample_tron_block:
  "getBlockNumberByTimestamp key (tron_world tron2 txs trs) c ''tron'' ''mainnet'' 25 s
     = (Inr 2, s\<lparr>calls := Suc (calls s)\<rparr>)"
  by (simp add: getBlockNumberByTimestamp_def getTronBlockNumberByTimestamp_def fetch_resolved
      tron_world_def tronscan_def tronscan_blocks_def tron2_def)

lemma sample_token_info:
  "getTronTokenInfo (tron_world bs txs trs) tok network s = (None, s\<lparr>calls := Suc (calls s)\<rparr>)"
  by (simp add: getTronTokenInfo_def fetch_rejected_other tron_world_def serving_def offline_def)

lemma sample_token_balance:
  "getTronTokenHistoricalBalance (tron_world bs txs [token_event]) wallet58 ''token'' ''mainnet''
      25000 s = (Inr 100, s\<lparr>calls := Suc (Suc (calls s))\<rparr>)"
proof -
  have "fetchAllTransfers (tron_world bs txs [token_event]) wallet58 ''token'' ''mainnet'' s
      = (Inr [token_event], s\<lparr>calls := Suc (Suc (calls s))\<rparr>)"
    by (simp add: fetchAllTransfers_def paginate.simps fetch_resolved tron_world_def serving_def)
  moreover have "replay_transfers wallet58 25000 [token_event] = 100"
    by (simp add: replay_transfers_def replay_transfer_def token_event_def to_double_exact)
  ultimately show ?thesis by (simp add: getTronTokenHistoricalBalance_def)
qed

lemma token_world_block:
  "getBlockNumberByTimestamp key (token_world tron2 trs toks) c ''tron'' ''mainnet'' 25 s
     = (Inr 2, s\<lparr>calls := Suc (calls s)\<rparr>)"
  by (simp add: getBlockNumberByTimestamp_def getTronBlockNumberByTimestamp_def fetch_resolved
      token_world_def tronscan_def tronscan_blocks_def tron2_def)

lemma token_world_info:
  "getTronTokenInfo (token_world bs trs toks) tok network s
     = (first_of (Some toks), s\<lparr>calls := Suc (calls s)\<rparr>)"
  by (simp add: getTronTokenInfo_first fetch_resolved token_world_def)

lemma token_world_balance:
  "getTronTokenHistoricalBalance (token_world bs [token_event] toks) wallet58 ''token'' ''mainnet''
      25000 s = (Inr 100, s\<lparr>calls := Suc (Suc (calls s))\<rparr>)"
proof -
  have "fetchAllTransfers (token_world bs [token_event] toks) wallet58 ''token'' ''mainnet'' s
      = (Inr [token_event], s\<lparr>calls := Suc (Suc (calls s))\<rparr>)"
    by (simp add: fetchAllTransfers_def paginate.simps fetch_resolved token_world_def serving_def)
  moreover have "replay_transfers wallet58 25000 [token_event] = 100"
    by (simp add: replay_transfers_def replay_transfer_def token_event_def to_double_exact)
  ultimately show ?thesis by (simp add: getTronTokenHistoricalBalance_def)
qed

lemma sample_explorer_block:
  "getBlockNumberByTimestamp key (explorer_mock (\<lambda>i. Resolved (BlockFound 7))) c ''ethereum''
      ''mainnet'' 25 s = (Inr 7, s\<lparr>calls := Suc (calls s)\<rparr>)"
  by (simp add: getBlockNumberByTimestamp_def getExplorerApiUrl_def etherscan_is_v2 getChainId_def
      axios_get_def explorer_mock_def)

text \<open>
  An address of white space only passes the presence test and is trimmed to the
  empty string afterwards.
\<close>

lemma blank_address_is_not_rejected:
  "fst (POST (Some ''k'') (explorer_mock (\<lambda>i. Resolved (BlockFound 7))) proxy_node
          (token_query ''ethereum'' ''mainnet'' ''  '') io0) =
     Json200 \<lparr>json_chain = ''ethereum'', json_network = ''mainnet'', json_address = [],
        json_timestamp = 25, json_blockNumber = 7, json_balance = Scaled 2500000 18,
        json_symbol = ''ETH'', json_rawBalance = 2500000, json_replayed = False\<rparr>"
  by (simp add: POST_def token_query_def truthy_def js_trim_samples sample_explorer_block
      getRpcUrl_def evm_balance_def proxy_node_def native_symbol_def)

theorem token_metadata_fallback_witness:
  "isl (decimals proxy_node ''token'')
   \<and> POST (Some ''k'') (explorer_mock (\<lambda>i. Resolved (BlockFound 7))) proxy_node
        (token_query ''ethereum'' ''mainnet'' '' 0xabc '') io0 =
      (Json200 \<lparr>json_chain = ''ethereum'', json_network = ''mainnet'', json_address = ''0xabc'',
         json_timestamp = 25, json_blockNumber = 7, json_balance = Scaled 2500000 18,
         json_symbol = ''ETH'', json_rawBalance = 2500000, json_replayed = False\<rparr>,
       \<lparr>calls = 1, sleeps = []\<rparr>)
   \<and> getTronTokenInfo (tron_world tron2 [] [token_event]) ''token'' ''mainnet''
        \<lparr>calls = 2, sleeps = []\<rparr> = (None, \<lparr>calls = 3, sleeps = []\<rparr>)
   \<and> POST None (tron_world tron2 [] [token_event]) proxy_node
        (token_query ''tron'' ''mainnet'' wallet58) io0 =
      (Json200 \<lparr>json_chain = ''tron'', json_network = ''mainnet'', json_address = wallet58,
         json_timestamp = 25, json_blockNumber = 2, json_balance = Scaled 100 18,
         json_symbol = ''UNKNOWN'', json_rawBalance = 100, json_replayed = True\<rparr>,
       \<lparr>calls = 5, sleeps = []\<rparr>)
   \<and> getTronTokenInfo (token_world tron2 [token_event] []) ''token'' ''mainnet''
        \<lparr>calls = 2, sleeps = []\<rparr> = (None, \<lparr>calls = 3, sleeps = []\<rparr>)
   \<and> POST None (token_world tron2 [token_event] []) proxy_node
        (token_query ''tron'' ''mainnet'' wallet58) io0 =
      (Json200 \<lparr>json_chain = ''tron'', json_network = ''mainnet'', json_address = wallet58,
         json_timestamp = 25, json_blockNumber = 2, json_balance = Scaled 100 18,
         json_symbol = ''UNKNOWN'', json_rawBalance = 100, json_replayed = True\<rparr>,
       \<lparr>calls = 5, sleeps = []\<rparr>)
   \<and> token_decimals bare_token = None
   \<and> POST None (token_world tron2 [token_event] [bare_token]) proxy_node
        (token_query ''tron'' ''mainnet'' wallet58) io0 =
      (Json200 \<lparr>json_chain = ''tron'', json_network = ''mainnet'', json_address = wallet58,
         json_timestamp = 25, json_blockNumber = 2, json_balance = Scaled 100 18,
         json_symbol = ''USDT'', json_rawBalance = 100, json_replayed = True\<rparr>,
       \<lparr>calls = 5, sleeps = []\<rparr>)"
proof -
  let ?s1 = "\<lparr>calls = 1, sleeps = []\<rparr>"
  let ?s2 = "\<lparr>calls = 2, sleeps = []\<rparr>"
  let ?s3 = "\<lparr>calls = 3, sleeps = []\<rparr>"
  let ?s5 = "\<lparr>calls = 5, sleeps = []\<rparr>"
  note evm = token_metadata_fallback [where b = "token_query ''ethereum'' ''mainnet'' '' 0xabc ''"
      and ts = 25 and chain = "''ethereum''" and network = "''mainnet''" and tok = "''token''"
      and key = "Some ''k''" and up = "explorer_mock (\<lambda>i. Resolved (BlockFound 7))"
      and nd = proxy_node and s = io0 and bn = 7 and ?s1.0 = ?s1 and wei = 2500000,
      THEN conjunct1]
  note tron = token_metadata_fallback [where b = "token_query ''tron'' ''mainnet'' wallet58"
      and ts = 25 and network = "''mainnet''" and tok = "''token''" and key = None
      and nd = proxy_node and s = io0 and bn = 2 and ?s1.0 = ?s1 and hbn = 2 and ?s2.0 = ?s2
      and ?s3.0 = ?s3 and raw = 100 and ?s4.0 = ?s5]
  have d: "isl (decimals proxy_node ''token'')" by (simp add: proxy_node_def)
  have w: "wallet58 \<noteq> []" by (simp add: wallet58_def)
  have k: "\<not> isl (getRpcUrl (Some ''k'') ''ethereum'' ''mainnet'')" by (simp add: getRpcUrl_def)
  have i1: "getTronTokenInfo (tron_world tron2 [] [token_event]) ''token'' ''mainnet'' ?s2
      = (None, ?s3)"
    by (simp add: sample_token_info)
  have i2: "getTronTokenInfo (token_world tron2 [token_event] toks) ''token'' ''mainnet'' ?s2
      = (first_of (Some toks), ?s3)" for toks
    by (simp add: token_world_info)
  have bt: "token_decimals bare_token = None" "token_symbol bare_token = ''USDT''"
    by (simp_all add: bare_token_def)
  have p1: "POST (Some ''k'') (explorer_mock (\<lambda>i. Resolved (BlockFound 7))) proxy_node
        (token_query ''ethereum'' ''mainnet'' '' 0xabc '') io0 =
      (Json200 \<lparr>json_chain = ''ethereum'', json_network = ''mainnet'', json_address = ''0xabc'',
         json_timestamp = 25, json_blockNumber = 7, json_balance = Scaled 2500000 18,
         json_symbol = ''ETH'', json_rawBalance = 2500000, json_replayed = False\<rparr>, ?s1)"
    using evm d k
    by (simp add: token_query_def js_trim_samples sample_explorer_block io0_def proxy_node_def
        native_symbol_def)
  have p2: "POST None (tron_world tron2 [] [token_event]) proxy_node
        (token_query ''tron'' ''mainnet'' wallet58) io0 =
      (Json200 \<lparr>json_chain = ''tron'', json_network = ''mainnet'', json_address = wallet58,
         json_timestamp = 25, json_blockNumber = 2, json_balance = Scaled 100 18,
         json_symbol = ''UNKNOWN'', json_rawBalance = 100, json_replayed = True\<rparr>, ?s5)"
    using tron [where up = "tron_world tron2 [] [token_event]", THEN conjunct2, THEN conjunct1] w
    by (simp add: token_query_def js_trim_samples sample_tron_block sample_token_info
        sample_token_balance io0_def)
  have p3: "POST None (token_world tron2 [token_event] []) proxy_node
        (token_query ''tron'' ''mainnet'' wallet58) io0 =
      (Json200 \<lparr>json_chain = ''tron'', json_network = ''mainnet'', json_address = wallet58,
         json_timestamp = 25, json_blockNumber = 2, json_balance = Scaled 100 18,
         json_symbol = ''UNKNOWN'', json_rawBalance = 100, json_replayed = True\<rparr>, ?s5)"
    using tron [where up = "token_world tron2 [token_event] []", THEN conjunct2, THEN conjunct1] w
    by (simp add: token_query_def js_trim_samples token_world_block token_world_info
        token_world_balance io0_def first_of_def)
  have p4: "POST None (token_world tron2 [token_event] [bare_token]) proxy_node
        (token_query ''tron'' ''mainnet'' wallet58) io0 =
      (Json200 \<lparr>json_chain = ''tron'', json_network = ''mainnet'', json_address = wallet58,
         json_timestamp = 25, json_blockNumber = 2, json_balance = Scaled 100 18,
         json_symbol = ''USDT'', json_rawBalance = 100, json_replayed = True\<rparr>, ?s5)"
    using tron [where up = "token_world tron2 [token_event] [bare_token]" and t = bare_token,
        THEN conjunct2, THEN conjunct2, THEN conjunct2] w
    by (simp add: token_query_def js_trim_samples token_world_block token_world_info
        token_world_balance io0_def first_of_def bt)
  show ?thesis
    using d i1 i2 [of "[]"] bt(1) p1 p2 p3 p4 by (simp add: first_of_def)
qed

text \<open>
  The claim as written falls back to the chain's native symbol on every chain.
  A TRC-20 query whose token lookup fails answers with the symbol
  \<^verbatim>\<open>UNKNOWN\<close>, not \<^verbatim>\<open>TRX\<close>.
\<close>

theorem tron_token_symbol_counterexample:
  "fst (getTronTokenInfo (tron_world tron2 [] [token_event]) ''token'' ''mainnet''
          \<lparr>calls = 2, sleeps = []\<rparr>) = None
   \<and> fst (POST None (tron_world tron2 [] [token_event]) proxy_node
        (token_query ''tron'' ''mainnet'' wallet58) io0) =
      Json200 \<lparr>json_chain = ''tron'', json_network = ''mainnet'', json_address = wallet58,
         json_timestamp = 25, json_blockNumber = 2, json_balance = Scaled 100 18,
         json_symbol = ''UNKNOWN'', json_rawBalance = 100, json_replayed = True\<rparr>
   \<and> ''UNKNOWN'' \<noteq> ''TRX''"
proof -
  have w: "wallet58 \<noteq> []" by (simp add: wallet58_def)
  show ?thesis
    by (simp add: POST_def token_query_def getRpcUrl_def tron_balance_def truthy_def
        js_trim_samples sample_tron_block sample_token_info sample_token_balance io0_def w)
qed

section \<open>Which upstream calls are retried\<close>

lemma take_backoffs:
  "k \<le> 5 \<Longrightarrow> take k [3000, 6000, 12000, 24000, 48000] = backoffs 3000 k"
proof -
  assume "k \<le> 5"
  then have "backoffs 3000 k = take k (backoffs 3000 5)"
    unfolding backoffs_def by (simp add: take_map min_def del: upt_Suc)
  then show ?thesis by (simp add: backoffs_3000)
qed

lemma throttled_at_total: "\<exists>k r. throttled_at ep s k r"
proof (cases "\<forall>i<5. ep (calls s + i) = Rejected (Some 429)")
  case True
  then have "throttled_at ep s 5 (ep (calls s + 5))" by (simp add: throttled_at_def)
  then show ?thesis by blast
next
  case False
  define k where "k = (LEAST i. ep (calls s + i) \<noteq> Rejected (Some 429))"
  from False obtain j where j: "j < 5" "ep (calls s + j) \<noteq> Rejected (Some 429)" by blast
  have n: "ep (calls s + k) \<noteq> Rejected (Some 429)"
    unfolding k_def using j(2) by (rule LeastI)
  have "k \<le> j" unfolding k_def using j(2) by (rule Least_le)
  moreover have "ep (calls s + i) = Rejected (Some 429)" if "i < k" for i
    using not_less_Least [of i "\<lambda>i. ep (calls s + i) \<noteq> Rejected (Some 429)"] that
    unfolding k_def by blast
  ultimately have "throttled_at ep s k (ep (calls s + k))"
    using j(1) n by (simp add: throttled_at_def)
  then show ?thesis by blast
qed

lemma fetch_settles:
  assumes "throttled_at ep s k r"
  shows "fetch ep s =
           (case r of Resolved v \<Rightarrow> Inr v | Rejected st \<Rightarrow> Inl (AxiosError st), after_retries s k)"
proof -
  from assms have k: "k \<le> 5" and t: "\<forall>i<k. ep (calls s + i) = Rejected (Some 429)"
    and r: "ep (calls s + k) = r" and x: "r = Rejected (Some 429) \<longrightarrow> k = 5"
    by (auto simp: throttled_at_def)
  show ?thesis
  proof (cases "r = Rejected (Some 429)")
    case True
    with x have k5: "k = 5" by simp
    have "ep (calls s + i) = Rejected (Some 429)" if "i \<le> 5" for i
      using t r True k5 that by (cases "i = 5") auto
    then have "\<forall>i\<le>5. ep (calls s + i) = Rejected (Some 429)" by blast
    from fetchWithRetry_always_throttled [OF this, of 3000] True k5
    show ?thesis by (simp add: fetch_def after_retries_def backoffs_3000)
  next
    case False
    from fetchWithRetry_after_throttling [OF t r False k, of 3000]
    show ?thesis by (simp add: fetch_def after_retries_def take_backoffs [OF k])
  qed
qed

lemma fetch_settles_resolved:
  "throttled_at ep s k (Resolved v) \<Longrightarrow> fetch ep s = (Inr v, after_retries s k)"
  by (drule fetch_settles) simp

lemma fetch_settles_rejected:
  "throttled_at ep s k (Rejected st) \<Longrightarrow> fetch ep s = (Inl (AxiosError st), after_retries s k)"
  by (drule fetch_settles) simp

lemma paginate_step:
  assumes "throttled_at (page_at start) s k r"
  shows "paginate cap wrap page_at allEvents start s =
     (case r of
        Rejected st \<Rightarrow> (Inl (wrap (AxiosError st)), after_retries s k)
      | Resolved d \<Rightarrow>
         (case d of
            None \<Rightarrow> (Inr allEvents, after_retries s k)
          | Some page \<Rightarrow>
              if page = [] then (Inr allEvents, after_retries s k)
              else if length (allEvents @ page) \<ge> cap then (Inr (allEvents @ page), after_retries s k)
              else paginate cap wrap page_at (allEvents @ page) (start + 50) (after_retries s k)))"
  by (subst paginate.simps) (simp add: fetch_settles [OF assms] split: reply.splits option.splits)

lemma first_of_Some: "first_of d = Some x \<Longrightarrow> \<exists>xs. d = Some (x # xs)"
  by (auto simp: first_of_def split: option.splits list.splits)

lemma first_of_None: "first_of d = None \<Longrightarrow> d = None \<or> d = Some []"
  by (auto simp: first_of_def split: option.splits list.splits)

text \<open>
  C7, as the code has it. Every call to TronScan goes through the fetch client:
  whatever an endpoint answers, it answers 429 to some \<open>k \<le> 5\<close> calls and then
  settles, and the call site sees the settled answer after \<open>k + 1\<close> transport
  calls and \<open>k\<close> backoff delays.
  \<^item> The block lookup: a rejected window query fails the lookup; a window query
    with a block returns it; a window query without data is followed by the
    fallback query, which is retried in the same way from the state the window
    query left, and which fails the lookup, returns its block, or ends in
    "No Tron block found".
  \<^item> The token lookup returns the first token of the settled answer, and nothing
    when the answer is rejected or holds no token.
  \<^item> Each iteration of the two pagination loops, whatever has been accumulated
    and wherever the page starts: a rejected page fails the loop with the
    wrapped error, a page without events ends it, a page that reaches the cap
    ends it, any other page is appended and the loop goes on from the state the
    page request left, 50 further.
  The explorer block-by-time lookup of the other chains and the block-index
  lookup of BSC mainnet are single axios calls: one transport call and no delay
  whatever the answer; a rejected explorer call, 429 included, fails the lookup
  with that rejection, and a rejected block-index call, 429 included, falls
  through to the binary search over RPC.
\<close>

theorem upstream_calls_and_the_fetch_client:
  "(throttled_at (tron_blocks up (getExplorerApiUrl ''tron'' network)
        (Some ((ts - 3600) * 1000)) ((ts + 3600) * 1000)) s k (Rejected st) \<longrightarrow>
      getBlockNumberByTimestamp key up c ''tron'' network ts s = (Inl (AxiosError st), after_retries s k))
   \<and> (throttled_at (tron_blocks up (getExplorerApiUrl ''tron'' network)
        (Some ((ts - 3600) * 1000)) ((ts + 3600) * 1000)) s k (Resolved d) \<and> first_of d = Some b \<longrightarrow>
      getBlockNumberByTimestamp key up c ''tron'' network ts s = (Inr (number b), after_retries s k))
   \<and> (throttled_at (tron_blocks up (getExplorerApiUrl ''tron'' network)
        (Some ((ts - 3600) * 1000)) ((ts + 3600) * 1000)) s k (Resolved d) \<and> first_of d = None
      \<and> throttled_at (tron_blocks up (getExplorerApiUrl ''tron'' network) None (ts * 1000)) (after_retries s k) k' (Rejected st) \<longrightarrow>
      getBlockNumberByTimestamp key up c ''tron'' network ts s = (Inl (AxiosError st), after_retries (after_retries s k) k'))
   \<and> (throttled_at (tron_blocks up (getExplorerApiUrl ''tron'' network)
        (Some ((ts - 3600) * 1000)) ((ts + 3600) * 1000)) s k (Resolved d) \<and> first_of d = None
      \<and> throttled_at (tron_blocks up (getExplorerApiUrl ''tron'' network) None (ts * 1000)) (after_retries s k) k' (Resolved d') \<and> first_of d' = Some b \<longrightarrow>
      getBlockNumberByTimestamp key up c ''tron'' network ts s = (Inr (number b), after_retries (after_retries s k) k'))
   \<and> (throttled_at (tron_blocks up (getExplorerApiUrl ''tron'' network)
        (Some ((ts - 3600) * 1000)) ((ts + 3600) * 1000)) s k (Resolved d) \<and> first_of d = None
      \<and> throttled_at (tron_blocks up (getExplorerApiUrl ''tron'' network) None (ts * 1000)) (after_retries s k) k' (Resolved d') \<and> first_of d' = None \<longrightarrow>
      getBlockNumberByTimestamp key up c ''tron'' network ts s = (Inl NoTronBlockFound, after_retries (after_retries s k) k'))
   \<and> (throttled_at (trc20_token up (getExplorerApiUrl ''tron'' network) tok) s k rt \<longrightarrow>
      getTronTokenInfo up tok network s =
        (case rt of Resolved toks \<Rightarrow> first_of toks | Rejected st \<Rightarrow> None, after_retries s k))
   \<and> fetchAllTransactions up address network s =
        paginate 10000 FetchTransactionsFailed
          (tron_transactions up (getExplorerApiUrl ''tron'' network) address 50) [] 0 s
   \<and> (throttled_at (tron_transactions up (getExplorerApiUrl ''tron'' network) address 50 start) s k rx \<longrightarrow>
      paginate 10000 FetchTransactionsFailed
          (tron_transactions up (getExplorerApiUrl ''tron'' network) address 50) allTransactions start s =
        (case rx of
           Rejected st \<Rightarrow> (Inl (FetchTransactionsFailed (AxiosError st)), after_retries s k)
         | Resolved dx \<Rightarrow>
            (case dx of
               None \<Rightarrow> (Inr allTransactions, after_retries s k)
             | Some page \<Rightarrow>
                 if page = [] then (Inr allTransactions, after_retries s k)
                 else if length (allTransactions @ page) \<ge> 10000
                 then (Inr (allTransactions @ page), after_retries s k)
                 else paginate 10000 FetchTransactionsFailed
                        (tron_transactions up (getExplorerApiUrl ''tron'' network) address 50)
                        (allTransactions @ page) (start + 50) (after_retries s k))))
   \<and> fetchAllTransfers up address tok network s =
        paginate 5000 FetchTransfersFailed
          (\<lambda>start. trc20_transfers up (getExplorerApiUrl ''tron'' network) 50 start address tok) [] 0 s
   \<and> (throttled_at (trc20_transfers up (getExplorerApiUrl ''tron'' network) 50 start address tok) s k rf \<longrightarrow>
      paginate 5000 FetchTransfersFailed
          (\<lambda>start. trc20_transfers up (getExplorerApiUrl ''tron'' network) 50 start address tok)
          allTransfers start s =
        (case rf of
           Rejected st \<Rightarrow> (Inl (FetchTransfersFailed (AxiosError st)), after_retries s k)
         | Resolved df \<Rightarrow>
            (case df of
               None \<Rightarrow> (Inr allTransfers, after_retries s k)
             | Some page \<Rightarrow>
                 if page = [] then (Inr allTransfers, after_retries s k)
                 else if length (allTransfers @ page) \<ge> 5000
                 then (Inr (allTransfers @ page), after_retries s k)
                 else paginate 5000 FetchTransfersFailed
                        (\<lambda>start. trc20_transfers up (getExplorerApiUrl ''tron'' network) 50 start
                                   address tok)
                        (allTransfers @ page) (start + 50) (after_retries s k))))
   \<and> (chain \<noteq> ''tron'' \<and> chain \<noteq> ''bsc'' \<and> getChainId chain network = Inr cid \<longrightarrow>
      calls (snd (getBlockNumberByTimestamp key up c chain network ts s)) = calls s + 1
      \<and> sleeps (snd (getBlockNumberByTimestamp key up c chain network ts s)) = sleeps s
      \<and> (explorer_block up ''https://api.etherscan.io/v2/api'' ts (Some cid) (calls s) = Rejected st
           \<longrightarrow> fst (getBlockNumberByTimestamp key up c chain network ts s) = Inl (AxiosError st)))
   \<and> (calls (snd (getBlockNumberByTimestamp key up c ''bsc'' ''mainnet'' ts s)) = calls s + 1
      \<and> sleeps (snd (getBlockNumberByTimestamp key up c ''bsc'' ''mainnet'' ts s)) = sleeps s
      \<and> (llama_block up ts (calls s) = Rejected st \<longrightarrow>
           fst (getBlockNumberByTimestamp key up c ''bsc'' ''mainnet'' ts s)
             = bsc_rpc_search key c ''mainnet'' ts))"
proof -
  have U: "(if network = ''shasta'' then ''https://shastapi.tronscan.org/api''
            else ''https://apilist.tronscanapi.com/api'') = getExplorerApiUrl ''tron'' network"
    by (simp add: getExplorerApiUrl_def)
  have tron: "getBlockNumberByTimestamp key up c ''tron'' network ts s =
      (case fetch (tron_blocks up (getExplorerApiUrl ''tron'' network)
        (Some ((ts - 3600) * 1000)) ((ts + 3600) * 1000)) s of
         (Inl e, s1) \<Rightarrow> (Inl e, s1)
       | (Inr d, s1) \<Rightarrow>
          (case d of
             Some (b # bs) \<Rightarrow> (Inr (number b), s1)
           | _ \<Rightarrow>
             (case fetch (tron_blocks up (getExplorerApiUrl ''tron'' network) None (ts * 1000)) s1 of
                (Inl e, s2) \<Rightarrow> (Inl e, s2)
              | (Inr preciseData, s2) \<Rightarrow>
                 (case preciseData of
                    Some (b # bs) \<Rightarrow> (Inr (number b), s2)
                  | _ \<Rightarrow> (Inl NoTronBlockFound, s2)))))"
    unfolding getBlockNumberByTimestamp_def getTronBlockNumberByTimestamp_def U Let_def by simp
  show ?thesis
  proof (intro conjI impI)
    assume "throttled_at (tron_blocks up (getExplorerApiUrl ''tron'' network)
        (Some ((ts - 3600) * 1000)) ((ts + 3600) * 1000)) s k (Rejected st)"
    then have w: "fetch (tron_blocks up (getExplorerApiUrl ''tron'' network)
        (Some ((ts - 3600) * 1000)) ((ts + 3600) * 1000)) s = (Inl (AxiosError st), after_retries s k)"
      by (rule fetch_settles_rejected)
    show "getBlockNumberByTimestamp key up c ''tron'' network ts s = (Inl (AxiosError st), after_retries s k)"
      unfolding tron w by simp
  next
    assume a: "throttled_at (tron_blocks up (getExplorerApiUrl ''tron'' network)
        (Some ((ts - 3600) * 1000)) ((ts + 3600) * 1000)) s k (Resolved d) \<and> first_of d = Some b"
    then have w: "fetch (tron_blocks up (getExplorerApiUrl ''tron'' network)
        (Some ((ts - 3600) * 1000)) ((ts + 3600) * 1000)) s = (Inr d, after_retries s k)"
      by (intro fetch_settles_resolved) simp
    from a obtain rest where d: "d = Some (b # rest)" by (auto dest: first_of_Some)
    show "getBlockNumberByTimestamp key up c ''tron'' network ts s = (Inr (number b), after_retries s k)"
      unfolding tron w d by simp
  next
    assume a: "throttled_at (tron_blocks up (getExplorerApiUrl ''tron'' network)
        (Some ((ts - 3600) * 1000)) ((ts + 3600) * 1000)) s k (Resolved d) \<and> first_of d = None
      \<and> throttled_at (tron_blocks up (getExplorerApiUrl ''tron'' network) None (ts * 1000)) (after_retries s k) k' (Rejected st)"
    then have w: "fetch (tron_blocks up (getExplorerApiUrl ''tron'' network)
        (Some ((ts - 3600) * 1000)) ((ts + 3600) * 1000)) s = (Inr d, after_retries s k)"
      by (intro fetch_settles_resolved) simp
    from a have f: "fetch (tron_blocks up (getExplorerApiUrl ''tron'' network) None (ts * 1000)) (after_retries s k)
        = (Inl (AxiosError st), after_retries (after_retries s k) k')"
      by (intro fetch_settles_rejected) simp
    from a have d: "d = None \<or> d = Some []" by (auto dest: first_of_None)
    show "getBlockNumberByTimestamp key up c ''tron'' network ts s = (Inl (AxiosError st), after_retries (after_retries s k) k')"
      unfolding tron w using d by (auto simp: f)
  next
    assume a: "throttled_at (tron_blocks up (getExplorerApiUrl ''tron'' network)
        (Some ((ts - 3600) * 1000)) ((ts + 3600) * 1000)) s k (Resolved d) \<and> first_of d = None
      \<and> throttled_at (tron_blocks up (getExplorerApiUrl ''tron'' network) None (ts * 1000)) (after_retries s k) k' (Resolved d') \<and> first_of d' = Some b"
    then have w: "fetch (tron_blocks up (getExplorerApiUrl ''tron'' network)
        (Some ((ts - 3600) * 1000)) ((ts + 3600) * 1000)) s = (Inr d, after_retries s k)"
      by (intro fetch_settles_resolved) simp
    from a have f: "fetch (tron_blocks up (getExplorerApiUrl ''tron'' network) None (ts * 1000)) (after_retries s k)
        = (Inr d', after_retries (after_retries s k) k')"
      by (intro fetch_settles_resolved) simp
    from a have d: "d = None \<or> d = Some []" by (auto dest: first_of_None)
    from a obtain rest where d': "d' = Some (b # rest)" by (auto dest: first_of_Some)
    show "getBlockNumberByTimestamp key up c ''tron'' network ts s = (Inr (number b), after_retries (after_retries s k) k')"
      unfolding tron w using d by (auto simp: f d')
  next
    assume a: "throttled_at (tron_blocks up (getExplorerApiUrl ''tron'' network)
        (Some ((ts - 3600) * 1000)) ((ts + 3600) * 1000)) s k (Resolved d) \<and> first_of d = None
      \<and> throttled_at (tron_blocks up (getExplorerApiUrl ''tron'' network) None (ts * 1000)) (after_retries s k) k' (Resolved d') \<and> first_of d' = None"
    then have w: "fetch (tron_blocks up (getExplorerApiUrl ''tron'' network)
        (Some ((ts - 3600) * 1000)) ((ts + 3600) * 1000)) s = (Inr d, after_retries s k)"
      by (intro fetch_settles_resolved) simp
    from a have f: "fetch (tron_blocks up (getExplorerApiUrl ''tron'' network) None (ts * 1000)) (after_retries s k)
        = (Inr d', after_retries (after_retries s k) k')"
      by (intro fetch_settles_resolved) simp
    from a have d: "d = None \<or> d = Some []" by (auto dest: first_of_None)
    from a have d': "d' = None \<or> d' = Some []" by (auto dest: first_of_None)
    show "getBlockNumberByTimestamp key up c ''tron'' network ts s = (Inl NoTronBlockFound, after_retries (after_retries s k) k')"
      unfolding tron w using d d' by (auto simp: f)
  next
    assume "throttled_at (trc20_token up (getExplorerApiUrl ''tron'' network) tok) s k rt"
    from fetch_settles [OF this]
    show "getTronTokenInfo up tok network s =
        (case rt of Resolved toks \<Rightarrow> first_of toks | Rejected st \<Rightarrow> None, after_retries s k)"
      by (simp add: getTronTokenInfo_def first_of_def
          split: reply.splits option.splits list.splits)
  next
    show "fetchAllTransactions up address network s =
        paginate 10000 FetchTransactionsFailed
          (tron_transactions up (getExplorerApiUrl ''tron'' network) address 50) [] 0 s"
      by (simp add: fetchAllTransactions_def)
  next
    assume "throttled_at (tron_transactions up (getExplorerApiUrl ''tron'' network) address 50 start) s k rx"
    then show "paginate 10000 FetchTransactionsFailed
          (tron_transactions up (getExplorerApiUrl ''tron'' network) address 50) allTransactions start s =
        (case rx of
           Rejected st \<Rightarrow> (Inl (FetchTransactionsFailed (AxiosError st)), after_retries s k)
         | Resolved dx \<Rightarrow>
            (case dx of
               None \<Rightarrow> (Inr allTransactions, after_retries s k)
             | Some page \<Rightarrow>
                 if page = [] then (Inr allTransactions, after_retries s k)
                 else if length (allTransactions @ page) \<ge> 10000
                 then (Inr (allTransactions @ page), after_retries s k)
                 else paginate 10000 FetchTransactionsFailed
                        (tron_transactions up (getExplorerApiUrl ''tron'' network) address 50)
                        (allTransactions @ page) (start + 50) (after_retries s k)))"
      by (rule paginate_step)
  next
    show "fetchAllTransfers up address tok network s =
        paginate 5000 FetchTransfersFailed
          (\<lambda>start. trc20_transfers up (getExplorerApiUrl ''tron'' network) 50 start address tok) [] 0 s"
      by (simp add: fetchAllTransfers_def)
  next
    assume "throttled_at (trc20_transfers up (getExplorerApiUrl ''tron'' network) 50 start address tok) s k rf"
    then show "paginate 5000 FetchTransfersFailed
          (\<lambda>start. trc20_transfers up (getExplorerApiUrl ''tron'' network) 50 start address tok)
          allTransfers start s =
        (case rf of
           Rejected st \<Rightarrow> (Inl (FetchTransfersFailed (AxiosError st)), after_retries s k)
         | Resolved df \<Rightarrow>
            (case df of
               None \<Rightarrow> (Inr allTransfers, after_retries s k)
             | Some page \<Rightarrow>
                 if page = [] then (Inr allTransfers, after_retries s k)
                 else if length (allTransfers @ page) \<ge> 5000
                 then (Inr (allTransfers @ page), after_retries s k)
                 else paginate 5000 FetchTransfersFailed
                        (\<lambda>start. trc20_transfers up (getExplorerApiUrl ''tron'' network) 50 start
                                   address tok)
                        (allTransfers @ page) (start + 50) (after_retries s k)))"
      by (rule paginate_step [where page_at = "\<lambda>start. trc20_transfers up
            (getExplorerApiUrl ''tron'' network) 50 start address tok"])
  next
    assume a: "chain \<noteq> ''tron'' \<and> chain \<noteq> ''bsc'' \<and> getChainId chain network = Inr cid"
    then have e: "getBlockNumberByTimestamp key up c chain network ts s =
        (case axios_get (explorer_block up ''https://api.etherscan.io/v2/api'' ts (Some cid)) s of
           (Inl e, s') \<Rightarrow> (Inl e, s')
         | (Inr (BlockFound n), s') \<Rightarrow> (Inr n, s')
         | (Inr (BlockNotFound message result), s') \<Rightarrow>
             if message = ''NOTOK''
                \<and> (case result of None \<Rightarrow> False | Some r \<Rightarrow> js_includes r ''future'')
             then (case getRpcUrl key chain network of
                     Inl e \<Rightarrow> (Inl e, s')
                   | Inr rpcUrl \<Rightarrow> (Inr (getBlockNumber c), s'))
             else (Inl (ExplorerApiError message result), s'))"
      by (simp add: getBlockNumberByTimestamp_def getExplorerApiUrl_def etherscan_is_v2)
    show "calls (snd (getBlockNumberByTimestamp key up c chain network ts s)) = calls s + 1"
      unfolding e
      by (auto simp: axios_get_def split: reply.splits explorer_reply.splits sum.splits)
    show "sleeps (snd (getBlockNumberByTimestamp key up c chain network ts s)) = sleeps s"
      unfolding e
      by (auto simp: axios_get_def split: reply.splits explorer_reply.splits sum.splits)
    assume "explorer_block up ''https://api.etherscan.io/v2/api'' ts (Some cid) (calls s) = Rejected st"
    then show "fst (getBlockNumberByTimestamp key up c chain network ts s) = Inl (AxiosError st)"
      unfolding e by (simp add: axios_get_def)
  next
    show "calls (snd (getBlockNumberByTimestamp key up c ''bsc'' ''mainnet'' ts s)) = calls s + 1"
      by (auto simp: getBlockNumberByTimestamp_def getBscBlockNumberByTimestamp_def axios_get_def
          split: reply.splits)
    show "sleeps (snd (getBlockNumberByTimestamp key up c ''bsc'' ''mainnet'' ts s)) = sleeps s"
      by (auto simp: getBlockNumberByTimestamp_def getBscBlockNumberByTimestamp_def axios_get_def
          split: reply.splits)
    assume "llama_block up ts (calls s) = Rejected st"
    then show "fst (getBlockNumberByTimestamp key up c ''bsc'' ''mainnet'' ts s)
               = bsc_rpc_search key c ''mainnet'' ts"
      by (simp add: getBlockNumberByTimestamp_def getBscBlockNumberByTimestamp_def axios_get_def)
  qed
qed

lemma throttled_then_at:
  "k \<le> 5 \<Longrightarrow> r \<noteq> Rejected (Some 429) \<Longrightarrow> throttled_at (throttled_then k r) io0 k r"
  by (simp add: throttled_at_def throttled_then_def io0_def)

lemma throttled_then_exhausted:
  "throttled_at (throttled_then 6 r) io0 5 (Rejected (Some 429))"
  by (simp add: throttled_at_def throttled_then_def io0_def)

theorem upstream_calls_and_the_fetch_client_witness:
  "throttled_at (throttled_then 1 (Resolved (Some tron2))) io0 1 (Resolved (Some tron2))
   \<and> first_of (Some tron2) = Some \<lparr>number = 1, timestamp = 20000\<rparr>
   \<and> getChainId ''ethereum'' ''mainnet'' = Inr (NumericId 1)
   \<and> getBlockNumberByTimestamp None (throttled_tronscan 1 tron2 [sample_token]) chain4
        ''tron'' ''mainnet'' 25 io0 = (Inr 1, \<lparr>calls = 2, sleeps = [3000]\<rparr>)
   \<and> getBlockNumberByTimestamp None (throttled_tronscan 6 tron2 [sample_token]) chain4
        ''tron'' ''mainnet'' 25 io0
       = (Inl (AxiosError (Some 429)), \<lparr>calls = 6, sleeps = [3000, 6000, 12000, 24000, 48000]\<rparr>)
   \<and> getBlockNumberByTimestamp None (fallback_tronscan 2 tron2) chain4
        ''tron'' ''mainnet'' 25 io0 = (Inr 1, \<lparr>calls = 3, sleeps = [3000]\<rparr>)
   \<and> getBlockNumberByTimestamp None (fallback_tronscan 2 []) chain4
        ''tron'' ''mainnet'' 25 io0 = (Inl NoTronBlockFound, \<lparr>calls = 3, sleeps = [3000]\<rparr>)
   \<and> getTronTokenInfo (throttled_tronscan 1 tron2 [sample_token]) ''token'' ''mainnet'' io0
        = (Some sample_token, \<lparr>calls = 2, sleeps = [3000]\<rparr>)
   \<and> fetchAllTransactions (throttled_pages 1 sample_tx sample_transfer) wallet58 ''mainnet'' io0
        = (Inr [sample_tx], \<lparr>calls = 3, sleeps = [3000]\<rparr>)
   \<and> fetchAllTransfers (throttled_pages 1 sample_tx sample_transfer) wallet58 ''token'' ''mainnet'' io0
        = (Inr [sample_transfer], \<lparr>calls = 3, sleeps = [3000]\<rparr>)
   \<and> fst (getBlockNumberByTimestamp None (throttled_tronscan 1 tron2 [sample_token]) chain4
        ''ethereum'' ''mainnet'' 25 io0) = Inl (AxiosError None)
   \<and> calls (snd (getBlockNumberByTimestamp None (throttled_tronscan 1 tron2 [sample_token]) chain4
        ''ethereum'' ''mainnet'' 25 io0)) = 1
   \<and> calls (snd (getBlockNumberByTimestamp None (throttled_tronscan 1 tron2 [sample_token]) chain4
        ''bsc'' ''mainnet'' 25 io0)) = 1"
proof -
  let ?up = "throttled_tronscan 1 tron2 [sample_token]"
  let ?ex = "throttled_tronscan 6 tron2 [sample_token]"
  let ?pg = "throttled_pages 1 sample_tx sample_transfer"
  let ?b1 = "\<lparr>number = 1, timestamp = 20000\<rparr>"
  let ?s1 = "\<lparr>calls = 2, sleeps = [3000]\<rparr>"
  let ?u = "getExplorerApiUrl ''tron'' ''mainnet''"
  note t = upstream_calls_and_the_fetch_client [where network = "''mainnet''" and ts = 25
      and key = None and c = chain4 and tok = "''token''" and address = wallet58
      and chain = "''ethereum''" and cid = "NumericId 1"]
  have a: "throttled_at (throttled_then 1 r) io0 1 r" if "r \<noteq> Rejected (Some 429)"
    for r :: "'a reply"
    using that by (intro throttled_then_at) simp_all
  have a0: "throttled_at (throttled_then 1 (Resolved (Some tron2))) io0 1 (Resolved (Some tron2))"
    by (rule a) simp
  have f1: "first_of (Some tron2) = Some ?b1" by (simp add: first_of_def tron2_def)
  have g: "getChainId ''ethereum'' ''mainnet'' = Inr (NumericId 1)" by (simp add: getChainId_def)
  have c0: "calls io0 = 0" by (simp add: io0_def)
  have tb: "tron_blocks ?up u x e = throttled_then 1 (Resolved (Some tron2))" for u x e
    by (simp add: throttled_tronscan_def)
  have tk: "trc20_token ?up u tok = throttled_then 1 (Resolved (Some [sample_token]))" for u tok
    by (simp add: throttled_tronscan_def)
  have e: "explorer_block ?up u x cid i = Rejected None" for u x cid i
    by (simp add: throttled_tronscan_def offline_def)
  have h1: "throttled_at (tron_blocks ?up ?u (Some ((25 - 3600) * 1000)) ((25 + 3600) * 1000))
        io0 1 (Resolved (Some tron2)) \<and> first_of (Some tron2) = Some ?b1"
    unfolding tb using a0 f1 by (rule conjI)
  have c1: "getBlockNumberByTimestamp None ?up chain4 ''tron'' ''mainnet'' 25 io0 = (Inr 1, ?s1)"
    using t [where up = ?up and s = io0 and k = 1 and d = "Some tron2" and b = ?b1,
        THEN conjunct2, THEN conjunct1, THEN mp, OF h1]
    by (simp add: after_retries_def io0_def)
  have h2: "throttled_at (tron_blocks ?ex ?u (Some ((25 - 3600) * 1000)) ((25 + 3600) * 1000))
        io0 5 (Rejected (Some 429))"
    by (simp add: throttled_tronscan_def throttled_then_exhausted)
  have c2: "getBlockNumberByTimestamp None ?ex chain4 ''tron'' ''mainnet'' 25 io0
       = (Inl (AxiosError (Some 429)), \<lparr>calls = 6, sleeps = [3000, 6000, 12000, 24000, 48000]\<rparr>)"
    using t [where up = ?ex and s = io0 and k = 5 and st = "Some 429", THEN conjunct1, THEN mp, OF h2]
    by (simp add: after_retries_def io0_def)
  have h3: "throttled_at (tron_blocks (fallback_tronscan 2 bs) ?u (Some ((25 - 3600) * 1000))
                ((25 + 3600) * 1000)) io0 0 (Resolved None)
      \<and> first_of None = None
      \<and> throttled_at (tron_blocks (fallback_tronscan 2 bs) ?u None (25 * 1000)) (after_retries io0 0) 1
          (Resolved (Some bs))
      \<and> first_of (Some bs) = x" if "first_of (Some bs) = x" for bs x
    using that
    by (simp add: fallback_tronscan_def throttled_at_def throttled_then_def first_of_def
        after_retries_def io0_def)
  have r01: "after_retries (after_retries io0 0) 1 = \<lparr>calls = 3, sleeps = [3000]\<rparr>"
    by (simp add: after_retries_def io0_def)
  have f0: "first_of (Some []) = (None :: block option)" by (simp add: first_of_def)
  have c3: "getBlockNumberByTimestamp None (fallback_tronscan 2 tron2) chain4
        ''tron'' ''mainnet'' 25 io0 = (Inr 1, \<lparr>calls = 3, sleeps = [3000]\<rparr>)"
    by (rule t [where up = "fallback_tronscan 2 tron2" and s = io0 and k = 0 and d = None
        and k' = 1 and d' = "Some tron2" and b = ?b1,
        THEN conjunct2, THEN conjunct2, THEN conjunct2, THEN conjunct1, THEN mp,
        OF h3 [OF f1], unfolded r01 block.select_convs])
  have c4: "getBlockNumberByTimestamp None (fallback_tronscan 2 []) chain4
        ''tron'' ''mainnet'' 25 io0 = (Inl NoTronBlockFound, \<lparr>calls = 3, sleeps = [3000]\<rparr>)"
    by (rule t [where up = "fallback_tronscan 2 []" and s = io0 and k = 0 and d = None
        and k' = 1 and d' = "Some []",
        THEN conjunct2, THEN conjunct2, THEN conjunct2, THEN conjunct2, THEN conjunct1, THEN mp,
        OF h3 [OF f0], unfolded r01])
  have h5: "throttled_at (trc20_token ?up ?u ''token'') io0 1 (Resolved (Some [sample_token]))"
    unfolding tk by (rule a) simp
  have c5: "getTronTokenInfo ?up ''token'' ''mainnet'' io0 = (Some sample_token, ?s1)"
    using t [where up = ?up and s = io0 and k = 1 and rt = "Resolved (Some [sample_token])",
        THEN conjunct2, THEN conjunct2, THEN conjunct2, THEN conjunct2, THEN conjunct2, THEN conjunct1, THEN mp, OF h5]
    by (simp add: after_retries_def io0_def first_of_def)
  have tp: "tron_transactions ?pg u ad l 0 = throttled_then 1 (Resolved (Some [sample_tx]))"
    "trc20_transfers ?pg u l 0 ad tok = throttled_then 1 (Resolved (Some [sample_transfer]))"
    for u ad l tok
    by (simp_all add: throttled_pages_def)
  have h6: "throttled_at (tron_transactions ?pg ?u wallet58 50 0) io0 1 (Resolved (Some [sample_tx]))"
    "throttled_at (trc20_transfers ?pg ?u 50 0 wallet58 ''token'') io0 1
       (Resolved (Some [sample_transfer]))"
    unfolding tp by (rule a, simp)+
  have h7: "throttled_at (tron_transactions ?pg ?u wallet58 50 50) ?s1 0 (Resolved None)"
    "throttled_at (trc20_transfers ?pg ?u 50 50 wallet58 ''token'') ?s1 0 (Resolved None)"
    by (simp_all add: throttled_pages_def throttled_at_def)
  have r1: "after_retries io0 1 = ?s1" by (simp add: after_retries_def io0_def)
  have r2: "after_retries ?s1 0 = \<lparr>calls = 3, sleeps = [3000]\<rparr>"
    by (simp add: after_retries_def)
  let ?px = "paginate 10000 FetchTransactionsFailed (tron_transactions ?pg ?u wallet58 50)"
  have p0: "fetchAllTransactions ?pg wallet58 ''mainnet'' io0 = ?px [] 0 io0"
    by (rule t [where up = ?pg and s = io0, THEN conjunct2, THEN conjunct2, THEN conjunct2, THEN conjunct2, THEN conjunct2, THEN conjunct2, THEN conjunct1])
  have p1: "?px [] 0 io0 = ?px [sample_tx] 50 ?s1"
    using t [where up = ?pg and s = io0 and k = 1 and start = 0 and allTransactions = "[]"
        and rx = "Resolved (Some [sample_tx])", THEN conjunct2, THEN conjunct2, THEN conjunct2, THEN conjunct2, THEN conjunct2, THEN conjunct2, THEN conjunct2, THEN conjunct1, THEN mp, OF h6(1),
        unfolded r1]
    by simp
  have p2: "?px [sample_tx] 50 ?s1 = (Inr [sample_tx], \<lparr>calls = 3, sleeps = [3000]\<rparr>)"
    using t [where up = ?pg and s = ?s1 and k = 0 and start = 50 and allTransactions = "[sample_tx]"
        and rx = "Resolved None", THEN conjunct2, THEN conjunct2, THEN conjunct2, THEN conjunct2, THEN conjunct2, THEN conjunct2, THEN conjunct2, THEN conjunct1, THEN mp, OF h7(1), unfolded r2]
    by simp
  have c6: "fetchAllTransactions ?pg wallet58 ''mainnet'' io0
        = (Inr [sample_tx], \<lparr>calls = 3, sleeps = [3000]\<rparr>)"
    by (simp only: p0 p1 p2)
  let ?pf = "paginate 5000 FetchTransfersFailed
      (\<lambda>start. trc20_transfers ?pg ?u 50 start wallet58 ''token'')"
  have q0: "fetchAllTransfers ?pg wallet58 ''token'' ''mainnet'' io0 = ?pf [] 0 io0"
    by (rule t [where up = ?pg and s = io0, THEN conjunct2, THEN conjunct2, THEN conjunct2, THEN conjunct2, THEN conjunct2, THEN conjunct2, THEN conjunct2, THEN conjunct2, THEN conjunct1])
  have q1: "?pf [] 0 io0 = ?pf [sample_transfer] 50 ?s1"
    using t [where up = ?pg and s = io0 and k = 1 and start = 0 and allTransfers = "[]"
        and rf = "Resolved (Some [sample_transfer])", THEN conjunct2, THEN conjunct2, THEN conjunct2, THEN conjunct2, THEN conjunct2, THEN conjunct2, THEN conjunct2, THEN conjunct2, THEN conjunct2, THEN conjunct1, THEN mp, OF h6(2),
        unfolded r1]
    by simp
  have q2: "?pf [sample_transfer] 50 ?s1 = (Inr [sample_transfer], \<lparr>calls = 3, sleeps = [3000]\<rparr>)"
    using t [where up = ?pg and s = ?s1 and k = 0 and start = 50 and allTransfers = "[sample_transfer]"
        and rf = "Resolved None", THEN conjunct2, THEN conjunct2, THEN conjunct2, THEN conjunct2, THEN conjunct2, THEN conjunct2, THEN conjunct2, THEN conjunct2, THEN conjunct2, THEN conjunct1, THEN mp, OF h7(2), unfolded r2]
    by simp
  have c7: "fetchAllTransfers ?pg wallet58 ''token'' ''mainnet'' io0
        = (Inr [sample_transfer], \<lparr>calls = 3, sleeps = [3000]\<rparr>)"
    by (simp only: q0 q1 q2)
  note direct = t [where up = ?up and s = io0 and st = None, THEN conjunct2, THEN conjunct2, THEN conjunct2, THEN conjunct2, THEN conjunct2, THEN conjunct2, THEN conjunct2, THEN conjunct2, THEN conjunct2, THEN conjunct2]
  have c8: "fst (getBlockNumberByTimestamp None ?up chain4 ''ethereum'' ''mainnet'' 25 io0)
        = Inl (AxiosError None)"
      "calls (snd (getBlockNumberByTimestamp None ?up chain4 ''ethereum'' ''mainnet'' 25 io0)) = 1"
    using direct [THEN conjunct1] g e by (simp_all add: c0)
  have c9: "calls (snd (getBlockNumberByTimestamp None ?up chain4 ''bsc'' ''mainnet'' 25 io0)) = 1"
    using direct [THEN conjunct2] by (simp add: c0)
  show ?thesis
    by (intro conjI) (fact a0 f1 g c1 c2 c3 c4 c5 c6 c7 c8 c9)+
qed

text \<open>
  The claim as written routes every explorer and block-index call through the
  client. Through the client, an endpoint that answers 429 once and then block 7
  yields block 7 after two calls and a delay of 3000 ms. The explorer lookup for
  ethereum against that endpoint fails with the 429 after one call; the BSC
  lookup against a block index that answers 429 once makes one call to it and
  resolves the block by binary search.
\<close>

theorem explorer_call_not_retried_counterexample:
  "fetch (throttled_then 1 (Resolved (BlockFound 7))) io0
     = (Inr (BlockFound 7), \<lparr>calls = 2, sleeps = [3000]\<rparr>)
   \<and> getBlockNumberByTimestamp (Some ''k'') (explorer_mock (throttled_then 1 (Resolved (BlockFound 7))))
        chain4 ''ethereum'' ''mainnet'' 25 io0
     = (Inl (AxiosError (Some 429)), \<lparr>calls = 1, sleeps = []\<rparr>)
   \<and> getBlockNumberByTimestamp (Some ''k'') (llama_mock (throttled_then 1 (Resolved 99)))
        chain4 ''bsc'' ''mainnet'' 25 io0
     = (Inr 2, \<lparr>calls = 1, sleeps = []\<rparr>)"
proof -
  have "fetch (throttled_then 1 (Resolved (BlockFound 7))) io0
     = (Inr (BlockFound 7), after_retries io0 1)"
    by (rule fetch_settles_resolved, rule throttled_then_at) simp_all
  then have f: "fetch (throttled_then 1 (Resolved (BlockFound 7))) io0
     = (Inr (BlockFound 7), \<lparr>calls = 2, sleeps = [3000]\<rparr>)"
    by (simp add: after_retries_def io0_def)
  have e: "getBlockNumberByTimestamp (Some ''k'') (explorer_mock (throttled_then 1 (Resolved (BlockFound 7))))
        chain4 ''ethereum'' ''mainnet'' 25 io0
     = (Inl (AxiosError (Some 429)), \<lparr>calls = 1, sleeps = []\<rparr>)"
    by (simp add: getBlockNumberByTimestamp_def getExplorerApiUrl_def etherscan_is_v2 getChainId_def
        axios_get_def explorer_mock_def throttled_then_def io0_def)
  have l: "getBlockNumberByTimestamp (Some ''k'') (llama_mock (throttled_then 1 (Resolved 99)))
        chain4 ''bsc'' ''mainnet'' 25 io0
     = (Inr 2, \<lparr>calls = 1, sleeps = []\<rparr>)"
    by (simp add: getBlockNumberByTimestamp_def getBscBlockNumberByTimestamp_def axios_get_def
        llama_mock_def throttled_then_def io0_def bsc_rpc_search_def getRpcUrl_def
        getLatestBlock_def getBlockNumber_def getBlock_def bsc_search.simps chain4_def)
  from f e l show ?thesis by simp
qed

end
